(* ===== verification/Go_Prelude.thy ===== *)
theory Go_Prelude
  imports Main "HOL-Library.Word"
begin

text \<open>
  What every component of the development shares: the theorem collections, Go's integer
  types and ranges, \<open>time.Time\<close> and \<open>time.Duration\<close> as integers of nanoseconds, and
  the ambient run-time a Go function reads (environment variables, the clock, the random
  source).
  \<^item> \<open>uint\<close> is a 64-bit word: the source is built for 64-bit platforms, where
    \<open>strconv.IntSize\<close> is 64.
  \<^item> \<open>int\<close>, \<open>int64\<close> and \<open>time.Duration\<close> values are Isabelle integers; the places where
    the code can leave the 64-bit range (parsing, narrowing, \<open>time.Until\<close>) write the range
    out.
  \<^item> a function that may fail returns \<open>go_error + 'a\<close> (theory Go_Errors), \<open>Inl\<close> for the
    error.
\<close>

named_theorems go_defs \<open>definitions of small operations, unfolded by component proofs\<close>
named_theorems frame \<open>what an operation leaves unchanged\<close>

section \<open>Integers\<close>

type_synonym uint = "64 word"

definition max_int64 :: int where
  "max_int64 = 9223372036854775807"

definition min_int64 :: int where
  "min_int64 = - 9223372036854775808"

definition max_uint64 :: nat where
  "max_uint64 = 18446744073709551615"

text \<open>\<open>uint(x)\<close> for an \<open>int64\<close> value \<open>x\<close>: the two's complement bit pattern.\<close>

definition uint_of_int64 :: "int \<Rightarrow> uint" where
  "uint_of_int64 x = word_of_int x"

lemma max_int64_eq: "max_int64 = 2 ^ 63 - 1"
  by (simp add: max_int64_def)

lemma uint_nonneg_le: "0 \<le> uint (v :: uint) \<and> uint v < 18446744073709551616"
  using uint_lt2p [of v] by simp

lemma uint_of_int64_back: "0 \<le> x \<Longrightarrow> x \<le> max_int64 \<Longrightarrow> uint (uint_of_int64 x) = x"
  by (simp add: uint_of_int64_def max_int64_def uint_word_of_int)

section \<open>Time\<close>

text \<open>
  A \<open>time.Time\<close> is the number of nanoseconds since the Unix epoch; the zero value of the
  type is 1 January of year 1. A \<open>time.Duration\<close> is a count of nanoseconds.
\<close>

type_synonym time = int
type_synonym duration = int

definition millisecond :: duration where "millisecond = 1000000"
definition second :: duration where "second = 1000000000"
definition minute :: duration where "minute = 60000000000"
definition hour :: duration where "hour = 3600000000000"

lemmas [go_defs] = millisecond_def second_def minute_def hour_def

definition time_zero :: time where
  "time_zero = - 62135596800000000000"

definition time_is_zero :: "time \<Rightarrow> bool" where
  "time_is_zero t \<longleftrightarrow> t = time_zero"

definition time_before :: "time \<Rightarrow> time \<Rightarrow> bool" where
  "time_before t u \<longleftrightarrow> t < u"

definition time_add :: "time \<Rightarrow> duration \<Rightarrow> time" where
  "time_add t d = t + d"

text \<open>\<open>t.Sub(u)\<close> saturates at the ends of the \<open>Duration\<close> range.\<close>

definition time_sub :: "time \<Rightarrow> time \<Rightarrow> duration" where
  "time_sub t u = max min_int64 (min max_int64 (t - u))"

text \<open>\<open>t.Unix()\<close>: whole seconds, rounded towards minus infinity.\<close>

definition time_unix :: "time \<Rightarrow> int" where
  "time_unix t = t div 1000000000"

lemmas [go_defs] = time_is_zero_def time_before_def time_add_def time_unix_def

text \<open>
  \<open>int64(d.Seconds())\<close> for a positive duration. \<open>Seconds\<close> goes through \<open>float64\<close>, which is
  exact enough to give the whole seconds below 97 days.
\<close>

definition duration_seconds :: "duration \<Rightarrow> int" where
  "duration_seconds d = d div second"

lemma time_sub_pos_iff: "0 < time_sub t u \<longleftrightarrow> u < t"
  by (auto simp: time_sub_def min_int64_def max_int64_def)

lemma time_unix_mono: "t \<le> u \<Longrightarrow> time_unix t \<le> time_unix u"
  by (simp add: time_unix_def zdiv_mono1)

section \<open>The run-time environment\<close>

text \<open>
  \<open>os.Getenv\<close> is a function from names to values (the empty string when unset). The
  \<open>k\<close>-th call of \<open>time.Now\<close> returns \<open>rt_time k\<close>, and the \<open>k\<close>-th read of \<open>crypto/rand\<close>
  yields the byte stream \<open>rt_rand k\<close>, or fails. Both are arbitrary functions: no
  monotonicity of the clock and no quality of the randomness is built in; a property that
  needs either says so.
\<close>

record go_rt =
  rt_env :: "string \<Rightarrow> string"
  rt_time :: "nat \<Rightarrow> time"
  rt_tick :: nat
  rt_rand :: "nat \<Rightarrow> (nat \<Rightarrow> char) option"
  rt_draw :: nat

definition time_now :: "go_rt \<Rightarrow> time \<times> go_rt" where
  "time_now r = (rt_time r (rt_tick r), r\<lparr>rt_tick := Suc (rt_tick r)\<rparr>)"

text \<open>\<open>rand.Read\<close> into a buffer of \<open>n\<close> bytes.\<close>

definition rand_read :: "nat \<Rightarrow> go_rt \<Rightarrow> string option \<times> go_rt" where
  "rand_read n r =
     (map_option (\<lambda>f. map f [0..<n]) (rt_rand r (rt_draw r)), r\<lparr>rt_draw := Suc (rt_draw r)\<rparr>)"

lemma rand_read_length: "fst (rand_read n r) = Some b \<Longrightarrow> length b = n"
  by (auto simp: rand_read_def)

lemma time_now_frame [frame, simp]:
  "rt_env (snd (time_now r)) = rt_env r"
  "rt_time (snd (time_now r)) = rt_time r"
  "rt_rand (snd (time_now r)) = rt_rand r"
  "rt_draw (snd (time_now r)) = rt_draw r"
  by (simp_all add: time_now_def)

lemma rand_read_frame [frame, simp]:
  "rt_env (snd (rand_read n r)) = rt_env r"
  "rt_time (snd (rand_read n r)) = rt_time r"
  "rt_rand (snd (rand_read n r)) = rt_rand r"
  "rt_tick (snd (rand_read n r)) = rt_tick r"
  by (simp_all add: rand_read_def)

section \<open>Lists as tables\<close>

text \<open>
  The shape of an SQL statement on a table held as a list of rows: \<open>SELECT ... WHERE\<close> is
  \<open>filter\<close>, \<open>UPDATE ... SET ... WHERE\<close> maps the rows that match, \<open>DELETE ... WHERE\<close>
  keeps the rows that do not. The lemmas are the ones every table of theory Pg uses.
\<close>

definition sql_update :: "('a \<Rightarrow> bool) \<Rightarrow> ('a \<Rightarrow> 'a) \<Rightarrow> 'a list \<Rightarrow> 'a list" where
  "sql_update p f rows = map (\<lambda>r. if p r then f r else r) rows"

definition sql_delete :: "('a \<Rightarrow> bool) \<Rightarrow> 'a list \<Rightarrow> 'a list" where
  "sql_delete p rows = filter (\<lambda>r. \<not> p r) rows"

definition sql_count :: "('a \<Rightarrow> bool) \<Rightarrow> 'a list \<Rightarrow> nat" where
  "sql_count p rows = length (filter p rows)"

definition sql_first :: "('a \<Rightarrow> bool) \<Rightarrow> 'a list \<Rightarrow> 'a option" where
  "sql_first p rows = find p rows"

lemma sql_update_keys:
  assumes "\<And>r. k (f r) = k r"
  shows "map k (sql_update p f rows) = map k rows"
  using assms by (simp add: sql_update_def)

lemma set_sql_update: "set (sql_update p f rows) = (\<lambda>r. if p r then f r else r) ` set rows"
  by (simp add: sql_update_def)

lemma sql_first_Some: "sql_first p rows = Some r \<Longrightarrow> r \<in> set rows \<and> p r"
  by (auto simp: sql_first_def find_Some_iff)

lemma sql_first_None: "sql_first p rows = None \<longleftrightarrow> (\<forall>r \<in> set rows. \<not> p r)"
  by (auto simp: sql_first_def find_None_iff)

lemma sql_first_append:
  "sql_first p (xs @ ys) = (case sql_first p xs of None \<Rightarrow> sql_first p ys | Some r \<Rightarrow> Some r)"
  by (induction xs) (auto simp: sql_first_def)

text \<open>With distinct keys a lookup by key finds exactly the row that has it.\<close>

lemma sql_first_key:
  assumes "distinct (map k rows)" and "r \<in> set rows" and "k r = v"
  shows "sql_first (\<lambda>x. k x = v) rows = Some r"
  using assms
proof (induction rows)
  case Nil
  then show ?case by simp
next
  case (Cons x xs)
  show ?case
  proof (cases "r = x")
    case True
    with Cons.prems show ?thesis by (simp add: sql_first_def)
  next
    case False
    with Cons.prems have "r \<in> set xs" by simp
    moreover from this Cons.prems have "k x \<noteq> v" by force
    ultimately show ?thesis using Cons by (simp add: sql_first_def)
  qed
qed

lemma sql_count_zero: "sql_count p rows = 0 \<longleftrightarrow> (\<forall>r \<in> set rows. \<not> p r)"
  by (simp add: sql_count_def filter_empty_conv)

lemma sql_count_key_le_1:
  assumes "distinct (map k rows)" and "\<And>r. p r \<Longrightarrow> k r = v"
  shows "sql_count p rows \<le> 1"
  using assms
proof (induction rows)
  case Nil
  then show ?case by (simp add: sql_count_def)
next
  case (Cons x xs)
  show ?case
  proof (cases "p x")
    case True
    then have "k x = v" by (rule Cons.prems(2))
    then have "v \<notin> k ` set xs" using Cons.prems(1) by auto
    then have "filter p xs = []"
      using Cons.prems(2) by (auto simp: filter_empty_conv)
    with True show ?thesis by (simp add: sql_count_def)
  next
    case False
    with Cons show ?thesis by (simp add: sql_count_def)
  qed
qed

text \<open>The row an update by key returns is the one a later lookup finds.\<close>

lemma sql_first_update:
  assumes "\<And>r. k (f r) = k r"
  shows "sql_first (\<lambda>x. k x = v) (sql_update (\<lambda>x. k x = w) f rows) =
    map_option (\<lambda>r. if v = w then f r else r) (sql_first (\<lambda>x. k x = v) rows)"
  using assms by (induction rows) (auto simp: sql_first_def sql_update_def)

lemma sql_first_delete:
  "sql_first (\<lambda>x. k x = v) (sql_delete (\<lambda>x. k x = w) rows) =
    (if v = w then None else sql_first (\<lambda>x. k x = v) rows)"
  by (induction rows) (auto simp: sql_first_def sql_delete_def)

text \<open>
  A table read by a key: the first row under each key. A lookup, an insert under a new key,
  an update by key and a delete by key are the map operations.
\<close>

definition table_of :: "('a \<Rightarrow> 'k) \<Rightarrow> 'a list \<Rightarrow> 'k \<Rightarrow> 'a option" where
  "table_of k rows v = sql_first (\<lambda>r. k r = v) rows"

lemma table_of_snoc:
  assumes "k r \<notin> k ` set rows"
  shows "table_of k (rows @ [r]) = (table_of k rows)(k r \<mapsto> r)"
proof -
  have "table_of k rows (k r) = None"
    using assms by (fastforce simp: table_of_def sql_first_None image_iff)
  then show ?thesis
    by (intro ext) (auto simp: table_of_def sql_first_append split: option.splits,
      auto simp: sql_first_def)
qed

lemma table_of_update:
  assumes "\<And>r. k (f r) = k r"
  shows "table_of k (sql_update (\<lambda>x. k x = w) f rows) =
    (table_of k rows)(w := map_option f (table_of k rows w))"
  by (intro ext) (auto simp: table_of_def sql_first_update [where k = k, OF assms] option.map_ident)

lemma table_of_delete: "table_of k (sql_delete (\<lambda>x. k x = w) rows) = (table_of k rows)(w := None)"
  by (intro ext) (simp add: table_of_def sql_first_delete)

lemma table_of_Some: "table_of k rows v = Some r \<Longrightarrow> r \<in> set rows \<and> k r = v"
  by (auto simp: table_of_def dest: sql_first_Some)

lemma table_of_None: "table_of k rows v = None \<longleftrightarrow> v \<notin> k ` set rows"
  by (auto simp: table_of_def sql_first_None)

lemma table_of_in:
  "distinct (map k rows) \<Longrightarrow> r \<in> set rows \<Longrightarrow> table_of k rows (k r) = Some r"
  by (simp add: table_of_def sql_first_key)

text \<open>An update by any predicate that keeps the keys, on a table whose keys are distinct.\<close>

lemma table_of_update_pred:
  assumes "\<And>r. k (f r) = k r" and "distinct (map k rows)"
  shows "table_of k (sql_update p f rows) v =
    map_option (\<lambda>r. if p r then f r else r) (table_of k rows v)"
  using assms(2)
proof (induction rows)
  case Nil
  then show ?case by (simp add: table_of_def sql_first_def sql_update_def)
next
  case (Cons x xs)
  then show ?case
    by (auto simp: table_of_def sql_first_def sql_update_def assms(1))
qed

end
