(* ===== verification/Go_Errors.thy ===== *)
theory Go_Errors
  imports Go_Prelude
begin

text \<open>
  Go's error values. A sentinel is a package-level \<open>errors.New\<close> the code compares with
  \<open>errors.Is\<close>; \<open>Wrapped s c\<close> is \<open>fmt.Errorf("%w: %v", s, c)\<close>, whose chain holds \<open>s\<close> but
  not the cause \<open>c\<close> (formatted with \<open>%v\<close>); \<open>Prefixed p c\<close> is \<open>fmt.Errorf("p: %w", c)\<close>,
  whose chain goes on with \<open>c\<close>; the remaining constructors are the errors that
  come from below the code: the driver's \<open>pgx.ErrNoRows\<close>, a \<open>*pgconn.PgError\<close> with its
  SQLSTATE, constraint and message, a \<open>*os.PathError\<close> with its operation and path, and any
  other error by its text.
\<close>

datatype sentinel =
    ErrNotFound
  | ErrUserUsernameConflict
  | ErrRefreshAlreadyConsumed
  | ErrListBooksDB
  | ErrListBooksMarshal
  | ErrListBooksRedis
  | ErrListBooksUnmarshal
  | ErrBookForbidden
  | ErrInvalidLogin
  | ErrLoginDB
  | ErrTokenGenerate
  | ErrRegisterConflict
  | ErrPasswordTooLong
  | ErrRegisterHash
  | ErrRegisterSave
  | ErrInvalidRefresh
  | ErrRefreshReuse
  | ErrRefreshPersist
  | ErrLogoutPersist
  | ErrJWTSigningKeyNotConfigured
  | ErrJWTSigningKeyTooShort
  | ErrAPISecretKeyTooShort
  | ErrBcryptPasswordTooLong
  | ErrRedisNil
  | ErrEOF
  | ErrServerClosed
  | EINVAL
  | EBADF

datatype go_error =
    Sentinel sentinel
  | Wrapped sentinel go_error
  | Prefixed string go_error
  | ErrNoRows
  | PgError string string string
  | PathError string go_error
  | ErrText string

text \<open>\<open>errors.Is(err, sentinel)\<close>: the sentinel is in the chain of unwrapped errors.\<close>

fun errors_is :: "go_error \<Rightarrow> sentinel \<Rightarrow> bool" where
  "errors_is (Sentinel s) t \<longleftrightarrow> s = t"
| "errors_is (Wrapped s c) t \<longleftrightarrow> s = t"
| "errors_is (Prefixed p c) t \<longleftrightarrow> errors_is c t"
| "errors_is ErrNoRows t \<longleftrightarrow> False"
| "errors_is (PgError code con msg) t \<longleftrightarrow> False"
| "errors_is (PathError path c) t \<longleftrightarrow> errors_is c t"
| "errors_is (ErrText msg) t \<longleftrightarrow> False"

text \<open>\<open>errors.Is(err, pgx.ErrNoRows)\<close> and \<open>errors.As(err, &pgErr)\<close>.\<close>

fun is_no_rows :: "go_error \<Rightarrow> bool" where
  "is_no_rows ErrNoRows \<longleftrightarrow> True"
| "is_no_rows (Prefixed p c) \<longleftrightarrow> is_no_rows c"
| "is_no_rows (PathError path c) \<longleftrightarrow> is_no_rows c"
| "is_no_rows e \<longleftrightarrow> False"

fun as_PgError :: "go_error \<Rightarrow> (string \<times> string) option" where
  "as_PgError (PgError code con msg) = Some (code, con)"
| "as_PgError (Prefixed p c) = as_PgError c"
| "as_PgError (PathError path c) = as_PgError c"
| "as_PgError e = None"

text \<open>\<open>errors.As(err, &pathErr)\<close>: the error inside the first \<open>*os.PathError\<close> of the chain.\<close>

fun as_PathError :: "go_error \<Rightarrow> go_error option" where
  "as_PathError (PathError path c) = Some c"
| "as_PathError (Prefixed p c) = as_PathError c"
| "as_PathError e = None"

definition fmtError :: "sentinel \<Rightarrow> go_error \<Rightarrow> go_error" where
  "fmtError s cause = Wrapped s cause"

lemma errors_is_fmtError [simp]: "errors_is (fmtError s c) t \<longleftrightarrow> s = t"
  by (simp add: fmtError_def)

text \<open>\<open>err.Error()\<close>.\<close>

fun sentinel_text :: "sentinel \<Rightarrow> string" where
  "sentinel_text ErrNotFound = ''repository: record not found''"
| "sentinel_text ErrUserUsernameConflict = ''repository: username already taken''"
| "sentinel_text ErrRefreshAlreadyConsumed = ''repository: refresh token already consumed''"
| "sentinel_text ErrListBooksDB = ''service: list books database''"
| "sentinel_text ErrListBooksMarshal = ''service: list books marshal''"
| "sentinel_text ErrListBooksRedis = ''service: list books redis set''"
| "sentinel_text ErrListBooksUnmarshal = ''service: list books cache unmarshal''"
| "sentinel_text ErrBookForbidden = ''service: book forbidden''"
| "sentinel_text ErrInvalidLogin = ''service: invalid username or password''"
| "sentinel_text ErrLoginDB = ''service: login database error''"
| "sentinel_text ErrTokenGenerate = ''service: token generation failed''"
| "sentinel_text ErrRegisterConflict = ''service: username already taken''"
| "sentinel_text ErrPasswordTooLong = ''service: password exceeds 72 bytes''"
| "sentinel_text ErrRegisterHash = ''service: password hash failed''"
| "sentinel_text ErrRegisterSave = ''service: could not save user''"
| "sentinel_text ErrInvalidRefresh = ''service: invalid refresh token''"
| "sentinel_text ErrRefreshReuse = ''service: refresh token reuse detected''"
| "sentinel_text ErrRefreshPersist = ''service: refresh token persistence failed''"
| "sentinel_text ErrLogoutPersist = ''service: logout persistence failed''"
| "sentinel_text ErrJWTSigningKeyNotConfigured = ''jwt signing key not configured''"
| "sentinel_text ErrJWTSigningKeyTooShort = ''jwt signing key below minimum length''"
| "sentinel_text ErrAPISecretKeyTooShort = ''API secret key below minimum length''"
| "sentinel_text ErrBcryptPasswordTooLong = ''bcrypt: password length exceeds 72 bytes''"
| "sentinel_text ErrRedisNil = ''redis: nil''"
| "sentinel_text ErrEOF = ''EOF''"
| "sentinel_text ErrServerClosed = ''http: Server closed''"
| "sentinel_text EINVAL = ''invalid argument''"
| "sentinel_text EBADF = ''bad file descriptor''"

fun error_text :: "go_error \<Rightarrow> string" where
  "error_text (Sentinel s) = sentinel_text s"
| "error_text (Wrapped s c) = sentinel_text s @ '': '' @ error_text c"
| "error_text (Prefixed p c) = p @ '': '' @ error_text c"
| "error_text ErrNoRows = ''no rows in result set''"
| "error_text (PgError code con msg) = ''ERROR: '' @ msg @ '' (SQLSTATE '' @ code @ '')''"
| "error_text (PathError path c) = path @ '': '' @ error_text c"
| "error_text (ErrText msg) = msg"

text \<open>A result's success, and the stateful result of an operation on a state.\<close>

definition is_ok :: "'e + 'a \<Rightarrow> bool" where
  "is_ok r = (case r of Inl _ \<Rightarrow> False | Inr _ \<Rightarrow> True)"

lemma is_ok_simps [simp]: "is_ok (Inr x)" "\<not> is_ok (Inl e)"
  by (simp_all add: is_ok_def)

type_synonym ('s, 'a) go_op = "'s \<Rightarrow> (go_error + 'a) \<times> 's"

end
