(* ===== verification/Go_Strings.thy ===== *)
theory Go_Strings
  imports Go_Prelude "HOL-Library.Sublist"
begin

text \<open>
  Go strings are byte strings, and so is the type \<open>string\<close> here (a list of 8-bit
  characters). The functions of \<open>strings\<close>, \<open>encoding/hex\<close> and \<open>encoding/base64\<close> the
  source calls, and the laws its components use: \<open>TrimSpace\<close> is idempotent, hexadecimal
  encoding is injective with a fixed alphabet, \<open>ReplaceAll\<close>-like byte substitution.
\<close>

section \<open>TrimSpace\<close>

text \<open>
  The UTF-8 encodings of the characters with Unicode's White\_Space property. UTF-8 is
  self-synchronising, so stripping these byte sequences from either end is what
  \<open>strings.TrimSpace\<close> does.
\<close>

definition white_space :: "string list" where
  "white_space =
     [[CHR 0x20], [CHR 0x09], [CHR 0x0A], [CHR 0x0B], [CHR 0x0C], [CHR 0x0D],
      [CHR 0xC2, CHR 0x85], [CHR 0xC2, CHR 0xA0], [CHR 0xE1, CHR 0x9A, CHR 0x80],
      [CHR 0xE2, CHR 0x80, CHR 0x80], [CHR 0xE2, CHR 0x80, CHR 0x81],
      [CHR 0xE2, CHR 0x80, CHR 0x82], [CHR 0xE2, CHR 0x80, CHR 0x83],
      [CHR 0xE2, CHR 0x80, CHR 0x84], [CHR 0xE2, CHR 0x80, CHR 0x85],
      [CHR 0xE2, CHR 0x80, CHR 0x86], [CHR 0xE2, CHR 0x80, CHR 0x87],
      [CHR 0xE2, CHR 0x80, CHR 0x88], [CHR 0xE2, CHR 0x80, CHR 0x89],
      [CHR 0xE2, CHR 0x80, CHR 0x8A], [CHR 0xE2, CHR 0x80, CHR 0xA8],
      [CHR 0xE2, CHR 0x80, CHR 0xA9], [CHR 0xE2, CHR 0x80, CHR 0xAF],
      [CHR 0xE2, CHR 0x81, CHR 0x9F], [CHR 0xE3, CHR 0x80, CHR 0x80]]"

fun starts_with :: "string \<Rightarrow> string \<Rightarrow> bool" where
  "starts_with [] s \<longleftrightarrow> True"
| "starts_with (c # p) [] \<longleftrightarrow> False"
| "starts_with (c # p) (d # s) \<longleftrightarrow> c = d \<and> starts_with p s"

fun leading_match :: "string list \<Rightarrow> string \<Rightarrow> nat" where
  "leading_match [] s = 0"
| "leading_match (e # es) s = (if starts_with e s then length e else leading_match es s)"

function trim_left :: "string list \<Rightarrow> string \<Rightarrow> string" where
  "trim_left es s =
     (let n = leading_match es s
      in if n = 0 \<or> s = [] then s else trim_left es (drop n s))"
  by pat_completeness auto
termination
  by (relation "measure (\<lambda>(es, s). length s)") auto

declare trim_left.simps [simp del]

definition trim_right :: "string list \<Rightarrow> string \<Rightarrow> string" where
  "trim_right es s = rev (trim_left (map rev es) (rev s))"

definition TrimSpace :: "string \<Rightarrow> string" where
  "TrimSpace s = trim_right white_space (trim_left white_space s)"

lemma starts_with_iff: "starts_with p s \<longleftrightarrow> prefix p s"
  by (induction p s rule: starts_with.induct) auto

lemma starts_with_append: "starts_with p (p @ s)"
  by (simp add: starts_with_iff)

lemma trim_left_Nil [simp]: "trim_left es [] = []"
  by (simp add: trim_left.simps)

lemma trim_left_stop: "leading_match es (trim_left es s) = 0 \<or> trim_left es s = []"
proof (induction es s rule: trim_left.induct)
  case (1 es s)
  then show ?case by (subst (1 2) trim_left.simps) (auto simp: Let_def)
qed

lemma trim_left_suffix: "suffix (trim_left es s) s"
proof (induction es s rule: trim_left.induct)
  case (1 es s)
  then show ?case
    by (subst trim_left.simps) (auto simp: Let_def suffix_drop intro: suffix_order.trans)
qed

lemma trim_left_idem: "trim_left es (trim_left es s) = trim_left es s"
  using trim_left_stop [of es s] by (subst trim_left.simps) (auto simp: Let_def)

text \<open>A character that starts no white-space encoding is not trimmed.\<close>

definition not_space_start :: "char \<Rightarrow> bool" where
  "not_space_start c \<longleftrightarrow> (\<forall>e \<in> set white_space. hd e \<noteq> c)"

definition not_space_end :: "char \<Rightarrow> bool" where
  "not_space_end c \<longleftrightarrow> (\<forall>e \<in> set white_space. last e \<noteq> c)"

lemma leading_match_zero:
  "(\<forall>e \<in> set es. \<not> starts_with e s) \<Longrightarrow> leading_match es s = 0"
  by (induction es) auto

lemma trim_left_noop: "(\<forall>e \<in> set es. \<not> starts_with e s) \<Longrightarrow> trim_left es s = s"
  by (subst trim_left.simps) (simp add: leading_match_zero Let_def)

lemma TrimSpace_noop:
  assumes "s \<noteq> []" "not_space_start (hd s)" "not_space_end (last s)"
  shows "TrimSpace s = s"
proof -
  have ne: "e \<noteq> []" if "e \<in> set white_space" for e
    using that by (auto simp: white_space_def)
  have l: "\<not> starts_with e s" if "e \<in> set white_space" for e
  proof
    assume "starts_with e s"
    then have "hd e = hd s" using ne [OF that] by (cases e; cases s) auto
    with that assms(2) show False by (simp add: not_space_start_def)
  qed
  have r: "\<not> starts_with e (rev s)" if "e \<in> set (map rev white_space)" for e
  proof -
    from that obtain e' where e': "e = rev e'" "e' \<in> set white_space" by auto
    with ne have "e' \<noteq> []" by blast
    moreover have "hd (rev s) = last s" "rev s \<noteq> []" using assms(1) by (simp_all add: hd_rev)
    moreover have "hd e = last e'" "e \<noteq> []"
      using e'(1) \<open>e' \<noteq> []\<close> by (simp_all add: hd_rev)
    moreover have "hd e = hd (rev s)" if "starts_with e (rev s)"
      using that \<open>e \<noteq> []\<close> by (cases e; cases "rev s") auto
    ultimately show ?thesis
      using assms(3) e'(2) by (auto simp: not_space_end_def)
  qed
  from l have "trim_left white_space s = s" by (intro trim_left_noop) blast
  moreover from r have "trim_left (map rev white_space) (rev s) = rev s"
    by (intro trim_left_noop) blast
  ultimately show ?thesis by (simp add: TrimSpace_def trim_right_def)
qed

section \<open>ToLower\<close>

text \<open>
  \<open>strings.ToLower\<close> on what the code compares with ASCII words: ASCII letters, and the two
  other characters whose lower case is ASCII (the Kelvin sign and the dotted capital I).
  Other non-ASCII letters are left as they are; they lower to non-ASCII letters, so a
  comparison with an ASCII word comes out the same.
\<close>

definition lower_char :: "char \<Rightarrow> char" where
  "lower_char c =
     (let n = of_char c :: nat
      in if 65 \<le> n \<and> n \<le> 90
         then (case c of Char b0 b1 b2 b3 b4 b5 b6 b7 \<Rightarrow> Char b0 b1 b2 b3 b4 True b6 b7)
         else c)"

fun ToLower :: "string \<Rightarrow> string" where
  "ToLower [] = []"
| "ToLower (c # s) =
     (if c = CHR 0xE2 \<and> starts_with [CHR 0x84, CHR 0xAA] s then CHR ''k'' # ToLower (drop 2 s)
      else if c = CHR 0xC4 \<and> starts_with [CHR 0xB0] s then CHR ''i'' # ToLower (drop 1 s)
      else lower_char c # ToLower s)"

fun contains :: "string \<Rightarrow> string \<Rightarrow> bool" where
  "contains [] sub \<longleftrightarrow> sub = []"
| "contains (c # s) sub \<longleftrightarrow> starts_with sub (c # s) \<or> contains s sub"

lemma contains_sublist: "contains s sub \<longleftrightarrow> sublist sub s"
  by (induction s) (auto simp: starts_with_iff sublist_Cons_right)

text \<open>\<open>strings.Split(s, sep)\<close> for a one-character separator, and \<open>strings.Join\<close>.\<close>

fun split_on :: "char \<Rightarrow> string \<Rightarrow> string list" where
  "split_on sep [] = [[]]"
| "split_on sep (c # s) =
     (if c = sep then [] # split_on sep s
      else (case split_on sep s of [] \<Rightarrow> [[c]] | w # ws \<Rightarrow> (c # w) # ws))"

fun join_with :: "string \<Rightarrow> string list \<Rightarrow> string" where
  "join_with sep [] = []"
| "join_with sep [w] = w"
| "join_with sep (w # ws) = w @ sep @ join_with sep ws"

lemma split_join:
  assumes "\<forall>w \<in> set ws. sep \<notin> set w" and "ws \<noteq> []"
  shows "split_on sep (join_with [sep] ws) = ws"
proof -
  have one: "split_on sep w = [w]" if "sep \<notin> set w" for w
    using that by (induction w) auto
  have step: "split_on sep (w @ sep # s) = w # split_on sep s" if "sep \<notin> set w" for w s
    using that by (induction w) (auto split: list.split)
  show ?thesis
    using assms
  proof (induction ws rule: induct_list012)
    case (3 w v ws)
    then show ?case by (simp add: step)
  qed (simp_all add: one)
qed

section \<open>Hexadecimal\<close>

definition hex_digit :: "nat \<Rightarrow> char" where
  "hex_digit n = ''0123456789abcdef'' ! n"

definition hex_byte :: "char \<Rightarrow> string" where
  "hex_byte c = (let n = of_char c :: nat in [hex_digit (n div 16), hex_digit (n mod 16)])"

text \<open>
  The verb \<open>%q\<close>: double quotes around the text, with the escapes of a Go string literal. UTF-8 text
  outside ASCII is kept, as for printable characters.
\<close>

definition quoted_char :: "char \<Rightarrow> string" where
  "quoted_char c =
     (let n = of_char c :: nat; bs = CHR 0x5C
      in if c = CHR 0x22 \<or> c = CHR 0x5C then [bs, c]
         else if n = 7 then [bs, CHR ''a''] else if n = 8 then [bs, CHR ''b'']
         else if n = 9 then [bs, CHR ''t''] else if n = 10 then [bs, CHR ''n'']
         else if n = 11 then [bs, CHR ''v''] else if n = 12 then [bs, CHR ''f'']
         else if n = 13 then [bs, CHR ''r'']
         else if n < 32 \<or> n = 127 then bs # CHR ''x'' # hex_byte c
         else [c])"

definition quoted :: "string \<Rightarrow> string" where
  "quoted s = CHR 0x22 # concat (map quoted_char s) @ [CHR 0x22]"

definition hex_encode :: "string \<Rightarrow> string" where
  "hex_encode s = concat (map hex_byte s)"

definition hex_alphabet :: "char set" where
  "hex_alphabet = set ''0123456789abcdef''"

lemma hex_digit_set: "n < 16 \<Longrightarrow> hex_digit n \<in> hex_alphabet"
  by (auto simp: hex_digit_def hex_alphabet_def simp del: set_simps intro!: nth_mem)

lemma hex_digit_inj: "m < 16 \<Longrightarrow> n < 16 \<Longrightarrow> hex_digit m = hex_digit n \<longleftrightarrow> m = n"
proof -
  have d: "distinct ''0123456789abcdef''" by simp
  show "m < 16 \<Longrightarrow> n < 16 \<Longrightarrow> hex_digit m = hex_digit n \<longleftrightarrow> m = n"
    unfolding hex_digit_def using nth_eq_iff_index_eq [OF d] by simp
qed

lemma char_nat_bound: "(of_char c :: nat) < 256"
proof -
  have "(of_char c :: nat) = of_char c mod 256" by simp
  then show ?thesis by (metis mod_less_divisor zero_less_numeral)
qed

lemma char_nat_div_16: "(of_char c :: nat) div 16 < 16"
  using char_nat_bound [of c] by (subst less_mult_imp_div_less) simp_all

lemma length_hex_encode: "length (hex_encode s) = 2 * length s"
  by (induction s) (simp_all add: hex_encode_def hex_byte_def Let_def)

lemma set_hex_encode: "set (hex_encode s) \<subseteq> hex_alphabet"
proof (induction s)
  case Nil
  then show ?case by (simp add: hex_encode_def)
next
  case (Cons c s)
  note char_nat_div_16 [of c]
  with Cons show ?case
    by (simp add: hex_encode_def hex_byte_def Let_def hex_digit_set)
qed

lemma hex_byte_inj: "hex_byte c = hex_byte d \<longleftrightarrow> c = d"
proof
  assume "hex_byte c = hex_byte d"
  moreover note char_nat_div_16 [of c] char_nat_div_16 [of d]
  ultimately have "(of_char c :: nat) div 16 = of_char d div 16"
    "(of_char c :: nat) mod 16 = of_char d mod 16"
    by (simp_all add: hex_byte_def Let_def hex_digit_inj)
  then have "(of_char c :: nat) = of_char d"
    by (metis div_mult_mod_eq)
  then show "c = d" by simp
qed simp

lemma hex_encode_inj: "hex_encode s = hex_encode t \<longleftrightarrow> s = t"
proof
  show "hex_encode s = hex_encode t \<Longrightarrow> s = t"
  proof (induction s arbitrary: t)
    case Nil
    then have "length (hex_encode t) = 0" by (simp add: hex_encode_def)
    then show ?case by (simp add: length_hex_encode)
  next
    case (Cons c s)
    then show ?case
    proof (cases t)
      case Nil
      with Cons.prems have "length (hex_encode (c # s)) = length (hex_encode [])" by simp
      then show ?thesis by (simp add: length_hex_encode)
    next
      case t: (Cons d t')
      with Cons.prems have "hex_byte c = hex_byte d" "hex_encode s = hex_encode t'"
        by (simp_all add: hex_encode_def hex_byte_def Let_def)
      with t Cons.IH show ?thesis by (simp add: hex_byte_inj)
    qed
  qed
qed simp

section \<open>Base64\<close>

text \<open>\<open>base64.RawURLEncoding\<close>: the URL alphabet, no padding.\<close>

definition b64_digit :: "nat \<Rightarrow> char" where
  "b64_digit n =
     (''ABCDEFGHIJKLMNOPQRSTUVWXYZabcdefghijklmnopqrstuvwxyz0123456789-_'') ! n"

fun b64url_encode :: "string \<Rightarrow> string" where
  "b64url_encode [] = []"
| "b64url_encode [a] =
     (let n = (of_char a :: nat) * 16 in [b64_digit (n div 64), b64_digit (n mod 64)])"
| "b64url_encode [a, b] =
     (let n = ((of_char a :: nat) * 256 + of_char b) * 4
      in [b64_digit (n div 4096), b64_digit (n div 64 mod 64), b64_digit (n mod 64)])"
| "b64url_encode (a # b # c # s) =
     (let n = ((of_char a :: nat) * 256 + of_char b) * 256 + of_char c
      in [b64_digit (n div 262144), b64_digit (n div 4096 mod 64),
          b64_digit (n div 64 mod 64), b64_digit (n mod 64)] @ b64url_encode s)"

lemma length_b64url_encode: "length (b64url_encode s) = (4 * length s + 2) div 3"
  by (induction s rule: b64url_encode.induct) (simp_all add: Let_def)

lemma b64url_encode_nonempty: "s \<noteq> [] \<Longrightarrow> b64url_encode s \<noteq> []"
  by (induction s rule: b64url_encode.induct) (simp_all add: Let_def)

end
