(* ===== verification/Go_Strconv.thy ===== *)
theory Go_Strconv
  imports Go_Strings
begin

text \<open>
  The conversions of \<open>strconv\<close>, \<open>fmt\<close>'s \<open>%d\<close> and \<open>time.ParseDuration\<close> that the source
  uses. A parse error is \<open>None\<close>: no caller looks into it beyond its text. The lemmas are
  the round trip of decimal numbers, their alphabet and their injectivity (the cache keys of
  theory Book_Service rest on them), and the ranges of what the parsers accept.
\<close>

section \<open>Decimal digits\<close>

definition is_digit :: "char \<Rightarrow> bool" where
  "is_digit c \<longleftrightarrow> 48 \<le> (of_char c :: nat) \<and> (of_char c :: nat) \<le> 57"

definition digit_value :: "char \<Rightarrow> nat" where
  "digit_value c = of_char c - 48"

definition digit_char :: "nat \<Rightarrow> char" where
  "digit_char n = ''0123456789'' ! n"

text \<open>Digits read left to right into an accumulator; any other character is an error.\<close>

fun read_digits :: "nat \<Rightarrow> string \<Rightarrow> nat option" where
  "read_digits acc [] = Some acc"
| "read_digits acc (c # s) =
     (if is_digit c then read_digits (10 * acc + digit_value c) s else None)"

definition parse_nat :: "string \<Rightarrow> nat option" where
  "parse_nat s = (if s = [] then None else read_digits 0 s)"

text \<open>\<open>strconv.ParseUint(s, 10, 64)\<close>: no sign, at most \<open>2^64 - 1\<close>.\<close>

definition ParseUint :: "string \<Rightarrow> nat option" where
  "ParseUint s =
     (case parse_nat s of None \<Rightarrow> None | Some n \<Rightarrow> if n \<le> max_uint64 then Some n else None)"

text \<open>\<open>strconv.ParseInt(s, 10, 64)\<close> and \<open>strconv.Atoi(s)\<close>: an optional sign.\<close>

definition ParseInt :: "string \<Rightarrow> int option" where
  "ParseInt s =
     (case s of
        [] \<Rightarrow> None
      | c # t \<Rightarrow>
          (let neg = (c = CHR ''-''); digits = (if c = CHR ''-'' \<or> c = CHR ''+'' then t else s)
           in case parse_nat digits of
                None \<Rightarrow> None
              | Some n \<Rightarrow>
                  (let v = (if neg then - int n else int n)
                   in if min_int64 \<le> v \<and> v \<le> max_int64 then Some v else None)))"

abbreviation Atoi :: "string \<Rightarrow> int option" where
  "Atoi \<equiv> ParseInt"

text \<open>\<open>strconv.FormatUint\<close>, \<open>strconv.Itoa\<close> and the verb \<open>%d\<close>.\<close>

fun show_nat :: "nat \<Rightarrow> string" where
  "show_nat n =
     (if n < 10 then [digit_char n] else show_nat (n div 10) @ [digit_char (n mod 10)])"

declare show_nat.simps [simp del]

definition show_int :: "int \<Rightarrow> string" where
  "show_int i = (if i < 0 then CHR ''-'' # show_nat (nat (- i)) else show_nat (nat i))"

definition decimal_alphabet :: "char set" where
  "decimal_alphabet = insert (CHR ''-'') (set ''0123456789'')"

lemma below_10:
  "n < 10 \<Longrightarrow> n = 0 \<or> n = 1 \<or> n = 2 \<or> n = 3 \<or> n = 4 \<or> n = 5 \<or> n = 6 \<or> n = 7 \<or> n = 8 \<or> n = (9::nat)"
  by arith

lemma digit_char_value: "n < 10 \<Longrightarrow> digit_value (digit_char n) = n"
  by (drule below_10) (auto simp: digit_value_def digit_char_def)

lemma is_digit_char: "n < 10 \<Longrightarrow> is_digit (digit_char n)"
  by (drule below_10) (auto simp: is_digit_def digit_char_def)

lemma digit_char_in: "n < 10 \<Longrightarrow> digit_char n \<in> set ''0123456789''"
  by (simp add: digit_char_def nth_mem del: set_simps)

lemma read_digits_append:
  "read_digits acc (s @ t) =
    (case read_digits acc s of None \<Rightarrow> None | Some n \<Rightarrow> read_digits n t)"
  by (induction acc s rule: read_digits.induct) auto

lemma read_show_nat: "read_digits 0 (show_nat n) = Some n"
proof (induction n rule: show_nat.induct)
  case (1 n)
  show ?case
  proof (cases "n < 10")
    case True
    then show ?thesis
      by (subst show_nat.simps) (simp add: is_digit_char digit_char_value)
  next
    case False
    then have "n mod 10 < 10" by simp
    with False "1.IH" show ?thesis
      by (subst show_nat.simps)
        (simp add: read_digits_append is_digit_char digit_char_value)
  qed
qed

lemma show_nat_nonempty [simp]: "show_nat n \<noteq> []"
  by (subst show_nat.simps) simp

lemma show_nat_digits: "set (show_nat n) \<subseteq> set ''0123456789''"
proof (induction n rule: show_nat.induct)
  case (1 n)
  have "n mod 10 < 10" by simp
  note d = digit_char_in [OF this]
  show ?case
  proof (cases "n < 10")
    case True
    with digit_char_in [OF True] show ?thesis
      by (subst show_nat.simps) (simp only: if_True, simp)
  next
    case False
    with 1 d show ?thesis
      by (subst show_nat.simps) (simp only: if_False set_append Un_subset_iff, simp)
  qed
qed

lemma parse_show_nat: "parse_nat (show_nat n) = Some n"
  by (simp add: parse_nat_def read_show_nat)

lemma show_nat_inj: "show_nat m = show_nat n \<longleftrightarrow> m = n"
  using read_show_nat by (metis option.inject)

lemma ParseUint_show_nat: "n \<le> max_uint64 \<Longrightarrow> ParseUint (show_nat n) = Some n"
  by (simp add: ParseUint_def parse_show_nat)

lemma ParseUint_bound: "ParseUint s = Some n \<Longrightarrow> n \<le> max_uint64"
  by (auto simp: ParseUint_def split: option.splits if_splits)

lemma ParseInt_bounds: "ParseInt s = Some i \<Longrightarrow> min_int64 \<le> i \<and> i \<le> max_int64"
  by (auto simp: ParseInt_def Let_def split: list.splits option.splits if_splits)

lemma show_nat_hd_not_sign: "hd (show_nat n) \<noteq> CHR ''-'' \<and> hd (show_nat n) \<noteq> CHR ''+''"
proof -
  have "hd (show_nat n) \<in> set ''0123456789''"
    using show_nat_digits [of n] hd_in_set [OF show_nat_nonempty [of n]] by blast
  then show ?thesis by auto
qed

lemma ParseInt_show_int:
  assumes "min_int64 \<le> i" "i \<le> max_int64"
  shows "ParseInt (show_int i) = Some i"
proof (cases "i < 0")
  case True
  with assms show ?thesis
    by (simp add: ParseInt_def show_int_def parse_show_nat Let_def)
next
  case False
  obtain c t where ct: "show_nat (nat i) = c # t"
    using show_nat_nonempty [of "nat i"] by (cases "show_nat (nat i)") auto
  with show_nat_hd_not_sign [of "nat i"] have "c \<noteq> CHR ''-''" "c \<noteq> CHR ''+''" by auto
  moreover have "parse_nat (c # t) = Some (nat i)"
    using parse_show_nat [of "nat i"] ct by simp
  ultimately show ?thesis
    using False assms ct by (simp add: ParseInt_def show_int_def Let_def)
qed

lemma show_int_inj: "show_int i = show_int j \<longleftrightarrow> i = j"
proof
  assume eq: "show_int i = show_int j"
  have "hd (show_int k) = CHR ''-'' \<longleftrightarrow> k < 0" for k
    using show_nat_hd_not_sign by (auto simp: show_int_def)
  with eq have s: "i < 0 \<longleftrightarrow> j < 0" by metis
  show "i = j"
  proof (cases "i < 0")
    case True
    with eq s show ?thesis by (simp add: show_int_def show_nat_inj eq_nat_nat_iff)
  next
    case False
    with eq s show ?thesis by (simp add: show_int_def show_nat_inj eq_nat_nat_iff)
  qed
qed simp

lemma show_int_alphabet: "set (show_int i) \<subseteq> decimal_alphabet"
proof -
  have "set (show_nat n) \<subseteq> decimal_alphabet" for n
    unfolding decimal_alphabet_def using show_nat_digits [of n] by (rule subset_insertI2)
  moreover have "CHR ''-'' \<in> decimal_alphabet"
    unfolding decimal_alphabet_def by (rule insertI1)
  ultimately show ?thesis by (simp add: show_int_def)
qed

section \<open>Durations\<close>

text \<open>
  \<open>time.ParseDuration\<close>: an optional sign, then segments of a decimal number and a unit. The
  fractional part of a segment is converted with \<open>div\<close>, which is what the library's
  floating-point product truncates to up to rounding in the last nanosecond. The recursion
  takes the length of the string as fuel: every segment consumes at least one character.
\<close>

definition unit_ns :: "string \<Rightarrow> int option" where
  "unit_ns u =
     (if u = ''ns'' then Some 1
      else if u = ''us'' \<or> u = [CHR 0xC2, CHR 0xB5, CHR ''s''] \<or> u = [CHR 0xCE, CHR 0xBC, CHR ''s'']
        then Some 1000
      else if u = ''ms'' then Some millisecond
      else if u = ''s'' then Some second
      else if u = ''m'' then Some minute
      else if u = ''h'' then Some hour
      else None)"

definition digits_value :: "string \<Rightarrow> int" where
  "digits_value s = (case read_digits 0 s of None \<Rightarrow> 0 | Some n \<Rightarrow> int n)"

definition is_unit_char :: "char \<Rightarrow> bool" where
  "is_unit_char c \<longleftrightarrow> c \<noteq> CHR ''.'' \<and> \<not> is_digit c"

definition duration_segment :: "string \<Rightarrow> (int \<times> string) option" where
  "duration_segment s =
     (let ip = takeWhile is_digit s; s1 = dropWhile is_digit s;
          dot = (s1 \<noteq> [] \<and> hd s1 = CHR ''.'');
          s2 = (if dot then tl s1 else s1);
          fp = (if dot then takeWhile is_digit s2 else []);
          s3 = (if dot then dropWhile is_digit s2 else s2);
          u = takeWhile is_unit_char s3; s4 = dropWhile is_unit_char s3;
          v = digits_value ip
      in if ip = [] \<and> fp = [] then None
         else if v > 2 ^ 63 then None
         else
           (case unit_ns u of
              None \<Rightarrow> None
            | Some un \<Rightarrow>
                if v > 2 ^ 63 div un then None
                else
                  (let w = v * un + digits_value fp * un div 10 ^ length fp
                   in if w > 2 ^ 63 then None else Some (w, s4))))"

fun duration_segments :: "nat \<Rightarrow> int \<Rightarrow> string \<Rightarrow> int option" where
  "duration_segments 0 d s = (if s = [] then Some d else None)"
| "duration_segments (Suc fuel) d s =
     (if s = [] then Some d
      else
        (case duration_segment s of
           None \<Rightarrow> None
         | Some (w, s') \<Rightarrow> if d + w > 2 ^ 63 then None else duration_segments fuel (d + w) s'))"

definition ParseDuration :: "string \<Rightarrow> duration option" where
  "ParseDuration s =
     (let neg = (s \<noteq> [] \<and> hd s = CHR ''-'');
          t = (if s \<noteq> [] \<and> (hd s = CHR ''-'' \<or> hd s = CHR ''+'') then tl s else s)
      in if t = ''0'' then Some 0
         else if t = [] then None
         else
           (case duration_segments (length t) 0 t of
              None \<Rightarrow> None
            | Some d \<Rightarrow>
                if neg then Some (- d) else if d > max_int64 then None else Some d))"

lemma ParseDuration_samples:
  "ParseDuration ''5m'' = Some (5 * minute)"
  "ParseDuration ''1h30m'' = Some (hour + 30 * minute)"
  "ParseDuration ''1.5s'' = Some 1500000000"
  "ParseDuration ''-2s'' = Some (- 2 * second)"
  "ParseDuration ''10'' = None"
  "ParseDuration '''' = None"
  by (simp_all add: ParseDuration_def duration_segment_def unit_ns_def digits_value_def is_digit_def digit_value_def
      is_unit_char_def Let_def go_defs max_int64_def)

end
