(* ===== verification/Repo_Base.thy ===== *)
theory Repo_Base
  imports Go_Errors Go_Strconv
begin

text \<open>
  The helpers of \<open>pkg/repository\<close>: how driver errors become the errors services look at
  (\<open>errors.go\<close>) and how identifiers are narrowed to the database's \<open>BIGINT\<close> (\<open>conv.go\<close>).
\<close>

section \<open>errors.go, conv.go\<close>

definition mapNotFound :: "go_error \<Rightarrow> go_error" where
  "mapNotFound e = (if is_no_rows e then Sentinel ErrNotFound else e)"

definition IsNotFound :: "go_error \<Rightarrow> bool" where
  "IsNotFound e = errors_is e ErrNotFound"

abbreviation IsBookNotFound :: "go_error \<Rightarrow> bool" where
  "IsBookNotFound \<equiv> IsNotFound"

abbreviation IsUserNotFound :: "go_error \<Rightarrow> bool" where
  "IsUserNotFound \<equiv> IsNotFound"

definition isUsernameUniqueConstraintError :: "go_error \<Rightarrow> bool" where
  "isUsernameUniqueConstraintError e =
     (case as_PgError e of
        Some (code, con) \<Rightarrow> code = ''23505'' \<and> contains con ''username''
      | None \<Rightarrow>
          let s = ToLower (error_text e)
          in if \<not> contains s ''username'' then False
             else if contains s ''unique constraint'' then True
             else contains s ''duplicate key'' \<and> contains s ''unique'')"

definition toInt64 :: "uint \<Rightarrow> int" where
  "toInt64 v = (if uint v > max_int64 then max_int64 else uint v)"

lemma toInt64_range: "0 \<le> toInt64 v \<and> toInt64 v \<le> max_int64"
  by (auto simp: toInt64_def max_int64_def)

lemma toInt64_of_row: "0 \<le> x \<Longrightarrow> x \<le> max_int64 \<Longrightarrow> toInt64 (uint_of_int64 x) = x"
  by (simp add: toInt64_def uint_of_int64_back)

lemma toInt64_small: "uint v \<le> max_int64 \<Longrightarrow> uint_of_int64 (toInt64 v) = v"
  by (simp add: toInt64_def uint_of_int64_def)

lemma IsNotFound_simps [simp]:
  "IsNotFound (Sentinel s) \<longleftrightarrow> s = ErrNotFound"
  "IsNotFound (Wrapped s c) \<longleftrightarrow> s = ErrNotFound"
  "IsNotFound (Prefixed p e) \<longleftrightarrow> IsNotFound e"
  "\<not> IsNotFound ErrNoRows" "\<not> IsNotFound (PgError code con msg)" "\<not> IsNotFound (ErrText m)"
  by (simp_all add: IsNotFound_def)

end
