(* ===== verification/Go_Json.thy ===== *)
theory Go_Json
  imports Go_Prelude
begin

text \<open>
  What \<open>encoding/json\<close> makes of values that pass through a JSON text. Strings come back with each byte that
  is not part of a UTF-8 encoded rune replaced by U+FFFD; numbers that are decoded into an \<open>any\<close> become
  \<open>float64\<close>; objects become maps from names to values.
\<close>

section \<open>Strings\<close>

definition byte_in :: "nat \<Rightarrow> nat \<Rightarrow> char \<Rightarrow> bool" where
  "byte_in lo hi c \<longleftrightarrow> lo \<le> of_char c \<and> of_char c \<le> hi"

text \<open>The length of the rune at the start of a text, as \<open>utf8.DecodeRune\<close> accepts it; 0 for none.\<close>

definition rune_size :: "string \<Rightarrow> nat" where
  "rune_size s =
     (case s of
        [] \<Rightarrow> 0
      | a # t \<Rightarrow>
          if byte_in 0 127 a then 1
          else if byte_in 194 223 a then
            (case t of b # _ \<Rightarrow> if byte_in 128 191 b then 2 else 0 | _ \<Rightarrow> 0)
          else if byte_in 224 239 a then
            (case t of
               b # c # _ \<Rightarrow>
                 if byte_in (if of_char a = (224 :: nat) then 160 else 128) (if of_char a = (237 :: nat) then 159 else 191) b
                    \<and> byte_in 128 191 c then 3 else 0
             | _ \<Rightarrow> 0)
          else if byte_in 240 244 a then
            (case t of
               b # c # d # _ \<Rightarrow>
                 if byte_in (if of_char a = (240 :: nat) then 144 else 128) (if of_char a = (244 :: nat) then 143 else 191) b
                    \<and> byte_in 128 191 c \<and> byte_in 128 191 d then 4 else 0
             | _ \<Rightarrow> 0)
          else 0)"

definition replacement :: string where
  "replacement = [CHR 0xEF, CHR 0xBF, CHR 0xBD]"

function json_text :: "string \<Rightarrow> string" where
  "json_text [] = []"
| "json_text (c # cs) =
     (if rune_size (c # cs) = 0 then replacement @ json_text cs
      else take (rune_size (c # cs)) (c # cs) @ json_text (drop (rune_size (c # cs)) (c # cs)))"
  by pat_completeness auto
termination
  by (relation "measure length") auto

definition valid_utf8 :: "string \<Rightarrow> bool" where
  "valid_utf8 s \<longleftrightarrow> json_text s = s"

definition ascii :: "string \<Rightarrow> bool" where
  "ascii s \<longleftrightarrow> (\<forall>c \<in> set s. byte_in 0 127 c)"

lemma json_text_ascii: "ascii s \<Longrightarrow> json_text s = s"
  by (induction s) (simp_all add: ascii_def rune_size_def)

lemma valid_ascii: "ascii s \<Longrightarrow> valid_utf8 s"
  by (simp add: valid_utf8_def json_text_ascii)

section \<open>Numbers\<close>

text \<open>A \<open>float64\<close> as mantissa and exponent; a natural number is rounded to 53 bits, half to even.\<close>

type_synonym float64 = "nat \<times> nat"

function extra_bits :: "nat \<Rightarrow> nat" where
  "extra_bits n = (if n < 2 ^ 53 then 0 else Suc (extra_bits (n div 2)))"
  by pat_completeness auto
termination
  by (relation "measure id") auto

declare extra_bits.simps [simp del]

definition float64_of :: "nat \<Rightarrow> float64" where
  "float64_of n =
     (let k = extra_bits n; q = n div 2 ^ k; r = 2 * (n mod 2 ^ k)
      in (if 2 ^ k < r \<or> (r = 2 ^ k \<and> odd q) then Suc q else q, k))"

lemma float64_exact: "n < 2 ^ 53 \<Longrightarrow> float64_of n = (n, 0)"
  by (simp add: float64_of_def extra_bits.simps)

section \<open>Values\<close>

datatype json_value =
    JNull
  | JBool bool
  | JNumber float64
  | JString string
  | JArray "json_value list"
  | JObject "(string \<times> json_value) list"

end
