(* ===== verification/Models.thy ===== *)
theory Models
  imports Go_Errors Go_Json
begin

text \<open>
  The data types of \<open>pkg/models\<close> (persisted entities, request and response bodies), of the
  persistence interfaces (\<open>BookListQuery\<close>), of \<open>pkg/events\<close> (\<open>Event\<close>, \<open>BookPayloadV1\<close>)
  and of the service results. A struct is a record with the source's fields, a pointer
  field is an \<open>option\<close>.
\<close>

section \<open>Entities\<close>

record Book =
  b_ID :: uint
  b_OwnerID :: uint
  b_Title :: string
  b_Author :: string
  b_CreatedAt :: time
  b_UpdatedAt :: time

record User =
  u_ID :: uint
  u_Username :: string
  u_Password :: string
  u_Role :: string
  u_CreatedAt :: time
  u_UpdatedAt :: time

record RefreshToken =
  tk_ID :: uint
  tk_UserID :: uint
  tk_TokenHash :: string
  tk_FamilyID :: string
  tk_ExpiresAt :: time
  tk_ConsumedAt :: "time option"
  tk_RevokedAt :: "time option"
  tk_CreatedAt :: time
  tk_UpdatedAt :: time

section \<open>Request bodies\<close>

record CreateBook =
  cb_Title :: string
  cb_Author :: string

record ReplaceBook =
  rb_Title :: string
  rb_Author :: string

record PatchBook =
  pb_Title :: "string option"
  pb_Author :: "string option"

record LoginUser =
  lu_Username :: string
  lu_Password :: string

record RefreshRequest =
  rr_RefreshToken :: string

record LogoutRequest =
  lr_RefreshToken :: string

section \<open>Response bodies\<close>

record LoginTokenBody =
  lt_Token :: string
  lt_AccessToken :: string
  lt_RefreshToken :: string
  lt_ExpiresIn :: int

record LogoutSuccessBody =
  lo_Message :: string

record RegisterSuccessBody =
  rs_Message :: string

record AdminMeBody =
  am_Username :: string
  am_UserID :: uint
  am_Role :: string

section \<open>Queries, events, results\<close>

record BookListQuery =
  q_Offset :: int
  q_Limit :: int
  q_TitleLike :: string
  q_AuthorLike :: string
  q_OwnerID :: "uint option"
  q_Sort :: string
  q_Order :: string

record BookPayloadV1 =
  bp_ID :: uint
  bp_OwnerID :: uint
  bp_Title :: string
  bp_Author :: string

text \<open>
  The fields of type \<open>any\<close>: the payload a publisher puts in, or what the reader of a message decodes.
\<close>

datatype event_data = BookPayload BookPayloadV1 | Decoded json_value

record Event =
  ev_Type :: string
  ev_Aggregate :: string
  ev_Key :: string
  ev_OccurredAt :: time
  ev_Payload :: event_data

record Envelope =
  en_ID :: string
  en_Type :: string
  en_Source :: string
  en_OccurredAt :: time
  en_Data :: event_data

record TokenPair =
  tp_AccessToken :: string
  tp_RefreshToken :: string
  tp_ExpiresIn :: int

definition TypeBookCreated :: string where "TypeBookCreated = ''book.created.v1''"
definition TypeBookUpdated :: string where "TypeBookUpdated = ''book.updated.v1''"
definition TypeBookDeleted :: string where "TypeBookDeleted = ''book.deleted.v1''"
definition AggregateBooks :: string where "AggregateBooks = ''books''"

lemma event_types_distinct:
  "TypeBookCreated \<noteq> TypeBookUpdated" "TypeBookCreated \<noteq> TypeBookDeleted"
  "TypeBookUpdated \<noteq> TypeBookDeleted"
  by (simp_all add: TypeBookCreated_def TypeBookUpdated_def TypeBookDeleted_def)

end
