(* ===== verification/Pg.thy ===== *)
theory Pg
  imports Go_Errors
begin

text \<open>
  The database: the tables of \<open>pkg/database/schema.sql\<close> and the statements of
  \<open>pkg/repository/queries/*.sql\<close>, as the generated code of \<open>pkg/repository/dbsqlc\<close> runs
  them. A table is the list of its rows; \<open>BIGSERIAL\<close> is a sequence that survives a
  rollback; the constraints of the schema (primary keys, \<open>UNIQUE\<close>, the lengths of
  \<open>VARCHAR\<close>) are checked by the inserts with the SQLSTATE PostgreSQL reports.

  \<open>pg_fault k\<close> is the error the server or the connection answers the \<open>k\<close>-th statement
  with, if any; such a statement has no effect (an acknowledgement lost after the effect is
  not modelled). \<open>pg_clock k\<close> is \<open>now()\<close> at the \<open>k\<close>-th statement; both are arbitrary.
  \<open>pg_lower\<close> and \<open>pg_strxfrm\<close> stand for the database's \<open>LOWER\<close> and its collation key,
  which depend on its locale.
\<close>

section \<open>Rows (pkg/repository/dbsqlc/models.go)\<close>

record book_row =
  br_ID :: int
  br_OwnerID :: int
  br_Title :: string
  br_Author :: string
  br_CreatedAt :: time
  br_UpdatedAt :: time

record token_row =
  tr_ID :: int
  tr_UserID :: int
  tr_TokenHash :: string
  tr_FamilyID :: string
  tr_ExpiresAt :: time
  tr_ConsumedAt :: "time option"
  tr_RevokedAt :: "time option"
  tr_CreatedAt :: time
  tr_UpdatedAt :: time

record user_row =
  ur_ID :: int
  ur_Username :: string
  ur_Password :: string
  ur_Role :: string
  ur_CreatedAt :: time
  ur_UpdatedAt :: time

record pg =
  pg_books :: "book_row list"
  pg_users :: "user_row list"
  pg_tokens :: "token_row list"
  pg_books_seq :: int
  pg_users_seq :: int
  pg_tokens_seq :: int
  pg_step :: nat
  pg_clock :: "nat \<Rightarrow> time"
  pg_fault :: "nat \<Rightarrow> go_error option"
  pg_lower :: "string \<Rightarrow> string"
  pg_strxfrm :: "string \<Rightarrow> string"

section \<open>Statements, transactions\<close>

text \<open>
  A \<open>Queries\<close> value runs on the pool, each statement its own transaction, or on an open
  transaction, where \<open>now()\<close> is the time the transaction began.
\<close>

datatype DBTX = Pool | Tx time

definition pg_exec :: "DBTX \<Rightarrow> (time \<Rightarrow> pg \<Rightarrow> (go_error + 'a) \<times> pg) \<Rightarrow> pg \<Rightarrow> (go_error + 'a) \<times> pg" where
  "pg_exec db f s =
     (let k = pg_step s; s' = s\<lparr>pg_step := Suc k\<rparr>
      in case pg_fault s k of
           Some e \<Rightarrow> (Inl e, s')
         | None \<Rightarrow> f (case db of Pool \<Rightarrow> pg_clock s k | Tx t \<Rightarrow> t) s')"

text \<open>\<open>Begin\<close> and \<open>Commit\<close> can fail like a statement; a rollback restores the tables only.\<close>

definition pg_begin :: "pg \<Rightarrow> (go_error + DBTX) \<times> pg" where
  "pg_begin = pg_exec Pool (\<lambda>t s. (Inr (Tx t), s))"

definition pg_commit :: "pg \<Rightarrow> (go_error + unit) \<times> pg" where
  "pg_commit = pg_exec Pool (\<lambda>t s. (Inr (), s))"

definition pg_rollback :: "pg \<Rightarrow> pg \<Rightarrow> pg" where
  "pg_rollback s0 s =
     s\<lparr>pg_books := pg_books s0, pg_users := pg_users s0, pg_tokens := pg_tokens s0\<rparr>"

text \<open>\<open>QueryRow(...).Scan\<close>: the first row, or the driver's no-rows error.\<close>

definition query_row :: "'a option \<Rightarrow> go_error + 'a" where
  "query_row r = (case r of None \<Rightarrow> Inl ErrNoRows | Some x \<Rightarrow> Inr x)"

definition seq_exhausted :: go_error where
  "seq_exhausted = PgError ''2200H'' '''' ''nextval: reached maximum value of sequence''"

definition unique_violation :: "string \<Rightarrow> go_error" where
  "unique_violation con =
     PgError ''23505'' con (''duplicate key value violates unique constraint '' @ con)"

definition value_too_long :: go_error where
  "value_too_long = PgError ''22001'' '''' ''value too long for type character varying''"

section \<open>books (queries/books.sql)\<close>

record CreateBookParams =
  cbp_OwnerID :: int
  cbp_Title :: string
  cbp_Author :: string

definition q_CreateBook :: "DBTX \<Rightarrow> CreateBookParams \<Rightarrow> pg \<Rightarrow> (go_error + book_row) \<times> pg" where
  "q_CreateBook db arg = pg_exec db (\<lambda>now s.
     let i = pg_books_seq s;
         s' = s\<lparr>pg_books_seq := i + 1\<rparr>;
         row = \<lparr>br_ID = i, br_OwnerID = cbp_OwnerID arg, br_Title = cbp_Title arg,
                br_Author = cbp_Author arg, br_CreatedAt = now, br_UpdatedAt = now\<rparr>
     in if i > max_int64 then (Inl seq_exhausted, s)
        else if i \<in> br_ID ` set (pg_books s) then (Inl (unique_violation ''books_pkey''), s')
        else (Inr row, s'\<lparr>pg_books := pg_books s @ [row]\<rparr>))"

definition q_GetBook :: "DBTX \<Rightarrow> int \<Rightarrow> pg \<Rightarrow> (go_error + book_row) \<times> pg" where
  "q_GetBook db i = pg_exec db (\<lambda>now s.
     (query_row (sql_first (\<lambda>r. br_ID r = i) (pg_books s)), s))"

definition q_UpdateBookFields ::
  "DBTX \<Rightarrow> int \<Rightarrow> string \<Rightarrow> string \<Rightarrow> pg \<Rightarrow> (go_error + book_row) \<times> pg" where
  "q_UpdateBookFields db i title author = pg_exec db (\<lambda>now s.
     let rows = sql_update (\<lambda>r. br_ID r = i)
           (\<lambda>r. r\<lparr>br_Title := title, br_Author := author, br_UpdatedAt := now\<rparr>) (pg_books s)
     in (query_row (sql_first (\<lambda>r. br_ID r = i) rows), s\<lparr>pg_books := rows\<rparr>))"

definition coalesce :: "'a option \<Rightarrow> 'a \<Rightarrow> 'a" where
  "coalesce v d = (case v of None \<Rightarrow> d | Some x \<Rightarrow> x)"

definition q_PatchBookFields ::
  "DBTX \<Rightarrow> int \<Rightarrow> string option \<Rightarrow> string option \<Rightarrow> pg \<Rightarrow> (go_error + book_row) \<times> pg" where
  "q_PatchBookFields db i title author = pg_exec db (\<lambda>now s.
     let rows = sql_update (\<lambda>r. br_ID r = i)
           (\<lambda>r. r\<lparr>br_Title := coalesce title (br_Title r),
                   br_Author := coalesce author (br_Author r), br_UpdatedAt := now\<rparr>) (pg_books s)
     in (query_row (sql_first (\<lambda>r. br_ID r = i) rows), s\<lparr>pg_books := rows\<rparr>))"

definition q_DeleteBook :: "DBTX \<Rightarrow> int \<Rightarrow> pg \<Rightarrow> (go_error + int) \<times> pg" where
  "q_DeleteBook db i = pg_exec db (\<lambda>now s.
     (Inr (int (sql_count (\<lambda>r. br_ID r = i) (pg_books s))),
      s\<lparr>pg_books := sql_delete (\<lambda>r. br_ID r = i) (pg_books s)\<rparr>))"

section \<open>users (queries/users.sql)\<close>

record CreateUserParams =
  cup_Username :: string
  cup_Password :: string
  cup_Role :: string

definition q_CreateUser :: "DBTX \<Rightarrow> CreateUserParams \<Rightarrow> pg \<Rightarrow> (go_error + user_row) \<times> pg" where
  "q_CreateUser db arg = pg_exec db (\<lambda>now s.
     let i = pg_users_seq s;
         s' = s\<lparr>pg_users_seq := i + 1\<rparr>;
         row = \<lparr>ur_ID = i, ur_Username = cup_Username arg, ur_Password = cup_Password arg,
                ur_Role = cup_Role arg, ur_CreatedAt = now, ur_UpdatedAt = now\<rparr>
     in if i > max_int64 then (Inl seq_exhausted, s)
        else if length (cup_Role arg) > 32 then (Inl value_too_long, s')
        else if i \<in> ur_ID ` set (pg_users s) then (Inl (unique_violation ''users_pkey''), s')
        else if cup_Username arg \<in> ur_Username ` set (pg_users s)
          then (Inl (unique_violation ''users_username_key''), s')
        else (Inr row, s'\<lparr>pg_users := pg_users s @ [row]\<rparr>))"

definition q_GetUserByID :: "DBTX \<Rightarrow> int \<Rightarrow> pg \<Rightarrow> (go_error + user_row) \<times> pg" where
  "q_GetUserByID db i = pg_exec db (\<lambda>now s.
     (query_row (sql_first (\<lambda>r. ur_ID r = i) (pg_users s)), s))"

definition q_GetUserByUsername :: "DBTX \<Rightarrow> string \<Rightarrow> pg \<Rightarrow> (go_error + user_row) \<times> pg" where
  "q_GetUserByUsername db name = pg_exec db (\<lambda>now s.
     (query_row (sql_first (\<lambda>r. ur_Username r = name) (pg_users s)), s))"

section \<open>refresh\_tokens (queries/refresh\_tokens.sql)\<close>

record CreateRefreshTokenParams =
  crp_UserID :: int
  crp_TokenHash :: string
  crp_FamilyID :: string
  crp_ExpiresAt :: time

definition new_token_row :: "int \<Rightarrow> CreateRefreshTokenParams \<Rightarrow> time \<Rightarrow> token_row" where
  "new_token_row i arg now =
     \<lparr>tr_ID = i, tr_UserID = crp_UserID arg, tr_TokenHash = crp_TokenHash arg,
      tr_FamilyID = crp_FamilyID arg, tr_ExpiresAt = crp_ExpiresAt arg,
      tr_ConsumedAt = None, tr_RevokedAt = None, tr_CreatedAt = now, tr_UpdatedAt = now\<rparr>"

definition q_CreateRefreshToken ::
  "DBTX \<Rightarrow> CreateRefreshTokenParams \<Rightarrow> pg \<Rightarrow> (go_error + token_row) \<times> pg" where
  "q_CreateRefreshToken db arg = pg_exec db (\<lambda>now s.
     let i = pg_tokens_seq s;
         s' = s\<lparr>pg_tokens_seq := i + 1\<rparr>;
         row = new_token_row i arg now
     in if i > max_int64 then (Inl seq_exhausted, s)
        else if length (crp_TokenHash arg) > 64 \<or> length (crp_FamilyID arg) > 64
          then (Inl value_too_long, s')
        else if i \<in> tr_ID ` set (pg_tokens s) then (Inl (unique_violation ''refresh_tokens_pkey''), s')
        else if crp_TokenHash arg \<in> tr_TokenHash ` set (pg_tokens s)
          then (Inl (unique_violation ''refresh_tokens_token_hash_key''), s')
        else (Inr row, s'\<lparr>pg_tokens := pg_tokens s @ [row]\<rparr>))"

definition q_GetRefreshTokenByHash :: "DBTX \<Rightarrow> string \<Rightarrow> pg \<Rightarrow> (go_error + token_row) \<times> pg" where
  "q_GetRefreshTokenByHash db h = pg_exec db (\<lambda>now s.
     (query_row (sql_first (\<lambda>r. tr_TokenHash r = h) (pg_tokens s)), s))"

definition token_active :: "token_row \<Rightarrow> bool" where
  "token_active r \<longleftrightarrow> tr_ConsumedAt r = None \<and> tr_RevokedAt r = None"

definition q_ConsumeRefreshTokenIfActive ::
  "DBTX \<Rightarrow> int \<Rightarrow> time \<Rightarrow> pg \<Rightarrow> (go_error + int) \<times> pg" where
  "q_ConsumeRefreshTokenIfActive db i at = pg_exec db (\<lambda>now s.
     let p = (\<lambda>r. tr_ID r = i \<and> token_active r)
     in (Inr (int (sql_count p (pg_tokens s))),
         s\<lparr>pg_tokens :=
            sql_update p (\<lambda>r. r\<lparr>tr_ConsumedAt := Some at, tr_UpdatedAt := now\<rparr>) (pg_tokens s)\<rparr>))"

definition q_RevokeRefreshFamily :: "DBTX \<Rightarrow> string \<Rightarrow> time \<Rightarrow> pg \<Rightarrow> (go_error + unit) \<times> pg" where
  "q_RevokeRefreshFamily db fam at = pg_exec db (\<lambda>now s.
     (Inr (),
      s\<lparr>pg_tokens :=
         sql_update (\<lambda>r. tr_FamilyID r = fam \<and> tr_RevokedAt r = None)
           (\<lambda>r. r\<lparr>tr_RevokedAt := Some at, tr_UpdatedAt := now\<rparr>) (pg_tokens s)\<rparr>))"

definition q_RevokeAllRefreshForUser :: "DBTX \<Rightarrow> int \<Rightarrow> time \<Rightarrow> pg \<Rightarrow> (go_error + unit) \<times> pg" where
  "q_RevokeAllRefreshForUser db uid at = pg_exec db (\<lambda>now s.
     (Inr (),
      s\<lparr>pg_tokens :=
         sql_update (\<lambda>r. tr_UserID r = uid \<and> tr_RevokedAt r = None)
           (\<lambda>r. r\<lparr>tr_RevokedAt := Some at, tr_UpdatedAt := now\<rparr>) (pg_tokens s)\<rparr>))"

end
