(* ===== verification/Book_List.thy ===== *)
theory Book_List
  imports Repo_Base Models Pg "HOL-Library.Char_ord" "HOL-Library.List_Lexorder"
begin

text \<open>
  The listing of books (\<open>SQLCBookStore.List\<close> of \<open>pkg/repository/book_sqlc.go\<close>): the query's
  text and arguments as the code builds them (\<open>build_list\<close>), and what the query means on the
  table (\<open>run_list\<close>: filter, order, page). \<open>lower\<close> is \<open>strings.ToLower\<close> applied to a filter
  text, whose Unicode tables are not reproduced. The lemmas: a filter is a substring test,
  the order is a total preorder refined by the key, pages compose.
\<close>

section \<open>The listing query: text and arguments\<close>

definition BookListSortFields :: "string list" where
  "BookListSortFields =
     [''id'', ''title'', ''author'', ''created_at'', ''updated_at'', ''owner_id'']"

definition bookListOrderBy :: "string \<Rightarrow> string option" where
  "bookListOrderBy = map_of
     [(''id|asc'', ''id ASC''), (''id|desc'', ''id DESC''),
      (''title|asc'', ''title ASC''), (''title|desc'', ''title DESC''),
      (''author|asc'', ''author ASC''), (''author|desc'', ''author DESC''),
      (''created_at|asc'', ''created_at ASC''), (''created_at|desc'', ''created_at DESC''),
      (''updated_at|asc'', ''updated_at ASC''), (''updated_at|desc'', ''updated_at DESC''),
      (''owner_id|asc'', ''owner_id ASC''), (''owner_id|desc'', ''owner_id DESC'')]"

definition escape_char :: "char \<Rightarrow> string" where
  "escape_char c =
     (if c = CHR 0x5C then [CHR 0x5C, CHR 0x5C]
      else if c = CHR ''%'' then [CHR 0x5C, CHR ''%'']
      else if c = CHR ''_'' then [CHR 0x5C, CHR ''_''] else [c])"

definition escapeLikePattern :: "string \<Rightarrow> string" where
  "escapeLikePattern s = concat (map escape_char s)"

text \<open>An argument of the query, and a condition of its \<open>WHERE\<close>.\<close>

datatype sql_arg = ArgText string | ArgInt int

definition like_pattern :: "(string \<Rightarrow> string) \<Rightarrow> string \<Rightarrow> string" where
  "like_pattern lower s = ''%'' @ lower (escapeLikePattern s) @ ''%''"

definition placeholder :: "nat \<Rightarrow> string" where
  "placeholder n = CHR ''$'' # show_nat n"

definition add_text_filter ::
  "(string \<Rightarrow> string) \<Rightarrow> string \<Rightarrow> string \<Rightarrow> string list \<times> sql_arg list \<Rightarrow> string list \<times> sql_arg list"
where
  "add_text_filter lower col v ca =
     (if v \<noteq> [] then
        (let args = snd ca @ [ArgText (like_pattern lower v)]
         in (fst ca @ [''LOWER('' @ col @ '') LIKE '' @ placeholder (length args) @
                '' ESCAPE '' @ [CHR 0x27, CHR 0x5C, CHR 0x27]], args))
      else ca)"

definition add_owner_filter ::
  "uint option \<Rightarrow> string list \<times> sql_arg list \<Rightarrow> string list \<times> sql_arg list" where
  "add_owner_filter ow ca =
     (case ow of
        None \<Rightarrow> ca
      | Some v \<Rightarrow>
          (let args = snd ca @ [ArgInt (toInt64 v)]
           in (fst ca @ [''owner_id = '' @ placeholder (length args)], args)))"

definition list_conds ::
  "(string \<Rightarrow> string) \<Rightarrow> BookListQuery \<Rightarrow> string list \<times> sql_arg list" where
  "list_conds lower q =
     add_owner_filter (q_OwnerID q)
       (add_text_filter lower ''author'' (q_AuthorLike q)
         (add_text_filter lower ''title'' (q_TitleLike q) ([], [])))"

definition norm_sort :: "string \<Rightarrow> string" where
  "norm_sort v =
     (let s = ToLower (TrimSpace v) in if s \<in> set BookListSortFields then s else ''id'')"

definition norm_order :: "string \<Rightarrow> string" where
  "norm_order v = (if ToLower (TrimSpace v) \<noteq> ''desc'' then ''asc'' else ''desc'')"

definition order_clause :: "string \<Rightarrow> string \<Rightarrow> string" where
  "order_clause col dir =
     (case bookListOrderBy (col @ ''|'' @ dir) of None \<Rightarrow> ''id ASC'' | Some c \<Rightarrow> c)"

definition build_list :: "(string \<Rightarrow> string) \<Rightarrow> BookListQuery \<Rightarrow> string \<times> sql_arg list" where
  "build_list lower q =
     (let ca = list_conds lower q;
          conds = fst ca; args1 = snd ca;
          t1 = ''SELECT id, owner_id, title, author, created_at, updated_at FROM books'' @
               (if conds \<noteq> [] then '' WHERE '' @ join_with '' AND '' conds else '''');
          col = norm_sort (q_Sort q);
          dir = norm_order (q_Order q);
          t2 = t1 @ '' ORDER BY '' @ order_clause col dir @
               (if col \<noteq> ''id'' then '', id ASC'' else '''');
          args2 = (if q_Limit q \<ge> 0 then args1 @ [ArgInt (q_Limit q)] else args1);
          t3 = (if q_Limit q \<ge> 0 then t2 @ '' LIMIT '' @ placeholder (length args2) else t2);
          args3 = (if q_Offset q > 0 then args2 @ [ArgInt (q_Offset q)] else args2);
          t4 = (if q_Offset q > 0 then t3 @ '' OFFSET '' @ placeholder (length args3) else t3)
      in (t4, args3))"

section \<open>The listing query: its meaning on the table\<close>

text \<open>
  \<open>LIKE ... ESCAPE '\\'\<close>: a percent sign matches any string, an underscore any character,
  and the escape character makes the next one literal.
\<close>

fun like :: "string \<Rightarrow> string \<Rightarrow> bool" where
  "like [] t \<longleftrightarrow> t = []"
| "like (c # p) t \<longleftrightarrow>
     (if c = CHR 0x5C then
        (case p of [] \<Rightarrow> False
         | d # p' \<Rightarrow> (case t of [] \<Rightarrow> False | x # t' \<Rightarrow> x = d \<and> like p' t'))
      else if c = CHR ''%'' then
        like p t \<or> (case t of [] \<Rightarrow> False | x # t' \<Rightarrow> like (c # p) t')
      else
        (case t of [] \<Rightarrow> False | x # t' \<Rightarrow> (c = CHR ''_'' \<or> x = c) \<and> like p t'))"

text \<open>
  A column's value for \<open>ORDER BY\<close>: numbers and times by size, text by the collation key,
  ties by the bytes. The order is the one of the instance below.
\<close>

datatype sql_value = SqlInt int | SqlText string string

instantiation sql_value :: linorder
begin

fun less_eq_sql_value :: "sql_value \<Rightarrow> sql_value \<Rightarrow> bool" where
  "less_eq_sql_value (SqlInt a) (SqlInt b) \<longleftrightarrow> a \<le> b"
| "less_eq_sql_value (SqlInt a) (SqlText k t) \<longleftrightarrow> True"
| "less_eq_sql_value (SqlText k t) (SqlInt b) \<longleftrightarrow> False"
| "less_eq_sql_value (SqlText k t) (SqlText l u) \<longleftrightarrow> k < l \<or> k = l \<and> t \<le> u"

definition less_sql_value :: "sql_value \<Rightarrow> sql_value \<Rightarrow> bool" where
  "less_sql_value x y \<longleftrightarrow> x \<le> y \<and> \<not> y \<le> x"

instance
proof
  fix x y z :: sql_value
  show "(x < y) = (x \<le> y \<and> \<not> y \<le> x)" by (rule less_sql_value_def)
  show "x \<le> x" by (cases x) simp_all
  show "x \<le> y \<Longrightarrow> y \<le> z \<Longrightarrow> x \<le> z" by (cases x; cases y; cases z) auto
  show "x \<le> y \<Longrightarrow> y \<le> x \<Longrightarrow> x = y" by (cases x; cases y) auto
  show "x \<le> y \<or> y \<le> x" by (cases x; cases y) auto
qed

end

definition sort_value :: "pg \<Rightarrow> string \<Rightarrow> book_row \<Rightarrow> sql_value" where
  "sort_value s col r =
     (if col = ''title'' then SqlText (pg_strxfrm s (br_Title r)) (br_Title r)
      else if col = ''author'' then SqlText (pg_strxfrm s (br_Author r)) (br_Author r)
      else if col = ''created_at'' then SqlInt (br_CreatedAt r)
      else if col = ''updated_at'' then SqlInt (br_UpdatedAt r)
      else if col = ''owner_id'' then SqlInt (br_OwnerID r)
      else SqlInt (br_ID r))"

text \<open>\<open>ORDER BY col ASC|DESC, id ASC\<close> as a comparison of rows.\<close>

definition row_le :: "pg \<Rightarrow> string \<Rightarrow> string \<Rightarrow> book_row \<Rightarrow> book_row \<Rightarrow> bool" where
  "row_le s col order a b \<longleftrightarrow>
     (let x = sort_value s col a; y = sort_value s col b
      in if x = y then br_ID a \<le> br_ID b
         else if order = ''desc'' then y < x else x < y)"

fun insert_row :: "('a \<Rightarrow> 'a \<Rightarrow> bool) \<Rightarrow> 'a \<Rightarrow> 'a list \<Rightarrow> 'a list" where
  "insert_row le x [] = [x]"
| "insert_row le x (y # ys) = (if le x y then x # y # ys else y # insert_row le x ys)"

fun sort_rows :: "('a \<Rightarrow> 'a \<Rightarrow> bool) \<Rightarrow> 'a list \<Rightarrow> 'a list" where
  "sort_rows le [] = []"
| "sort_rows le (x # xs) = insert_row le x (sort_rows le xs)"

definition row_matches :: "pg \<Rightarrow> (string \<Rightarrow> string) \<Rightarrow> BookListQuery \<Rightarrow> book_row \<Rightarrow> bool" where
  "row_matches s lower q r \<longleftrightarrow>
     (q_TitleLike q = [] \<or> like (like_pattern lower (q_TitleLike q)) (pg_lower s (br_Title r))) \<and>
     (q_AuthorLike q = [] \<or> like (like_pattern lower (q_AuthorLike q)) (pg_lower s (br_Author r))) \<and>
     (case q_OwnerID q of None \<Rightarrow> True | Some v \<Rightarrow> br_OwnerID r = toInt64 v)"

definition page :: "int \<Rightarrow> int \<Rightarrow> 'a list \<Rightarrow> 'a list" where
  "page offset limit xs =
     (let ys = (if offset > 0 then drop (nat offset) xs else xs)
      in if limit \<ge> 0 then take (nat limit) ys else ys)"

definition run_list :: "(string \<Rightarrow> string) \<Rightarrow> BookListQuery \<Rightarrow> pg \<Rightarrow> book_row list" where
  "run_list lower q s =
     page (q_Offset q) (q_Limit q)
       (sort_rows (row_le s (norm_sort (q_Sort q)) (norm_order (q_Order q)))
         (filter (row_matches s lower q) (pg_books s)))"

section \<open>Laws of the filter and of the ordering\<close>

lemma like_percent: "like (CHR ''%'' # p) t \<longleftrightarrow> (\<exists>u v. t = u @ v \<and> like p v)"
proof (induction t)
  case Nil
  show ?case by (subst like.simps) simp
next
  case (Cons x t)
  have "like (CHR ''%'' # p) (x # t) \<longleftrightarrow> like p (x # t) \<or> like (CHR ''%'' # p) t"
    by (subst like.simps) simp
  also have "\<dots> \<longleftrightarrow> (\<exists>u v. x # t = u @ v \<and> like p v)"
    unfolding Cons.IH by (auto simp: Cons_eq_append_conv)
  finally show ?case .
qed

lemma like_escape: "like (escapeLikePattern s @ p) t \<longleftrightarrow> (\<exists>v. t = s @ v \<and> like p v)"
proof (induction s arbitrary: t)
  case Nil
  then show ?case by (simp add: escapeLikePattern_def)
next
  case (Cons c s)
  have "like (escapeLikePattern (c # s) @ p) t \<longleftrightarrow>
      (\<exists>t'. t = c # t' \<and> like (escapeLikePattern s @ p) t')"
    by (cases t) (auto simp: escapeLikePattern_def escape_char_def)
  then show ?case using Cons.IH by auto
qed

text \<open>
  The pattern the code builds matches exactly the values that contain the (lowered) filter
  text: no character of the filter acts as a wildcard. \<open>lower\<close> may do anything to the
  escaped text as long as it commutes with the escaping, as a lower-casing does.
\<close>

lemma like_pattern_sublist:
  assumes "lower (escapeLikePattern v) = escapeLikePattern (lower v)"
  shows "like (like_pattern lower v) t \<longleftrightarrow> sublist (lower v) t"
proof -
  have "like (like_pattern lower v) t \<longleftrightarrow>
      (\<exists>u x. t = u @ x \<and> (\<exists>y. x = lower v @ y \<and> like ''%'' y))"
    by (simp add: like_pattern_def assms like_percent like_escape del: like.simps)
  moreover have "like ''%'' y" for y
  proof -
    have "\<exists>u v. y = u @ v \<and> like [] v" by (rule exI [of _ y], rule exI [of _ "[]"]) simp
    then show ?thesis by (simp only: like_percent)
  qed
  ultimately show ?thesis by (auto simp: sublist_def)
qed

lemma row_le_refl: "row_le s c o' a a"
  by (simp add: row_le_def)

lemma row_le_total: "row_le s c o' a b \<or> row_le s c o' b a"
  by (auto simp: row_le_def Let_def)

lemma row_le_trans: "row_le s c o' a b \<Longrightarrow> row_le s c o' b d \<Longrightarrow> row_le s c o' a d"
  by (auto simp: row_le_def Let_def split: if_splits)

lemma row_le_antisym: "row_le s c o' a b \<Longrightarrow> row_le s c o' b a \<Longrightarrow> br_ID a = br_ID b"
  by (auto simp: row_le_def Let_def split: if_splits)

lemma set_insert_row: "set (insert_row le x ys) = insert x (set ys)"
  by (induction ys) auto

lemma set_sort_rows: "set (sort_rows le xs) = set xs"
  by (induction xs) (auto simp: set_insert_row)

lemma length_insert_row: "length (insert_row le x ys) = Suc (length ys)"
  by (induction ys) auto

lemma length_sort_rows: "length (sort_rows le xs) = length xs"
  by (induction xs) (auto simp: length_insert_row)

lemma distinct_insert_row:
  "distinct (map k (insert_row le x ys)) \<longleftrightarrow> k x \<notin> k ` set ys \<and> distinct (map k ys)"
  by (induction ys) (auto simp: set_insert_row)

lemma distinct_sort_rows: "distinct (map k (sort_rows le xs)) = distinct (map k xs)"
  by (induction xs) (auto simp: distinct_insert_row set_sort_rows)

lemma sorted_insert_row:
  assumes "\<And>a b. le a b \<or> le b a" "\<And>a b c. le a b \<Longrightarrow> le b c \<Longrightarrow> le a c"
  shows "sorted_wrt le ys \<Longrightarrow> sorted_wrt le (insert_row le x ys)"
proof (induction ys)
  case Nil
  then show ?case by simp
next
  case (Cons y ys)
  then show ?case using assms(1) [of x y] assms(2) by (auto simp: set_insert_row)
qed

lemma sorted_sort_rows: "sorted_wrt (row_le s c o') (sort_rows (row_le s c o') xs)"
proof (induction xs)
  case Nil
  then show ?case by simp
next
  case (Cons x xs)
  show ?case
    using sorted_insert_row [of "row_le s c o'", OF row_le_total row_le_trans Cons] by simp
qed

lemma page_length: "0 \<le> limit \<Longrightarrow> int (length (page offset limit xs)) \<le> limit"
  by (simp add: page_def Let_def)

lemma page_set: "set (page offset limit xs) \<subseteq> set xs"
  unfolding page_def Let_def
  using set_take_subset set_drop_subset by (auto dest!: in_set_takeD in_set_dropD)

lemma page_sorted: "sorted_wrt P xs \<Longrightarrow> sorted_wrt P (page offset limit xs)"
  by (simp add: page_def Let_def sorted_wrt_take sorted_wrt_drop)

lemma page_distinct: "distinct (map k xs) \<Longrightarrow> distinct (map k (page offset limit xs))"
  by (simp add: page_def Let_def take_map [symmetric] drop_map [symmetric])

text \<open>Consecutive pages put together are the longer page: paging neither skips nor repeats.\<close>

lemma page_append:
  assumes "0 \<le> o'" "0 \<le> l" "0 \<le> m"
  shows "page o' l xs @ page (o' + l) m xs = page o' (l + m) xs"
proof -
  have "take (nat l) ys @ take (nat m) (drop (nat l) ys) = take (nat (l + m)) ys" for ys :: "'a list"
    using assms by (simp add: nat_add_distrib take_add)
  from this [of "drop (nat o') xs"]
  have "take (nat l) (drop (nat o') xs) @ take (nat m) (drop (nat (o' + l)) xs) =
      take (nat (l + m)) (drop (nat o') xs)"
    using assms by (simp add: nat_add_distrib add.commute)
  moreover have "page x y xs = take (nat y) (drop (nat x) xs)" if "0 \<le> x" "0 \<le> y" for x y
    using that by (auto simp: page_def Let_def)
  ultimately show ?thesis using assms by simp
qed

end
