(* ===== verification/Sql_Select.thy ===== *)
theory Sql_Select
  imports Book_List
begin

text \<open>
  What PostgreSQL makes of the text that \<open>SQLCBookStore.List\<close> builds at run time: \<open>pg_select\<close>
  reads a \<open>SELECT\<close> on the books (conditions joined by \<open>AND\<close>, \<open>ORDER BY\<close>, \<open>LIMIT\<close>,
  \<open>OFFSET\<close>, numbered parameters), refuses anything else with a syntax error, checks the
  parameters and runs it on the table. The main lemma, \<open>pg_select_build\<close>, says that the text
  of \<open>build_list\<close> always parses and means \<open>run_list\<close>, whatever the filters hold.
\<close>

section \<open>Reading a statement\<close>

datatype sql_cond = CondLike string nat | CondEq string nat

datatype sql_select =
  Select (sel_where: "sql_cond list") (sel_order: "(string \<times> bool) list") (sel_limit: "nat option") (sel_offset: "nat option")

definition sql_quoted_escape :: string where
  "sql_quoted_escape = [CHR 0x27, CHR 0x5C, CHR 0x27]"

definition sql_ref :: "string \<Rightarrow> nat option" where
  "sql_ref w = (case w of [] \<Rightarrow> None | c # ds \<Rightarrow> if c = CHR ''$'' then parse_nat ds else None)"

definition sql_lowered :: "string \<Rightarrow> string option" where
  "sql_lowered w =
     (if w = ''LOWER(title)'' then Some ''title'' else if w = ''LOWER(author)'' then Some ''author'' else None)"

definition parse_cond :: "string list \<Rightarrow> (sql_cond \<times> string list) option" where
  "parse_cond ws =
     (case ws of
        f # opr # a # rest \<Rightarrow>
          (case sql_ref a of
             None \<Rightarrow> None
           | Some n \<Rightarrow>
               if opr = ''LIKE'' then
                 (case (sql_lowered f, rest) of
                    (Some col, e # q # rest') \<Rightarrow>
                      if e = ''ESCAPE'' \<and> q = sql_quoted_escape then Some (CondLike col n, rest') else None
                  | _ \<Rightarrow> None)
               else if opr = ''='' \<and> f = ''owner_id'' then Some (CondEq f n, rest)
               else None)
      | _ \<Rightarrow> None)"

lemma parse_cond_shorter: "parse_cond ws = Some (c, rest) \<Longrightarrow> length rest < length ws"
  by (auto simp: parse_cond_def split: list.splits option.splits if_splits)

function parse_conds :: "string list \<Rightarrow> (sql_cond list \<times> string list) option" where
  "parse_conds ws =
     (case parse_cond ws of
        None \<Rightarrow> None
      | Some (c, rest) \<Rightarrow>
          (case rest of
             [] \<Rightarrow> Some ([c], [])
           | x # rest' \<Rightarrow>
               if x = ''AND'' then map_option (\<lambda>(cs, r). (c # cs, r)) (parse_conds rest')
               else Some ([c], rest)))"
  by pat_completeness auto
termination
  by (relation "measure length") (auto dest: parse_cond_shorter)

declare parse_conds.simps [simp del]

fun parse_keys :: "string list \<Rightarrow> ((string \<times> bool) list \<times> string list) option" where
  "parse_keys (col # d # ws) =
     (if d = ''ASC'' then Some ([(col, False)], ws)
      else if d = ''DESC'' then Some ([(col, True)], ws)
      else if d = ''ASC,'' then map_option (\<lambda>(ks, r). ((col, False) # ks, r)) (parse_keys ws)
      else if d = ''DESC,'' then map_option (\<lambda>(ks, r). ((col, True) # ks, r)) (parse_keys ws)
      else None)"
| "parse_keys ws = None"

definition parse_bound :: "string \<Rightarrow> string list \<Rightarrow> (nat option \<times> string list) option" where
  "parse_bound kw ws =
     (case ws of
        k # a # rest \<Rightarrow>
          if k = kw then map_option (\<lambda>n. (Some n, rest)) (sql_ref a) else Some (None, ws)
      | _ \<Rightarrow> Some (None, ws))"

definition select_head :: "string list" where
  "select_head =
     [''SELECT'', ''id,'', ''owner_id,'', ''title,'', ''author,'', ''created_at,'', ''updated_at'', ''FROM'', ''books'']"

definition parse_tail :: "sql_cond list \<Rightarrow> string list \<Rightarrow> sql_select option" where
  "parse_tail cs ws =
     (case ws of
        o1 # b # ws \<Rightarrow>
          if o1 \<noteq> ''ORDER'' \<or> b \<noteq> ''BY'' then None
          else
            (case parse_keys ws of
               None \<Rightarrow> None
             | Some (ks, ws) \<Rightarrow>
                 if fst ` set ks \<subseteq> set BookListSortFields then
                   (case parse_bound ''LIMIT'' ws of
                      None \<Rightarrow> None
                    | Some (lim, ws) \<Rightarrow>
                        (case parse_bound ''OFFSET'' ws of
                           None \<Rightarrow> None
                         | Some (off, ws) \<Rightarrow> if ws = [] then Some (Select cs ks lim off) else None))
                 else None)
      | _ \<Rightarrow> None)"

definition parse_select :: "string \<Rightarrow> sql_select option" where
  "parse_select text =
     (let ws = split_on (CHR '' '') text
      in if take 9 ws \<noteq> select_head then None
         else
           (case drop 9 ws of
              [] \<Rightarrow> None
            | w # rest \<Rightarrow>
                if w = ''WHERE'' then
                  (case parse_conds rest of None \<Rightarrow> None | Some (cs, rest) \<Rightarrow> parse_tail cs rest)
                else parse_tail [] (w # rest)))"

section \<open>Running it\<close>

definition sql_text_arg :: "sql_arg list \<Rightarrow> nat \<Rightarrow> string option" where
  "sql_text_arg args n =
     (if 1 \<le> n \<and> n \<le> length args then (case args ! (n - 1) of ArgText t \<Rightarrow> Some t | ArgInt i \<Rightarrow> None) else None)"

definition sql_int_arg :: "sql_arg list \<Rightarrow> nat \<Rightarrow> int option" where
  "sql_int_arg args n =
     (if 1 \<le> n \<and> n \<le> length args then (case args ! (n - 1) of ArgText t \<Rightarrow> None | ArgInt i \<Rightarrow> Some i) else None)"

fun cond_holds :: "pg \<Rightarrow> sql_arg list \<Rightarrow> sql_cond \<Rightarrow> (book_row \<Rightarrow> bool) option" where
  "cond_holds s args (CondLike col n) =
     map_option (\<lambda>p r. like p (pg_lower s (if col = ''title'' then br_Title r else br_Author r)))
       (sql_text_arg args n)"
| "cond_holds s args (CondEq col n) = map_option (\<lambda>i r. br_OwnerID r = i) (sql_int_arg args n)"

fun order_le :: "pg \<Rightarrow> (string \<times> bool) list \<Rightarrow> book_row \<Rightarrow> book_row \<Rightarrow> bool" where
  "order_le s [] a b \<longleftrightarrow> True"
| "order_le s ((col, down) # ks) a b \<longleftrightarrow>
     (let x = sort_value s col a; y = sort_value s col b
      in if x = y then order_le s ks a b else if down then y < x else x < y)"

definition sql_bound :: "sql_arg list \<Rightarrow> int \<Rightarrow> nat option \<Rightarrow> int option" where
  "sql_bound args d b = (case b of None \<Rightarrow> Some d | Some n \<Rightarrow> sql_int_arg args n)"

definition pg_select :: "string \<Rightarrow> sql_arg list \<Rightarrow> pg \<Rightarrow> go_error + book_row list" where
  "pg_select text args s =
     (case parse_select text of
        None \<Rightarrow> Inl (PgError ''42601'' '''' ''syntax error'')
      | Some (Select cs ks lim off) \<Rightarrow>
          (case (those (map (cond_holds s args) cs), sql_bound args (-1) lim, sql_bound args 0 off) of
             (Some ps, Some l, Some m) \<Rightarrow>
               if l < 0 \<and> lim \<noteq> None then Inl (PgError ''2201W'' '''' ''LIMIT must not be negative'')
               else if m < 0 then Inl (PgError ''2201X'' '''' ''OFFSET must not be negative'')
               else Inr (page m l (sort_rows (order_le s ks) (filter (\<lambda>r. \<forall>p \<in> set ps. p r) (pg_books s))))
           | _ \<Rightarrow> Inl (PgError ''08P01'' '''' ''invalid parameter'')))"

section \<open>The text of the listing, word by word\<close>

abbreviation spaced :: "string list \<Rightarrow> string" where
  "spaced \<equiv> join_with '' ''"

lemma spaced_Cons: "ws \<noteq> [] \<Longrightarrow> spaced (w # ws) = w @ '' '' @ spaced ws"
  by (cases ws) simp_all

lemma spaced_append: "us \<noteq> [] \<Longrightarrow> vs \<noteq> [] \<Longrightarrow> spaced (us @ vs) = spaced us @ '' '' @ spaced vs"
proof (induction us rule: induct_list012)
  case (2 w)
  then show ?case by (simp add: spaced_Cons)
qed (simp_all add: spaced_Cons)

fun cond_words :: "sql_cond \<Rightarrow> string list" where
  "cond_words (CondLike col n) = [''LOWER('' @ col @ '')'', ''LIKE'', placeholder n, ''ESCAPE'', sql_quoted_escape]"
| "cond_words (CondEq col n) = [col, ''='', placeholder n]"

fun cond_ok :: "sql_cond \<Rightarrow> bool" where
  "cond_ok (CondLike col n) \<longleftrightarrow> col = ''title'' \<or> col = ''author''"
| "cond_ok (CondEq col n) \<longleftrightarrow> col = ''owner_id''"

fun and_words :: "sql_cond list \<Rightarrow> string list" where
  "and_words [] = []"
| "and_words [c] = cond_words c"
| "and_words (c # cs) = cond_words c @ ''AND'' # and_words cs"

lemma cond_words_nonempty [simp]: "cond_words c \<noteq> []"
  by (cases c) simp_all

lemma and_words_nonempty: "cs \<noteq> [] \<Longrightarrow> and_words cs \<noteq> []"
  by (cases cs rule: and_words.cases) simp_all

lemma and_join: "cs \<noteq> [] \<Longrightarrow> join_with '' AND '' (map (\<lambda>c. spaced (cond_words c)) cs) = spaced (and_words cs)"
proof (induction cs rule: and_words.induct)
  case (3 c d cs)
  have "spaced (''AND'' # and_words (d # cs)) = ''AND '' @ spaced (and_words (d # cs))"
    using spaced_Cons [OF and_words_nonempty [of "d # cs"], of "''AND''"] by simp
  with 3 spaced_append [of "cond_words c" "''AND'' # and_words (d # cs)"] show ?case by simp
qed simp_all

lemma sql_ref_placeholder [simp]: "sql_ref (placeholder n) = Some n"
  by (simp add: sql_ref_def placeholder_def parse_show_nat)

lemma parse_cond_words: "cond_ok c \<Longrightarrow> parse_cond (cond_words c @ rest) = Some (c, rest)"
  by (cases c) (auto simp: parse_cond_def sql_lowered_def)

lemma parse_and_words:
  assumes "cs \<noteq> []" and "\<forall>c \<in> set cs. cond_ok c" and "rest = [] \<or> hd rest \<noteq> ''AND''"
  shows "parse_conds (and_words cs @ rest) = Some (cs, rest)"
  using assms
proof (induction cs rule: and_words.induct)
  case (2 c)
  then show ?case by (subst parse_conds.simps) (auto simp: parse_cond_words split: list.split)
next
  case (3 c d cs)
  have "parse_cond (and_words (c # d # cs) @ rest) = Some (c, ''AND'' # and_words (d # cs) @ rest)"
    using parse_cond_words [of c "''AND'' # and_words (d # cs) @ rest"] "3.prems" by simp
  with 3 show ?case by (subst parse_conds.simps) simp
qed simp

text \<open>The conditions of a query, and their parameters.\<close>

definition ast_conds :: "BookListQuery \<Rightarrow> sql_cond list" where
  "ast_conds q =
     (let t = (if q_TitleLike q \<noteq> [] then [CondLike ''title'' 1] else []);
          a = (if q_AuthorLike q \<noteq> [] then [CondLike ''author'' (Suc (length t))] else []);
          ow = (case q_OwnerID q of None \<Rightarrow> [] | Some v \<Rightarrow> [CondEq ''owner_id'' (Suc (length t + length a))])
      in t @ a @ ow)"

lemma ast_conds_ok: "\<forall>c \<in> set (ast_conds q). cond_ok c"
  by (auto simp: ast_conds_def Let_def split: option.splits)

lemma list_conds_words: "fst (list_conds lower q) = map (\<lambda>c. spaced (cond_words c)) (ast_conds q)"
  by (auto simp: list_conds_def add_text_filter_def add_owner_filter_def ast_conds_def Let_def sql_quoted_escape_def
      split: option.splits)

lemma list_conds_args: "length (snd (list_conds lower q)) = length (ast_conds q)"
  by (auto simp: list_conds_def add_text_filter_def add_owner_filter_def ast_conds_def Let_def split: option.splits)

lemma list_conds_meaning:
  "\<exists>ps. those (map (cond_holds s (snd (list_conds lower q) @ xs)) (ast_conds q)) = Some ps \<and>
     (\<forall>r. (\<forall>p \<in> set ps. p r) \<longleftrightarrow> row_matches s lower q r)"
  by (cases "q_TitleLike q"; cases "q_AuthorLike q"; cases "q_OwnerID q")
    (simp_all add: list_conds_def add_text_filter_def add_owner_filter_def ast_conds_def Let_def sql_text_arg_def
      sql_int_arg_def row_matches_def nth_append)

text \<open>The words of the whole statement.\<close>

definition where_words :: "BookListQuery \<Rightarrow> string list" where
  "where_words q = (if ast_conds q = [] then [] else ''WHERE'' # and_words (ast_conds q))"

definition order_keys :: "string \<Rightarrow> string \<Rightarrow> (string \<times> bool) list" where
  "order_keys col dir = (col, dir = ''desc'') # (if col = ''id'' then [] else [(''id'', False)])"

definition order_words :: "string \<Rightarrow> string \<Rightarrow> string list" where
  "order_words col dir =
     (let d = (if dir = ''desc'' then ''DESC'' else ''ASC'')
      in [''ORDER'', ''BY''] @ (if col = ''id'' then [col, d] else [col, d @ '','', ''id'', ''ASC'']))"

definition bound_words :: "string \<Rightarrow> nat option \<Rightarrow> string list" where
  "bound_words kw b = (case b of None \<Rightarrow> [] | Some n \<Rightarrow> [kw, placeholder n])"

definition limit_ref :: "BookListQuery \<Rightarrow> nat option" where
  "limit_ref q = (if q_Limit q \<ge> 0 then Some (Suc (length (ast_conds q))) else None)"

definition offset_ref :: "BookListQuery \<Rightarrow> nat option" where
  "offset_ref q =
     (if q_Offset q > 0 then Some (Suc (length (ast_conds q) + (if q_Limit q \<ge> 0 then 1 else 0))) else None)"

definition list_words :: "BookListQuery \<Rightarrow> string list" where
  "list_words q =
     select_head @ where_words q @ order_words (norm_sort (q_Sort q)) (norm_order (q_Order q)) @
     bound_words ''LIMIT'' (limit_ref q) @ bound_words ''OFFSET'' (offset_ref q)"

lemma norm_sort_field: "norm_sort v \<in> set BookListSortFields"
  by (simp add: norm_sort_def BookListSortFields_def Let_def)

lemma norm_order_dir: "norm_order v = ''asc'' \<or> norm_order v = ''desc''"
  by (simp add: norm_order_def)

lemma order_text:
  assumes "col \<in> set BookListSortFields" and "dir = ''asc'' \<or> dir = ''desc''"
  shows "''ORDER BY '' @ order_clause col dir @ (if col \<noteq> ''id'' then '', id ASC'' else '''') =
    spaced (order_words col dir)"
  using assms
  by (auto simp: BookListSortFields_def order_clause_def bookListOrderBy_def order_words_def Let_def)
lemma order_words_nonempty: "order_words col dir \<noteq> []"
  by (simp add: order_words_def Let_def)

lemma spaced_order: "us \<noteq> [] \<Longrightarrow> spaced (us @ order_words col dir @ vs) = spaced us @ '' '' @ spaced (order_words col dir @ vs)"
  by (rule spaced_append) (simp_all add: order_words_nonempty)

lemma spaced_bound:
  "us \<noteq> [] \<Longrightarrow> spaced (us @ bound_words kw b) =
     spaced us @ (case b of None \<Rightarrow> '''' | Some n \<Rightarrow> '' '' @ kw @ '' '' @ placeholder n)"
  using spaced_append [of us "bound_words kw b"] by (cases b) (simp_all add: bound_words_def)

lemma head_text:
  "spaced (select_head @ where_words q) =
     ''SELECT id, owner_id, title, author, created_at, updated_at FROM books'' @
       (if fst (list_conds lower q) \<noteq> [] then '' WHERE '' @ join_with '' AND '' (fst (list_conds lower q)) else '''')"
proof (cases "ast_conds q = []")
  case True
  then show ?thesis by (simp add: where_words_def list_conds_words select_head_def)
next
  case False
  have "spaced (''WHERE'' # and_words (ast_conds q)) = ''WHERE '' @ spaced (and_words (ast_conds q))"
    using spaced_Cons [OF and_words_nonempty [OF False], of "''WHERE''"] by simp
  with False show ?thesis
    using spaced_append [of select_head "''WHERE'' # and_words (ast_conds q)"] and_join [OF False]
    by (simp add: where_words_def list_conds_words select_head_def)
qed

lemma build_list_text: "fst (build_list lower q) = spaced (list_words q)"
proof -
  let ?col = "norm_sort (q_Sort q)" and ?dir = "norm_order (q_Order q)"
  let ?h = "select_head @ where_words q"
  have "?h \<noteq> []" by (simp add: select_head_def)
  then have h: "spaced (?h @ order_words ?col ?dir) = spaced ?h @ '' '' @ spaced (order_words ?col ?dir)"
    using spaced_order [of ?h ?col ?dir "[]"] by simp
  have "spaced (list_words q) = spaced ?h @ '' '' @ spaced (order_words ?col ?dir) @
      (case limit_ref q of None \<Rightarrow> '''' | Some n \<Rightarrow> '' LIMIT '' @ placeholder n) @
      (case offset_ref q of None \<Rightarrow> '''' | Some n \<Rightarrow> '' OFFSET '' @ placeholder n)"
    using spaced_bound [of "(?h @ order_words ?col ?dir) @ bound_words ''LIMIT'' (limit_ref q)" "''OFFSET''" "offset_ref q"]
      spaced_bound [of "?h @ order_words ?col ?dir" "''LIMIT''" "limit_ref q"] h
    by (simp add: list_words_def order_words_nonempty split: option.splits)
  then show ?thesis
    using order_text [OF norm_sort_field norm_order_dir, of "q_Sort q" "q_Order q"]
    by (simp add: build_list_def head_text [of q lower] list_conds_args limit_ref_def offset_ref_def Let_def)
qed

lemma build_list_args:
  "snd (build_list lower q) = snd (list_conds lower q) @
     (if q_Limit q \<ge> 0 then [ArgInt (q_Limit q)] else []) @ (if q_Offset q > 0 then [ArgInt (q_Offset q)] else [])"
  by (simp add: build_list_def Let_def)

text \<open>No word holds a blank, so the words can be read back.\<close>

lemma placeholder_solid: "CHR '' '' \<notin> set (placeholder n)"
  using show_nat_digits [of n] by (auto simp: placeholder_def)

lemma cond_words_solid: "cond_ok c \<Longrightarrow> w \<in> set (cond_words c) \<Longrightarrow> CHR '' '' \<notin> set w"
  by (cases c) (auto simp: sql_quoted_escape_def placeholder_solid)

lemma and_words_solid: "\<forall>c \<in> set cs. cond_ok c \<Longrightarrow> w \<in> set (and_words cs) \<Longrightarrow> CHR '' '' \<notin> set w"
  by (induction cs rule: and_words.induct) (auto dest: cond_words_solid)

lemma list_words_solid: "\<forall>w \<in> set (list_words q). CHR '' '' \<notin> set w"
proof -
  have "CHR '' '' \<notin> set (norm_sort (q_Sort q))"
    using norm_sort_field [of "q_Sort q"] by (auto simp: BookListSortFields_def)
  then have "CHR '' '' \<notin> set w" if "w \<in> set (order_words (norm_sort (q_Sort q)) (norm_order (q_Order q)))" for w
    using that by (auto simp: order_words_def Let_def split: if_splits)
  moreover have "CHR '' '' \<notin> set w" if "w \<in> set (where_words q)" for w
    using that and_words_solid [OF ast_conds_ok] by (auto simp: where_words_def split: if_splits)
  moreover have "CHR '' '' \<notin> set w" if "w \<in> set (bound_words kw b)" "kw \<in> {''LIMIT'', ''OFFSET''}" for w kw b
    using that by (auto simp: bound_words_def placeholder_solid split: option.splits)
  ultimately show ?thesis by (auto simp: list_words_def select_head_def)
qed

lemma parse_bound_words:
  "parse_bound kw (bound_words kw (Some n) @ rest) = Some (Some n, rest)"
  "parse_bound kw [] = Some (None, [])"
  "kw \<noteq> kw' \<Longrightarrow> parse_bound kw (bound_words kw' b) = Some (None, bound_words kw' b)"
  by (auto simp: parse_bound_def bound_words_def split: option.split)

lemma parse_keys_words:
  "col \<in> set BookListSortFields \<Longrightarrow> dir = ''asc'' \<or> dir = ''desc'' \<Longrightarrow>
    parse_keys (drop 2 (order_words col dir) @ rest) = Some (order_keys col dir, rest)"
  by (auto simp: order_words_def order_keys_def Let_def)

lemma parse_bounds:
  "\<exists>ws. parse_bound ''LIMIT'' (bound_words ''LIMIT'' b @ bound_words ''OFFSET'' d) = Some (b, ws) \<and>
     parse_bound ''OFFSET'' ws = Some (d, [])"
proof (cases b)
  case (Some n)
  then show ?thesis
    using parse_bound_words(1) [of "''LIMIT''" n "bound_words ''OFFSET'' d"]
      parse_bound_words(1) [of "''OFFSET''" _ "[]"] parse_bound_words(2) [of "''OFFSET''"]
    by (cases d) (simp_all add: bound_words_def)
next
  case None
  then show ?thesis
    using parse_bound_words(3) [of "''LIMIT''" "''OFFSET''" d]
      parse_bound_words(1) [of "''OFFSET''" _ "[]"] parse_bound_words(2) [of "''OFFSET''"]
    by (cases d) (simp_all add: bound_words_def)
qed

lemma parse_tail_words:
  assumes "col \<in> set BookListSortFields" and "dir = ''asc'' \<or> dir = ''desc''"
  shows "parse_tail cs (order_words col dir @ bound_words ''LIMIT'' b @ bound_words ''OFFSET'' d) =
    Some (Select cs (order_keys col dir) b d)"
proof -
  let ?r = "bound_words ''LIMIT'' b @ bound_words ''OFFSET'' d"
  obtain ws where ws: "parse_bound ''LIMIT'' ?r = Some (b, ws)" "parse_bound ''OFFSET'' ws = Some (d, [])"
    using parse_bounds by blast
  have start: "order_words col dir @ ?r = ''ORDER'' # ''BY'' # drop 2 (order_words col dir) @ ?r"
    by (simp add: order_words_def Let_def)
  have "fst ` set (order_keys col dir) \<subseteq> set BookListSortFields"
    using assms(1) by (auto simp: order_keys_def BookListSortFields_def)
  then show ?thesis
    unfolding start parse_tail_def by (simp add: parse_keys_words [OF assms] ws)
qed

lemma parse_list_words:
  "parse_select (spaced (list_words q)) =
    Some (Select (ast_conds q) (order_keys (norm_sort (q_Sort q)) (norm_order (q_Order q))) (limit_ref q) (offset_ref q))"
proof -
  let ?t = "order_words (norm_sort (q_Sort q)) (norm_order (q_Order q)) @
      bound_words ''LIMIT'' (limit_ref q) @ bound_words ''OFFSET'' (offset_ref q)"
  note tail = parse_tail_words [OF norm_sort_field norm_order_dir, of _ "q_Sort q" "q_Order q" "limit_ref q" "offset_ref q"]
  have split: "split_on (CHR '' '') (spaced (list_words q)) = list_words q"
    by (rule split_join [OF list_words_solid]) (simp add: list_words_def select_head_def)
  have parts: "take 9 (list_words q) = select_head" "drop 9 (list_words q) = where_words q @ ?t"
    by (simp_all add: list_words_def select_head_def)
  have hd: "?t = ''ORDER'' # tl ?t" by (simp add: order_words_def Let_def)
  show ?thesis
  proof (cases "ast_conds q = []")
    case True
    obtain xs where xs: "?t = ''ORDER'' # xs" using hd by blast
    have "drop 9 (list_words q) = ''ORDER'' # xs" unfolding parts(2) using True xs by (simp add: where_words_def)
    then show ?thesis
      using tail [of "[]", unfolded xs] True by (simp add: parse_select_def split parts(1) Let_def)
  next
    case False
    have "parse_conds (and_words (ast_conds q) @ ?t) = Some (ast_conds q, ?t)"
      by (rule parse_and_words [OF False ast_conds_ok]) (subst hd, simp)
    with tail [of "ast_conds q"] False show ?thesis
      by (simp add: parse_select_def split parts where_words_def Let_def)
  qed
qed

text \<open>The order and the bounds of the parsed statement.\<close>

lemma order_keys_le:
  assumes "dir = ''asc'' \<or> dir = ''desc''"
  shows "order_le s (order_keys col dir) = row_le s col dir"
proof (intro ext)
  fix a b
  have "sort_value s ''id'' r = SqlInt (br_ID r)" for r by (simp add: sort_value_def)
  with assms show "order_le s (order_keys col dir) a b = row_le s col dir a b"
    by (auto simp: order_keys_def row_le_def Let_def less_sql_value_def)
qed

theorem pg_select_build: "pg_select (fst (build_list lower q)) (snd (build_list lower q)) s = Inr (run_list lower q s)"
proof -
  let ?args = "snd (build_list lower q)"
  obtain ps where ps: "those (map (cond_holds s ?args) (ast_conds q)) = Some ps"
      "\<forall>r. (\<forall>p \<in> set ps. p r) \<longleftrightarrow> row_matches s lower q r"
    using list_conds_meaning [of s lower q] unfolding build_list_args by blast
  have bounds: "sql_bound ?args (-1) (limit_ref q) = Some (if q_Limit q \<ge> 0 then q_Limit q else -1)"
      "sql_bound ?args 0 (offset_ref q) = Some (if q_Offset q > 0 then q_Offset q else 0)"
    by (auto simp: sql_bound_def limit_ref_def offset_ref_def sql_int_arg_def build_list_args list_conds_args nth_append)
  have page: "page (if q_Offset q > 0 then q_Offset q else 0) (if q_Limit q \<ge> 0 then q_Limit q else -1) xs =
      page (q_Offset q) (q_Limit q) xs" for xs :: "book_row list"
    by (simp add: page_def)
  have lim: "limit_ref q = None \<longleftrightarrow> q_Limit q < 0" by (simp add: limit_ref_def)
  have rows: "(\<lambda>r. \<forall>p \<in> set ps. p r) = row_matches s lower q" by (rule ext) (simp only: ps(2))
  have "pg_select (fst (build_list lower q)) ?args s =
      (if (if q_Limit q \<ge> 0 then q_Limit q else -1) < 0 \<and> limit_ref q \<noteq> None
         then Inl (PgError ''2201W'' '''' ''LIMIT must not be negative'')
       else if (if q_Offset q > 0 then q_Offset q else 0) < 0 then Inl (PgError ''2201X'' '''' ''OFFSET must not be negative'')
       else Inr (run_list lower q s))"
    unfolding pg_select_def build_list_text parse_list_words option.case sql_select.case ps(1) bounds rows prod.case
      order_keys_le [OF norm_order_dir] page run_list_def ..
  then show ?thesis by (simp add: lim)
qed

end
