(* ===== verification/World.thy ===== *)
theory World
  imports Models
begin

text \<open>
  The interfaces the services are written against, as records of operations (an interface
  value of Go is such a dictionary; a nil interface is \<open>None\<close>), and the state they act on.
  Each operation works on the state of its own provider:
  \<^item> \<open>'s\<close>, the database behind the persistence interfaces;
  \<^item> \<open>'r\<close>, the Redis server behind \<open>cache.Cache\<close>;
  \<^item> \<open>'p\<close>, the transport behind \<open>events.Publisher\<close>.
  A \<open>world\<close> is those three, the run-time environment, the two package-level secrets, the
  windows of the in-process rate limiter (\<open>memoryRateLimitStore.windows\<close>: count and reset
  time of each client), the counter \<open>events.PublishTotal\<close> (as the list of its increments,
  newest first) and the recorded metrics, access log and spans. \<open>on_store\<close>,
  \<open>on_redis\<close>, \<open>on_pub\<close> and \<open>on_rt\<close> lift an operation to the world and change nothing else,
  which the collection \<open>frame\<close> records.
\<close>

section \<open>Interfaces\<close>

record 'r Cache =
  c_Get :: "string \<Rightarrow> 'r \<Rightarrow> (go_error + string) \<times> 'r"
  c_Set :: "string \<Rightarrow> string \<Rightarrow> duration \<Rightarrow> 'r \<Rightarrow> (go_error + unit) \<times> 'r"
  c_Incr :: "string \<Rightarrow> 'r \<Rightarrow> (go_error + int) \<times> 'r"
  c_Eval :: "string \<Rightarrow> string list \<Rightarrow> int list \<Rightarrow> 'r \<Rightarrow> (go_error + int) \<times> 'r"
  c_Del :: "string list \<Rightarrow> 'r \<Rightarrow> (go_error + int) \<times> 'r"

record 's BookPersistence =
  bk_List :: "BookListQuery \<Rightarrow> 's \<Rightarrow> (go_error + Book list) \<times> 's"
  bk_Create :: "Book \<Rightarrow> 's \<Rightarrow> (go_error + Book) \<times> 's"
  bk_FirstByID :: "uint \<Rightarrow> 's \<Rightarrow> (go_error + Book) \<times> 's"
  bk_UpdateFields :: "uint \<Rightarrow> string \<Rightarrow> string \<Rightarrow> 's \<Rightarrow> (go_error + Book) \<times> 's"
  bk_PatchFields ::
    "uint \<Rightarrow> string option \<Rightarrow> string option \<Rightarrow> 's \<Rightarrow> (go_error + Book) \<times> 's"
  bk_DeleteByID :: "uint \<Rightarrow> 's \<Rightarrow> (go_error + unit) \<times> 's"

record 's UserPersistence =
  us_FindByUsername :: "string \<Rightarrow> 's \<Rightarrow> (go_error + User) \<times> 's"
  us_FindByID :: "uint \<Rightarrow> 's \<Rightarrow> (go_error + User) \<times> 's"
  us_Create :: "User \<Rightarrow> 's \<Rightarrow> (go_error + User) \<times> 's"

record 's RefreshTokenPersistence =
  rf_Create :: "RefreshToken \<Rightarrow> 's \<Rightarrow> (go_error + RefreshToken) \<times> 's"
  rf_FindByHash :: "string \<Rightarrow> 's \<Rightarrow> (go_error + RefreshToken) \<times> 's"
  rf_RotateAtomically ::
    "uint \<Rightarrow> time \<Rightarrow> RefreshToken \<Rightarrow> 's \<Rightarrow> (go_error + RefreshToken) \<times> 's"
  rf_RevokeFamily :: "string \<Rightarrow> time \<Rightarrow> 's \<Rightarrow> (go_error + unit) \<times> 's"
  rf_RevokeAllForUser :: "uint \<Rightarrow> time \<Rightarrow> 's \<Rightarrow> (go_error + unit) \<times> 's"

record 'p Publisher =
  pb_Publish :: "Event \<Rightarrow> 'p \<Rightarrow> (go_error + unit) \<times> 'p"
  pb_Close :: "'p \<Rightarrow> (go_error + unit) \<times> 'p"

section \<open>Observability\<close>

text \<open>
  What the middlewares record of the requests: the Prometheus series of \<open>metrics.go\<close>, the
  access-log queue and lines of \<open>logger.go\<close>, the ended spans of \<open>tracing.go\<close>.
\<close>

record log_entry =
  le_Method :: string
  le_Path :: string
  le_Status :: int
  le_Duration :: duration
  le_IP :: string
  le_UserAgent :: string
  le_RequestID :: string
  le_Trace :: "(string \<times> string) option"

datatype log_line = RequestLine log_entry | DropWarning uint | InsertFailed

record span =
  sp_Name :: string
  sp_Attrs :: "(string \<times> string) list"
  sp_StatusCode :: int
  sp_Error :: "string option"

record observability =
  ob_requests :: "string \<times> string \<times> string \<Rightarrow> nat"
  ob_duration :: "string \<times> string \<Rightarrow> duration list"
  ob_inFlight :: int
  ob_ch :: "log_entry list"
  ob_dropped :: uint
  ob_log :: "log_line list"
  ob_spans :: "span list"

section \<open>The world\<close>

record ('s, 'r, 'p) world =
  w_store :: 's
  w_redis :: 'r
  w_pub :: 'p
  w_rt :: go_rt
  w_jwtkey :: string
  w_apikey :: string
  w_windows :: "string \<Rightarrow> (int \<times> time) option"
  w_published :: "(string \<times> string) list"
  w_obs :: observability

definition on_store :: "('s \<Rightarrow> 'x \<times> 's) \<Rightarrow> ('s, 'r, 'p) world \<Rightarrow> 'x \<times> ('s, 'r, 'p) world" where
  "on_store f w = (let (x, s) = f (w_store w) in (x, w\<lparr>w_store := s\<rparr>))"

definition on_redis :: "('r \<Rightarrow> 'x \<times> 'r) \<Rightarrow> ('s, 'r, 'p) world \<Rightarrow> 'x \<times> ('s, 'r, 'p) world" where
  "on_redis f w = (let (x, r) = f (w_redis w) in (x, w\<lparr>w_redis := r\<rparr>))"

definition on_pub :: "('p \<Rightarrow> 'x \<times> 'p) \<Rightarrow> ('s, 'r, 'p) world \<Rightarrow> 'x \<times> ('s, 'r, 'p) world" where
  "on_pub f w = (let (x, p) = f (w_pub w) in (x, w\<lparr>w_pub := p\<rparr>))"

definition on_rt :: "(go_rt \<Rightarrow> 'x \<times> go_rt) \<Rightarrow> ('s, 'r, 'p) world \<Rightarrow> 'x \<times> ('s, 'r, 'p) world" where
  "on_rt f w = (let (x, r) = f (w_rt w) in (x, w\<lparr>w_rt := r\<rparr>))"

lemma on_store_eq: "on_store f w = (fst (f (w_store w)), w\<lparr>w_store := snd (f (w_store w))\<rparr>)"
  by (simp add: on_store_def split: prod.splits)

lemma on_redis_eq: "on_redis f w = (fst (f (w_redis w)), w\<lparr>w_redis := snd (f (w_redis w))\<rparr>)"
  by (simp add: on_redis_def split: prod.splits)

lemma on_pub_eq: "on_pub f w = (fst (f (w_pub w)), w\<lparr>w_pub := snd (f (w_pub w))\<rparr>)"
  by (simp add: on_pub_def split: prod.splits)

lemma on_rt_eq: "on_rt f w = (fst (f (w_rt w)), w\<lparr>w_rt := snd (f (w_rt w))\<rparr>)"
  by (simp add: on_rt_def split: prod.splits)

lemmas on_world = on_store_eq on_redis_eq on_pub_eq on_rt_eq

text \<open>The store and the token state are untouched by what runs on the other parts.\<close>

lemma on_redis_store [frame, simp]: "w_store (snd (on_redis f w)) = w_store w"
  by (simp add: on_redis_eq)

lemma on_pub_store [frame, simp]: "w_store (snd (on_pub f w)) = w_store w"
  by (simp add: on_pub_eq)

lemma on_rt_store [frame, simp]: "w_store (snd (on_rt f w)) = w_store w"
  by (simp add: on_rt_eq)

lemma on_store_redis [frame, simp]: "w_redis (snd (on_store f w)) = w_redis w"
  by (simp add: on_store_eq)

lemma on_pub_redis [frame, simp]: "w_redis (snd (on_pub f w)) = w_redis w"
  by (simp add: on_pub_eq)

lemma on_rt_redis [frame, simp]: "w_redis (snd (on_rt f w)) = w_redis w"
  by (simp add: on_rt_eq)

lemma on_store_store [simp]: "w_store (snd (on_store f w)) = snd (f (w_store w))"
  by (simp add: on_store_eq)

lemma on_redis_redis [simp]: "w_redis (snd (on_redis f w)) = snd (f (w_redis w))"
  by (simp add: on_redis_eq)

lemma on_rt_rt [simp]: "w_rt (snd (on_rt f w)) = snd (f (w_rt w))"
  by (simp add: on_rt_eq)

end
