(* ===== verification/Contracts.thy ===== *)
theory Contracts
  imports World
begin

text \<open>
  What the services may rely on: one locale per persistence interface of \<open>pkg/repository\<close>.
  The parameters are the interface value, what a database holds as its client sees it, and
  the provider's invariant; the assumptions are the laws each operation keeps. Operations may
  fail at any time; a failed operation changes nothing, and an error that names its cause
  (not found, conflict, already consumed) is true of the database. The services' lemmas (theories
  Book_Service and User_Service) are proved in these locales; the stores of theories
  Book_Store and Token_Store interpret them.
\<close>

section \<open>Books\<close>

text \<open>
  \<open>books s k\<close> is the book at the key \<open>k\<close>; \<open>key\<close> is how the provider addresses an
  identifier (the SQL store narrows it to 63 bits, so the largest identifiers share a key).
\<close>

locale book_persistence =
  fixes st :: "'s BookPersistence"
    and books :: "'s \<Rightarrow> 'k \<Rightarrow> Book option"
    and key :: "uint \<Rightarrow> 'k"
    and inv :: "'s \<Rightarrow> bool"
  assumes list_inv: "inv s \<Longrightarrow> inv (snd (bk_List st q s))"
    and create_inv: "inv s \<Longrightarrow> inv (snd (bk_Create st b s))"
    and first_inv: "inv s \<Longrightarrow> inv (snd (bk_FirstByID st i s))"
    and update_inv: "inv s \<Longrightarrow> inv (snd (bk_UpdateFields st i t a s))"
    and patch_inv: "inv s \<Longrightarrow> inv (snd (bk_PatchFields st i t' a' s))"
    and delete_inv: "inv s \<Longrightarrow> inv (snd (bk_DeleteByID st i s))"
    and list_frame: "books (snd (bk_List st q s)) = books s"
    and first_frame: "books (snd (bk_FirstByID st i s)) = books s"
    and create_fail: "bk_Create st b s = (Inl e, s') \<Longrightarrow> books s' = books s"
    and update_fail: "bk_UpdateFields st i t a s = (Inl e, s') \<Longrightarrow> books s' = books s"
    and patch_fail: "bk_PatchFields st i t' a' s = (Inl e, s') \<Longrightarrow> books s' = books s"
    and delete_fail: "bk_DeleteByID st i s = (Inl e, s') \<Longrightarrow> books s' = books s"
    and first_found: "inv s \<Longrightarrow> bk_FirstByID st i s = (Inr b, s') \<Longrightarrow> books s (key i) = Some b"
    and create_done:
      "inv s \<Longrightarrow> bk_Create st b s = (Inr b', s') \<Longrightarrow>
        books s (key (b_ID b')) = None \<and> books s' = (books s)(key (b_ID b') \<mapsto> b') \<and>
        b_Title b' = b_Title b \<and> b_Author b' = b_Author b \<and>
        key (b_OwnerID b') = key (b_OwnerID b)"
    and update_done:
      "inv s \<Longrightarrow> bk_UpdateFields st i t a s = (Inr b', s') \<Longrightarrow>
        (\<exists>b. books s (key i) = Some b \<and>
          b' = b\<lparr>b_Title := t, b_Author := a, b_UpdatedAt := b_UpdatedAt b'\<rparr>) \<and>
        books s' = (books s)(key i \<mapsto> b')"
    and patch_done:
      "inv s \<Longrightarrow> bk_PatchFields st i t' a' s = (Inr b', s') \<Longrightarrow>
        (\<exists>b. books s (key i) = Some b \<and>
          b' = b\<lparr>b_Title := (case t' of None \<Rightarrow> b_Title b | Some x \<Rightarrow> x),
                 b_Author := (case a' of None \<Rightarrow> b_Author b | Some x \<Rightarrow> x),
                 b_UpdatedAt := b_UpdatedAt b'\<rparr>) \<and>
        books s' = (books s)(key i \<mapsto> b')"
    and delete_done:
      "inv s \<Longrightarrow> bk_DeleteByID st i s = (Inr x, s') \<Longrightarrow>
        books s (key i) \<noteq> None \<and> books s' = (books s)(key i := None)"
    and first_missing:
      "inv s \<Longrightarrow> bk_FirstByID st i s = (Inl e, s') \<Longrightarrow> errors_is e ErrNotFound \<Longrightarrow>
        books s (key i) = None"
    and update_missing:
      "inv s \<Longrightarrow> bk_UpdateFields st i t a s = (Inl e, s') \<Longrightarrow> errors_is e ErrNotFound \<Longrightarrow>
        books s (key i) = None"
    and patch_missing:
      "inv s \<Longrightarrow> bk_PatchFields st i t' a' s = (Inl e, s') \<Longrightarrow> errors_is e ErrNotFound \<Longrightarrow>
        books s (key i) = None"
    and delete_missing:
      "inv s \<Longrightarrow> bk_DeleteByID st i s = (Inl e, s') \<Longrightarrow> errors_is e ErrNotFound \<Longrightarrow>
        books s (key i) = None"

section \<open>Users\<close>

text \<open>\<open>same_id\<close>: the provider cannot tell the two identifiers apart.\<close>

locale user_persistence =
  fixes us :: "'s UserPersistence"
    and users :: "'s \<Rightarrow> string \<Rightarrow> User option"
    and same_id :: "uint \<Rightarrow> uint \<Rightarrow> bool"
    and inv :: "'s \<Rightarrow> bool"
  assumes find_name_inv: "inv s \<Longrightarrow> inv (snd (us_FindByUsername us n s))"
    and find_id_inv: "inv s \<Longrightarrow> inv (snd (us_FindByID us i s))"
    and user_create_inv: "inv s \<Longrightarrow> inv (snd (us_Create us u s))"
    and find_name_frame: "users (snd (us_FindByUsername us n s)) = users s"
    and find_id_frame: "users (snd (us_FindByID us i s)) = users s"
    and user_create_fail: "us_Create us u s = (Inl e, s') \<Longrightarrow> users s' = users s"
    and find_name_found:
      "inv s \<Longrightarrow> us_FindByUsername us n s = (Inr u, s') \<Longrightarrow> users s n = Some u \<and> u_Username u = n"
    and find_id_found:
      "inv s \<Longrightarrow> us_FindByID us i s = (Inr u, s') \<Longrightarrow>
        users s (u_Username u) = Some u \<and> same_id (u_ID u) i"
    and user_create_done:
      "inv s \<Longrightarrow> us_Create us u s = (Inr u', s') \<Longrightarrow>
        users s (u_Username u) = None \<and> users s' = (users s)(u_Username u \<mapsto> u') \<and>
        u_Username u' = u_Username u \<and> u_Password u' = u_Password u \<and> u_Role u' = u_Role u"
    and find_name_missing:
      "inv s \<Longrightarrow> us_FindByUsername us n s = (Inl e, s') \<Longrightarrow> errors_is e ErrNotFound \<Longrightarrow>
        users s n = None"
    and user_create_conflict:
      "inv s \<Longrightarrow> us_Create us u s = (Inl e, s') \<Longrightarrow> errors_is e ErrUserUsernameConflict \<Longrightarrow>
        users s (u_Username u) \<noteq> None"

section \<open>Refresh tokens\<close>

text \<open>
  \<open>tokens s h\<close> is the token stored under the hash \<open>h\<close>. A token is spent by setting
  \<open>ConsumedAt\<close> and withdrawn by setting \<open>RevokedAt\<close>; \<open>UpdatedAt\<close> is the database's own
  and not part of the contract, so \<open>token_core\<close> forgets it.
\<close>

definition token_core :: "RefreshToken \<Rightarrow> RefreshToken" where
  "token_core t = t\<lparr>tk_UpdatedAt := 0\<rparr>"

definition tk_active :: "RefreshToken \<Rightarrow> bool" where
  "tk_active t \<longleftrightarrow> tk_ConsumedAt t = None \<and> tk_RevokedAt t = None"

definition revoke_if :: "(RefreshToken \<Rightarrow> bool) \<Rightarrow> time \<Rightarrow> RefreshToken \<Rightarrow> RefreshToken" where
  "revoke_if p at t = (if p t \<and> tk_RevokedAt t = None then t\<lparr>tk_RevokedAt := Some at\<rparr> else t)"

locale refresh_persistence =
  fixes rf :: "'s RefreshTokenPersistence"
    and tokens :: "'s \<Rightarrow> string \<Rightarrow> RefreshToken option"
    and same_id :: "uint \<Rightarrow> uint \<Rightarrow> bool"
    and inv :: "'s \<Rightarrow> bool"
  assumes tok_create_inv: "inv s \<Longrightarrow> inv (snd (rf_Create rf t s))"
    and tok_find_inv: "inv s \<Longrightarrow> inv (snd (rf_FindByHash rf h s))"
    and rotate_inv: "inv s \<Longrightarrow> inv (snd (rf_RotateAtomically rf i at t s))"
    and revoke_family_inv: "inv s \<Longrightarrow> inv (snd (rf_RevokeFamily rf f at s))"
    and revoke_user_inv: "inv s \<Longrightarrow> inv (snd (rf_RevokeAllForUser rf u at s))"
    and tok_find_frame: "tokens (snd (rf_FindByHash rf h s)) = tokens s"
    and tok_create_fail: "rf_Create rf t s = (Inl e, s') \<Longrightarrow> tokens s' = tokens s"
    and rotate_fail: "rf_RotateAtomically rf i at t s = (Inl e, s') \<Longrightarrow> tokens s' = tokens s"
    and revoke_family_fail: "rf_RevokeFamily rf f at s = (Inl e, s') \<Longrightarrow> tokens s' = tokens s"
    and revoke_user_fail: "rf_RevokeAllForUser rf u at s = (Inl e, s') \<Longrightarrow> tokens s' = tokens s"
    and tok_find_found:
      "inv s \<Longrightarrow> rf_FindByHash rf h s = (Inr t, s') \<Longrightarrow> tokens s h = Some t \<and> tk_TokenHash t = h"
    and tok_create_done:
      "inv s \<Longrightarrow> rf_Create rf t s = (Inr t', s') \<Longrightarrow>
        tokens s (tk_TokenHash t) = None \<and> tokens s' = (tokens s)(tk_TokenHash t \<mapsto> t') \<and>
        tk_active t' \<and> tk_TokenHash t' = tk_TokenHash t \<and> tk_FamilyID t' = tk_FamilyID t \<and>
        tk_ExpiresAt t' = tk_ExpiresAt t \<and> same_id (tk_UserID t') (tk_UserID t)"
    and rotate_done:
      "inv s \<Longrightarrow> rf_RotateAtomically rf i at t s = (Inr t', s') \<Longrightarrow>
        (\<exists>h old. tokens s h = Some old \<and> same_id (tk_ID old) i \<and> tk_active old \<and>
           tokens s (tk_TokenHash t) = None \<and>
           map_option token_core \<circ> tokens s' = (map_option token_core \<circ> tokens s)
             (h \<mapsto> token_core (old\<lparr>tk_ConsumedAt := Some at\<rparr>),
              tk_TokenHash t \<mapsto> token_core t')) \<and>
        tk_active t' \<and> tk_TokenHash t' = tk_TokenHash t \<and> tk_FamilyID t' = tk_FamilyID t \<and>
        tk_ExpiresAt t' = tk_ExpiresAt t \<and> same_id (tk_UserID t') (tk_UserID t)"
    and revoke_family_done:
      "inv s \<Longrightarrow> rf_RevokeFamily rf f at s = (Inr x, s') \<Longrightarrow>
        map_option token_core \<circ> tokens s' =
          map_option (token_core \<circ> revoke_if (\<lambda>t. tk_FamilyID t = f) at) \<circ> tokens s"
    and revoke_user_done:
      "inv s \<Longrightarrow> rf_RevokeAllForUser rf u at s = (Inr x, s') \<Longrightarrow>
        map_option token_core \<circ> tokens s' =
          map_option (token_core \<circ> revoke_if (\<lambda>t. same_id (tk_UserID t) u) at) \<circ> tokens s"
    and tok_find_missing:
      "inv s \<Longrightarrow> rf_FindByHash rf h s = (Inl e, s') \<Longrightarrow> errors_is e ErrNotFound \<Longrightarrow>
        tokens s h = None"
    and rotate_lost:
      "inv s \<Longrightarrow> rf_RotateAtomically rf i at t s = (Inl e, s') \<Longrightarrow>
        errors_is e ErrRefreshAlreadyConsumed \<Longrightarrow> tokens s h = Some t' \<Longrightarrow>
        same_id (tk_ID t') i \<Longrightarrow> \<not> tk_active t'"
    and tok_id_unique:
      "inv s \<Longrightarrow> tokens s h = Some t \<Longrightarrow> tokens s h' = Some t' \<Longrightarrow>
        same_id (tk_ID t) (tk_ID t') \<Longrightarrow> h = h'"
    and same_id_refl: "same_id i i"
    and same_id_sym: "same_id i j \<Longrightarrow> same_id j i"
    and same_id_trans: "same_id i j \<Longrightarrow> same_id j k \<Longrightarrow> same_id i k"

section \<open>Authentication\<close>

text \<open>Users and tokens in one database: the operations on either leave the other alone.\<close>

locale auth_persistence =
  user_persistence us users same_id inv + refresh_persistence rf tokens same_id inv
  for us :: "'s UserPersistence" and users and inv :: "'s \<Rightarrow> bool"
    and rf :: "'s RefreshTokenPersistence" and tokens and same_id +
  assumes find_name_tokens: "tokens (snd (us_FindByUsername us n s)) = tokens s"
    and find_id_tokens: "tokens (snd (us_FindByID us i s)) = tokens s"
    and user_create_tokens: "tokens (snd (us_Create us u s)) = tokens s"
    and tok_create_users: "users (snd (rf_Create rf t s)) = users s"
    and tok_find_users: "users (snd (rf_FindByHash rf h s)) = users s"
    and rotate_users: "users (snd (rf_RotateAtomically rf i at t s)) = users s"
    and revoke_family_users: "users (snd (rf_RevokeFamily rf f at s)) = users s"
    and revoke_user_users: "users (snd (rf_RevokeAllForUser rf i at s)) = users s"

end
