(* ===== verification/Pg_Laws.thy ===== *)
theory Pg_Laws
  imports Pg Repo_Base
begin

text \<open>
  The invariant of the database and the facts every statement gives the stores: keys are
  distinct and come from their sequence, user names and token hashes are unique, owners and
  token users are identifiers the stores narrowed (\<open>toInt64\<close>); each
  statement keeps the invariant, leaves the other tables alone, and a statement the server
  rejects changes no table. \<open>pg_stmts\<close> bundles the statements' definitions.
\<close>

definition key_ok :: "int list \<Rightarrow> int \<Rightarrow> bool" where
  "key_ok ids sq \<longleftrightarrow>
     distinct ids \<and> 1 \<le> sq \<and> sq \<le> max_int64 + 1 \<and> (\<forall>i \<in> set ids. 1 \<le> i \<and> i < sq)"

text \<open>
  What the server or the connection answers instead of running a statement: never the
  driver's no-rows error, never an error value of this program, and no report of a taken
  user name.
\<close>

definition fault_ok :: "go_error \<Rightarrow> bool" where
  "fault_ok e \<longleftrightarrow>
     \<not> is_no_rows e \<and> (\<forall>t. \<not> errors_is e t) \<and> \<not> isUsernameUniqueConstraintError e"

definition pg_ok :: "pg \<Rightarrow> bool" where
  "pg_ok s \<longleftrightarrow>
     key_ok (map br_ID (pg_books s)) (pg_books_seq s) \<and>
     key_ok (map ur_ID (pg_users s)) (pg_users_seq s) \<and>
     key_ok (map tr_ID (pg_tokens s)) (pg_tokens_seq s) \<and>
     distinct (map ur_Username (pg_users s)) \<and>
     distinct (map tr_TokenHash (pg_tokens s)) \<and>
     (\<forall>r \<in> set (pg_books s). br_OwnerID r \<in> {0..max_int64}) \<and>
     (\<forall>r \<in> set (pg_tokens s). tr_UserID r \<in> {0..max_int64}) \<and>
     (\<forall>k e. pg_fault s k = Some e \<longrightarrow> fault_ok e)"

lemma key_ok_fresh: "key_ok ids sq \<Longrightarrow> sq \<notin> set ids"
  by (auto simp: key_ok_def)

lemma key_ok_snoc: "key_ok ids sq \<Longrightarrow> sq \<le> max_int64 \<Longrightarrow> key_ok (ids @ [sq]) (sq + 1)"
  by (auto simp: key_ok_def)

lemma key_ok_skip: "key_ok ids sq \<Longrightarrow> sq \<le> max_int64 \<Longrightarrow> key_ok ids (sq + 1)"
  by (auto simp: key_ok_def)

lemma key_ok_filter: "key_ok (map k rows) sq \<Longrightarrow> key_ok (map k (filter p rows)) sq"
  by (auto simp: key_ok_def distinct_map_filter)

lemma key_ok_range: "key_ok ids sq \<Longrightarrow> i \<in> set ids \<Longrightarrow> 0 \<le> i \<and> i \<le> max_int64"
  by (force simp: key_ok_def)

lemma pg_okD:
  assumes "pg_ok s"
  shows "key_ok (map br_ID (pg_books s)) (pg_books_seq s)"
    and "key_ok (map ur_ID (pg_users s)) (pg_users_seq s)"
    and "key_ok (map tr_ID (pg_tokens s)) (pg_tokens_seq s)"
    and "distinct (map ur_Username (pg_users s))"
    and "distinct (map tr_TokenHash (pg_tokens s))"
    and "\<forall>r \<in> set (pg_books s). br_OwnerID r \<in> {0..max_int64}"
    and "\<forall>r \<in> set (pg_tokens s). tr_UserID r \<in> {0..max_int64}"
    and "pg_fault s k = Some e \<Longrightarrow> fault_ok e"
  using assms by (simp_all add: pg_ok_def)

lemma book_row_range: "pg_ok s \<Longrightarrow> r \<in> set (pg_books s) \<Longrightarrow> 0 \<le> br_ID r \<and> br_ID r \<le> max_int64"
  using key_ok_range [OF pg_okD(1)] by simp

lemma user_row_range: "pg_ok s \<Longrightarrow> r \<in> set (pg_users s) \<Longrightarrow> 0 \<le> ur_ID r \<and> ur_ID r \<le> max_int64"
  using key_ok_range [OF pg_okD(2)] by simp

lemma token_row_range: "pg_ok s \<Longrightarrow> r \<in> set (pg_tokens s) \<Longrightarrow> 0 \<le> tr_ID r \<and> tr_ID r \<le> max_int64"
  using key_ok_range [OF pg_okD(3)] by simp

section \<open>What a statement leaves alone\<close>

text \<open>The tables of a database, without the counters.\<close>

definition same_tables :: "pg \<Rightarrow> pg \<Rightarrow> bool" where
  "same_tables s t \<longleftrightarrow>
     pg_books t = pg_books s \<and> pg_users t = pg_users s \<and> pg_tokens t = pg_tokens s"

lemma pg_exec_cases:
  obtains e where "pg_fault s (pg_step s) = Some e"
      "pg_exec db f s = (Inl e, s\<lparr>pg_step := Suc (pg_step s)\<rparr>)"
  | now where "pg_fault s (pg_step s) = None"
      "now = (case db of Pool \<Rightarrow> pg_clock s (pg_step s) | Tx t \<Rightarrow> t)"
      "pg_exec db f s = f now (s\<lparr>pg_step := Suc (pg_step s)\<rparr>)"
  by (cases "pg_fault s (pg_step s)") (auto simp: pg_exec_def Let_def)

text \<open>A property that every run of the body keeps is kept by the statement.\<close>

lemma pg_exec_rule:
  assumes "\<And>e. P (Inl e, s\<lparr>pg_step := Suc (pg_step s)\<rparr>)"
    and "\<And>now. P (f now (s\<lparr>pg_step := Suc (pg_step s)\<rparr>))"
  shows "P (pg_exec db f s)"
  by (rule pg_exec_cases [of s db f]) (auto simp: assms)

lemma pg_exec_InrD:
  "pg_exec db f s = (Inr x, s') \<Longrightarrow> \<exists>now. f now (s\<lparr>pg_step := Suc (pg_step s)\<rparr>) = (Inr x, s')"
  by (auto simp: pg_exec_def Let_def split: option.splits)

lemma pg_exec_InlD:
  "pg_exec db f s = (Inl e, s') \<Longrightarrow>
    s' = s\<lparr>pg_step := Suc (pg_step s)\<rparr> \<or>
    (\<exists>now. f now (s\<lparr>pg_step := Suc (pg_step s)\<rparr>) = (Inl e, s'))"
  by (auto simp: pg_exec_def Let_def split: option.splits)

text \<open>An error is a fault of the server, or comes from the statement itself.\<close>

lemma pg_exec_error:
  assumes "pg_ok s" and "pg_exec db f s = (Inl e, s')"
  shows "fault_ok e \<or> (\<exists>now. f now (s\<lparr>pg_step := Suc (pg_step s)\<rparr>) = (Inl e, s'))"
  using assms(2) pg_okD(8) [OF assms(1)]
  by (auto simp: pg_exec_def Let_def split: option.splits)

lemma pg_ok_step [simp]: "pg_ok (s\<lparr>pg_step := k\<rparr>) = pg_ok s"
  by (simp add: pg_ok_def)

lemmas pg_stmts =
  q_CreateBook_def q_GetBook_def q_UpdateBookFields_def q_PatchBookFields_def q_DeleteBook_def
  q_CreateUser_def q_GetUserByID_def q_GetUserByUsername_def
  q_CreateRefreshToken_def q_GetRefreshTokenByHash_def q_ConsumeRefreshTokenIfActive_def
  q_RevokeRefreshFamily_def q_RevokeAllRefreshForUser_def pg_begin_def pg_commit_def

section \<open>Every statement keeps the invariant\<close>

lemma q_CreateBook_ok:
  "pg_ok s \<Longrightarrow> cbp_OwnerID arg \<in> {0..max_int64} \<Longrightarrow> pg_ok (snd (q_CreateBook db arg s))"
  unfolding q_CreateBook_def
  by (rule pg_exec_rule) (auto simp: pg_ok_def Let_def intro: key_ok_snoc key_ok_skip)

lemma q_UpdateBookFields_ok: "pg_ok s \<Longrightarrow> pg_ok (snd (q_UpdateBookFields db i t a s))"
  unfolding q_UpdateBookFields_def
  by (rule pg_exec_rule) (auto simp: pg_ok_def Let_def sql_update_keys set_sql_update)

lemma q_PatchBookFields_ok: "pg_ok s \<Longrightarrow> pg_ok (snd (q_PatchBookFields db i t a s))"
  unfolding q_PatchBookFields_def
  by (rule pg_exec_rule) (auto simp: pg_ok_def Let_def sql_update_keys set_sql_update)

lemma q_DeleteBook_ok: "pg_ok s \<Longrightarrow> pg_ok (snd (q_DeleteBook db i s))"
  unfolding q_DeleteBook_def
  by (rule pg_exec_rule) (auto simp: pg_ok_def sql_delete_def intro: key_ok_filter)

lemma q_CreateUser_ok: "pg_ok s \<Longrightarrow> pg_ok (snd (q_CreateUser db arg s))"
  unfolding q_CreateUser_def
  by (rule pg_exec_rule) (auto simp: pg_ok_def Let_def intro: key_ok_snoc key_ok_skip)

lemma q_CreateRefreshToken_ok:
  "pg_ok s \<Longrightarrow> crp_UserID arg \<in> {0..max_int64} \<Longrightarrow> pg_ok (snd (q_CreateRefreshToken db arg s))"
  unfolding q_CreateRefreshToken_def
  by (rule pg_exec_rule)
    (auto simp: pg_ok_def Let_def new_token_row_def intro: key_ok_snoc key_ok_skip)

lemma q_Consume_ok: "pg_ok s \<Longrightarrow> pg_ok (snd (q_ConsumeRefreshTokenIfActive db i at s))"
  unfolding q_ConsumeRefreshTokenIfActive_def
  by (rule pg_exec_rule) (auto simp: pg_ok_def Let_def sql_update_keys set_sql_update)

lemma q_RevokeFamily_ok: "pg_ok s \<Longrightarrow> pg_ok (snd (q_RevokeRefreshFamily db f at s))"
  unfolding q_RevokeRefreshFamily_def
  by (rule pg_exec_rule) (auto simp: pg_ok_def sql_update_keys set_sql_update)

lemma q_RevokeAll_ok: "pg_ok s \<Longrightarrow> pg_ok (snd (q_RevokeAllRefreshForUser db u at s))"
  unfolding q_RevokeAllRefreshForUser_def
  by (rule pg_exec_rule) (auto simp: pg_ok_def sql_update_keys set_sql_update)

lemma q_selects_tables:
  "same_tables s (snd (q_GetBook db i s))"
  "same_tables s (snd (q_GetUserByID db i s))"
  "same_tables s (snd (q_GetUserByUsername db n s))"
  "same_tables s (snd (q_GetRefreshTokenByHash db h s))"
  unfolding pg_stmts by (rule pg_exec_rule; simp add: same_tables_def)+

lemma q_selects_ok:
  assumes "pg_ok s"
  shows "pg_ok (snd (q_GetBook db i s))" "pg_ok (snd (q_GetUserByID db i s))"
    "pg_ok (snd (q_GetUserByUsername db n s))" "pg_ok (snd (q_GetRefreshTokenByHash db h s))"
    "pg_ok (snd (pg_begin s))" "pg_ok (snd (pg_commit s))"
  unfolding pg_stmts using assms by (rule_tac [!] pg_exec_rule) simp_all

section \<open>What a statement that succeeds does to its table\<close>

lemma query_row_Inr [simp]: "query_row r = Inr x \<longleftrightarrow> r = Some x"
  and query_row_Inl: "query_row r = Inl e \<longleftrightarrow> r = None \<and> e = ErrNoRows"
  by (auto simp: query_row_def split: option.splits)

abbreviation book_table :: "pg \<Rightarrow> int \<Rightarrow> book_row option" where
  "book_table s \<equiv> table_of br_ID (pg_books s)"

abbreviation user_table :: "pg \<Rightarrow> string \<Rightarrow> user_row option" where
  "user_table s \<equiv> table_of ur_Username (pg_users s)"

abbreviation token_table :: "pg \<Rightarrow> string \<Rightarrow> token_row option" where
  "token_table s \<equiv> table_of tr_TokenHash (pg_tokens s)"

lemma q_CreateBook_done:
  assumes "pg_ok s" and "q_CreateBook db arg s = (Inr row, s')"
  shows "book_table s (br_ID row) = None" "book_table s' = (book_table s)(br_ID row \<mapsto> row)"
    "br_OwnerID row = cbp_OwnerID arg" "br_Title row = cbp_Title arg"
    "br_Author row = cbp_Author arg" "0 \<le> br_ID row" "br_ID row \<le> max_int64"
    "pg_users s' = pg_users s" "pg_tokens s' = pg_tokens s"
proof -
  have seq: "1 \<le> pg_books_seq s" using pg_okD(1) [OF assms(1)] by (simp add: key_ok_def)
  have row: "br_ID row = pg_books_seq s" "br_OwnerID row = cbp_OwnerID arg"
      "br_Title row = cbp_Title arg" "br_Author row = cbp_Author arg"
      "pg_books_seq s \<le> max_int64" "br_ID row \<notin> br_ID ` set (pg_books s)"
      "pg_books s' = pg_books s @ [row]" "pg_users s' = pg_users s" "pg_tokens s' = pg_tokens s"
    using pg_exec_InrD [OF assms(2) [unfolded q_CreateBook_def]]
    by (auto simp: Let_def split: if_splits)
  show "book_table s (br_ID row) = None" "book_table s' = (book_table s)(br_ID row \<mapsto> row)"
    using row(6,7) by (simp_all add: table_of_None table_of_snoc)
  show "br_OwnerID row = cbp_OwnerID arg" "br_Title row = cbp_Title arg"
    "br_Author row = cbp_Author arg" "0 \<le> br_ID row" "br_ID row \<le> max_int64"
    "pg_users s' = pg_users s" "pg_tokens s' = pg_tokens s"
    using row seq by simp_all
qed

lemma q_GetBook_done: "q_GetBook db i s = (Inr row, s') \<Longrightarrow> book_table s i = Some row"
  unfolding q_GetBook_def by (drule pg_exec_InrD) (auto simp: table_of_def)

lemma q_UpdateBookFields_done:
  "q_UpdateBookFields db i t a s = (Inr row, s') \<Longrightarrow>
    (\<exists>old now. book_table s i = Some old \<and>
       row = old\<lparr>br_Title := t, br_Author := a, br_UpdatedAt := now\<rparr>) \<and>
    book_table s' = (book_table s)(i \<mapsto> row)"
  unfolding q_UpdateBookFields_def
  by (drule pg_exec_InrD)
    (auto simp: Let_def table_of_def [symmetric] table_of_update)

lemma q_PatchBookFields_done:
  "q_PatchBookFields db i t a s = (Inr row, s') \<Longrightarrow>
    (\<exists>old now. book_table s i = Some old \<and>
       row = old\<lparr>br_Title := coalesce t (br_Title old), br_Author := coalesce a (br_Author old),
                 br_UpdatedAt := now\<rparr>) \<and>
    book_table s' = (book_table s)(i \<mapsto> row)"
  unfolding q_PatchBookFields_def
  by (drule pg_exec_InrD)
    (auto simp: Let_def table_of_def [symmetric] table_of_update)

lemma q_DeleteBook_done:
  "q_DeleteBook db i s = (Inr n, s') \<Longrightarrow>
    (n = 0 \<longleftrightarrow> book_table s i = None) \<and> book_table s' = (book_table s)(i := None)"
  unfolding q_DeleteBook_def
  by (drule pg_exec_InrD) (auto simp: table_of_delete sql_count_zero table_of_None)

text \<open>A statement that fails leaves the tables as they are.\<close>

lemma q_CreateBook_fail: "q_CreateBook db arg s = (Inl e, s') \<Longrightarrow> same_tables s s'"
  unfolding q_CreateBook_def
  by (drule pg_exec_InlD) (auto simp: same_tables_def Let_def split: if_splits)

lemma q_GetBook_fail: "q_GetBook db i s = (Inl e, s') \<Longrightarrow> same_tables s s'"
  unfolding q_GetBook_def by (drule pg_exec_InlD) (auto simp: same_tables_def)

lemma q_UpdateBookFields_fail:
  "q_UpdateBookFields db i t a s = (Inl e, s') \<Longrightarrow> book_table s' = book_table s"
  unfolding q_UpdateBookFields_def
  by (drule pg_exec_InlD)
    (auto simp: Let_def table_of_def [symmetric] table_of_update query_row_Inl)

lemma q_PatchBookFields_fail:
  "q_PatchBookFields db i t a s = (Inl e, s') \<Longrightarrow> book_table s' = book_table s"
  unfolding q_PatchBookFields_def
  by (drule pg_exec_InlD)
    (auto simp: Let_def table_of_def [symmetric] table_of_update query_row_Inl)

lemma q_DeleteBook_fail: "q_DeleteBook db i s = (Inl e, s') \<Longrightarrow> same_tables s s'"
  unfolding q_DeleteBook_def by (drule pg_exec_InlD) (auto simp: same_tables_def)

section \<open>Users and refresh tokens\<close>

lemma q_CreateUser_done:
  assumes "q_CreateUser db arg s = (Inr row, s')"
  shows "user_table s (ur_Username row) = None" "user_table s' = (user_table s)(ur_Username row \<mapsto> row)"
    "ur_Username row = cup_Username arg" "ur_Password row = cup_Password arg"
    "ur_Role row = cup_Role arg" "length (cup_Role arg) \<le> 32"
    "pg_books s' = pg_books s" "pg_tokens s' = pg_tokens s"
proof -
  have row: "ur_Username row = cup_Username arg" "ur_Password row = cup_Password arg"
      "ur_Role row = cup_Role arg" "length (cup_Role arg) \<le> 32"
      "ur_Username row \<notin> ur_Username ` set (pg_users s)"
      "pg_users s' = pg_users s @ [row]" "pg_books s' = pg_books s" "pg_tokens s' = pg_tokens s"
    using pg_exec_InrD [OF assms [unfolded q_CreateUser_def]]
    by (auto simp: Let_def split: if_splits)
  show "user_table s (ur_Username row) = None" "user_table s' = (user_table s)(ur_Username row \<mapsto> row)"
    using row(5,6) by (simp_all add: table_of_None table_of_snoc)
  show "ur_Username row = cup_Username arg" "ur_Password row = cup_Password arg"
    "ur_Role row = cup_Role arg" "length (cup_Role arg) \<le> 32"
    "pg_books s' = pg_books s" "pg_tokens s' = pg_tokens s"
    using row by simp_all
qed

lemma q_CreateUser_fail: "q_CreateUser db arg s = (Inl e, s') \<Longrightarrow> same_tables s s'"
  unfolding q_CreateUser_def
  by (drule pg_exec_InlD) (auto simp: same_tables_def Let_def split: if_splits)

lemma q_GetUserByUsername_done:
  "q_GetUserByUsername db n s = (Inr row, s') \<Longrightarrow> user_table s n = Some row \<and> ur_Username row = n"
  unfolding q_GetUserByUsername_def
  by (drule pg_exec_InrD) (auto simp: table_of_def dest: sql_first_Some)

lemma q_GetUserByID_done:
  assumes "pg_ok s" and "q_GetUserByID db i s = (Inr row, s')"
  shows "user_table s (ur_Username row) = Some row" "ur_ID row = i"
proof -
  have "sql_first (\<lambda>r. ur_ID r = i) (pg_users s) = Some row"
    using pg_exec_InrD [OF assms(2) [unfolded q_GetUserByID_def]] by auto
  then have "row \<in> set (pg_users s)" "ur_ID row = i" by (auto dest: sql_first_Some)
  then show "user_table s (ur_Username row) = Some row" "ur_ID row = i"
    using table_of_in [OF pg_okD(4) [OF assms(1)]] by auto
qed

lemma q_CreateRefreshToken_done:
  assumes "q_CreateRefreshToken db arg s = (Inr row, s')"
  shows "token_table s (tr_TokenHash row) = None"
    "token_table s' = (token_table s)(tr_TokenHash row \<mapsto> row)"
    "\<exists>now. row = new_token_row (tr_ID row) arg now"
    "pg_books s' = pg_books s" "pg_users s' = pg_users s"
proof -
  have row: "\<exists>now. row = new_token_row (tr_ID row) arg now"
      "tr_TokenHash row \<notin> tr_TokenHash ` set (pg_tokens s)"
      "pg_tokens s' = pg_tokens s @ [row]" "pg_books s' = pg_books s" "pg_users s' = pg_users s"
    using pg_exec_InrD [OF assms [unfolded q_CreateRefreshToken_def]]
    by (auto simp: Let_def new_token_row_def split: if_splits)
  show "token_table s (tr_TokenHash row) = None"
    "token_table s' = (token_table s)(tr_TokenHash row \<mapsto> row)"
    using row(2,3) by (simp_all add: table_of_None table_of_snoc)
  show "\<exists>now. row = new_token_row (tr_ID row) arg now"
    "pg_books s' = pg_books s" "pg_users s' = pg_users s"
    using row by simp_all
qed

lemma q_CreateRefreshToken_fail: "q_CreateRefreshToken db arg s = (Inl e, s') \<Longrightarrow> same_tables s s'"
  unfolding q_CreateRefreshToken_def
  by (drule pg_exec_InlD) (auto simp: same_tables_def Let_def split: if_splits)

lemma q_GetRefreshTokenByHash_done:
  "q_GetRefreshTokenByHash db h s = (Inr row, s') \<Longrightarrow>
    token_table s h = Some row \<and> tr_TokenHash row = h"
  unfolding q_GetRefreshTokenByHash_def
  by (drule pg_exec_InrD) (auto simp: table_of_def dest: sql_first_Some)

text \<open>
  The conditional update that spends a token: it reports 1 exactly when the row of that id
  was there and active, and then that row alone is spent.
\<close>

lemma q_Consume_done:
  assumes "pg_ok s" and "q_ConsumeRefreshTokenIfActive db i at s = (Inr n, s')"
  shows "n = 0 \<or> n = 1" "pg_books s' = pg_books s" "pg_users s' = pg_users s"
    "n = 1 \<longleftrightarrow> (\<exists>r \<in> set (pg_tokens s). tr_ID r = i \<and> token_active r)"
    "\<exists>now. pg_tokens s' = sql_update (\<lambda>r. tr_ID r = i \<and> token_active r)
       (\<lambda>r. r\<lparr>tr_ConsumedAt := Some at, tr_UpdatedAt := now\<rparr>) (pg_tokens s)"
proof -
  let ?p = "\<lambda>r. tr_ID r = i \<and> token_active r"
  have n: "n = int (sql_count ?p (pg_tokens s))" "pg_books s' = pg_books s" "pg_users s' = pg_users s"
    "\<exists>now. pg_tokens s' = sql_update ?p
       (\<lambda>r. r\<lparr>tr_ConsumedAt := Some at, tr_UpdatedAt := now\<rparr>) (pg_tokens s)"
    using pg_exec_InrD [OF assms(2) [unfolded q_ConsumeRefreshTokenIfActive_def]]
    by (auto simp: Let_def)
  have "distinct (map tr_ID (pg_tokens s))" using pg_okD(3) [OF assms(1)] by (simp add: key_ok_def)
  then have le: "sql_count ?p (pg_tokens s) \<le> 1"
    by (rule sql_count_key_le_1 [where v = i]) simp
  then show "n = 0 \<or> n = 1" by (auto simp: n(1) le_Suc_eq)
  show "n = 1 \<longleftrightarrow> (\<exists>r \<in> set (pg_tokens s). ?p r)"
    using le sql_count_zero [of ?p "pg_tokens s"] by (auto simp: n(1) le_Suc_eq)
  show "pg_books s' = pg_books s" "pg_users s' = pg_users s"
    "\<exists>now. pg_tokens s' = sql_update ?p
       (\<lambda>r. r\<lparr>tr_ConsumedAt := Some at, tr_UpdatedAt := now\<rparr>) (pg_tokens s)"
    using n by simp_all
qed

lemma q_Revoke_fail:
  "q_RevokeRefreshFamily db f at s = (Inl e, s') \<Longrightarrow> same_tables s s'"
  "q_RevokeAllRefreshForUser db u at s = (Inl e, s') \<Longrightarrow> same_tables s s'"
  unfolding q_RevokeRefreshFamily_def q_RevokeAllRefreshForUser_def
  by (auto dest!: pg_exec_InlD simp: same_tables_def)

lemma q_RevokeFamily_done:
  assumes "pg_ok s" and "q_RevokeRefreshFamily db f at s = (Inr x, s')"
  shows "\<exists>now. token_table s' = (\<lambda>h. map_option
    (\<lambda>r. if tr_FamilyID r = f \<and> tr_RevokedAt r = None
         then r\<lparr>tr_RevokedAt := Some at, tr_UpdatedAt := now\<rparr> else r) (token_table s h))"
  using pg_exec_InrD [OF assms(2) [unfolded q_RevokeRefreshFamily_def]]
    pg_okD(5) [OF assms(1)]
  by (auto simp: fun_eq_iff table_of_update_pred)

lemma q_RevokeAll_done:
  assumes "pg_ok s" and "q_RevokeAllRefreshForUser db u at s = (Inr x, s')"
  shows "\<exists>now. token_table s' = (\<lambda>h. map_option
    (\<lambda>r. if tr_UserID r = u \<and> tr_RevokedAt r = None
         then r\<lparr>tr_RevokedAt := Some at, tr_UpdatedAt := now\<rparr> else r) (token_table s h))"
  using pg_exec_InrD [OF assms(2) [unfolded q_RevokeAllRefreshForUser_def]]
    pg_okD(5) [OF assms(1)]
  by (auto simp: fun_eq_iff table_of_update_pred)

section \<open>What an error of a statement means\<close>

lemma fault_not_found: "fault_ok e \<Longrightarrow> \<not> IsNotFound (mapNotFound e)"
  by (auto simp: fault_ok_def mapNotFound_def IsNotFound_def)

lemma q_GetBook_missing:
  assumes "pg_ok s" and "q_GetBook db i s = (Inl e, s')" and "IsNotFound (mapNotFound e)"
  shows "book_table s i = None"
  using pg_exec_error [OF assms(1) assms(2) [unfolded q_GetBook_def]] assms(3) fault_not_found
  by (auto simp: query_row_Inl table_of_def)

lemma q_UpdateBookFields_missing:
  assumes "pg_ok s" and "q_UpdateBookFields db i t a s = (Inl e, s')"
    and "IsNotFound (mapNotFound e)"
  shows "book_table s i = None"
  using pg_exec_error [OF assms(1) assms(2) [unfolded q_UpdateBookFields_def]] assms(3)
    fault_not_found
  by (auto simp: Let_def query_row_Inl table_of_def [symmetric] table_of_update)

lemma q_PatchBookFields_missing:
  assumes "pg_ok s" and "q_PatchBookFields db i t a s = (Inl e, s')"
    and "IsNotFound (mapNotFound e)"
  shows "book_table s i = None"
  using pg_exec_error [OF assms(1) assms(2) [unfolded q_PatchBookFields_def]] assms(3)
    fault_not_found
  by (auto simp: Let_def query_row_Inl table_of_def [symmetric] table_of_update)

lemma q_DeleteBook_error:
  assumes "pg_ok s" and "q_DeleteBook db i s = (Inl e, s')"
  shows "fault_ok e"
  using pg_exec_error [OF assms(1) assms(2) [unfolded q_DeleteBook_def]] by auto

lemma q_GetUserByUsername_missing:
  assumes "pg_ok s" and "q_GetUserByUsername db n s = (Inl e, s')" and "IsNotFound (mapNotFound e)"
  shows "user_table s n = None"
  using pg_exec_error [OF assms(1) assms(2) [unfolded q_GetUserByUsername_def]] assms(3)
    fault_not_found
  by (auto simp: query_row_Inl table_of_def)

lemma users_pkey_not_username:
  "\<not> isUsernameUniqueConstraintError (unique_violation ''users_pkey'')"
  "\<not> isUsernameUniqueConstraintError value_too_long"
  "\<not> isUsernameUniqueConstraintError seq_exhausted"
  by code_simp+

lemma q_CreateUser_conflict:
  assumes "pg_ok s" and "q_CreateUser db arg s = (Inl e, s')"
    and "isUsernameUniqueConstraintError e"
  shows "user_table s (cup_Username arg) \<noteq> None"
  using pg_exec_error [OF assms(1) assms(2) [unfolded q_CreateUser_def]] assms(3)
    users_pkey_not_username
  by (auto simp: Let_def fault_ok_def table_of_None split: if_splits)

lemma q_GetRefreshTokenByHash_missing:
  assumes "pg_ok s" and "q_GetRefreshTokenByHash db h s = (Inl e, s')"
    and "IsNotFound (mapNotFound e)"
  shows "token_table s h = None"
  using pg_exec_error [OF assms(1) assms(2) [unfolded q_GetRefreshTokenByHash_def]] assms(3)
    fault_not_found
  by (auto simp: query_row_Inl table_of_def)

lemma rotation_error:
  assumes "pg_ok s"
  shows "pg_begin s = (Inl e, s') \<Longrightarrow> fault_ok e" "pg_commit s = (Inl e, s') \<Longrightarrow> fault_ok e"
    "q_ConsumeRefreshTokenIfActive db i at s = (Inl e, s') \<Longrightarrow> fault_ok e"
  using pg_exec_error [OF assms] by (auto simp: pg_stmts Let_def)

lemma q_CreateRefreshToken_error:
  assumes "pg_ok s" and "q_CreateRefreshToken db arg s = (Inl e, s')"
  shows "\<not> errors_is e t"
  using pg_exec_error [OF assms(1) assms(2) [unfolded q_CreateRefreshToken_def]]
  by (auto simp: Let_def fault_ok_def seq_exhausted_def value_too_long_def unique_violation_def
      split: if_splits)

end
