(* ===== verification/Redis_Script.thy ===== *)
theory Redis_Script
  imports World Go_Strconv
begin

text \<open>
  What Redis does with a script that is sent to it as text: \<open>parse_script\<close> reads the part of Lua that such
  scripts use (local variables, \<open>redis.call\<close> of \<open>INCR\<close> and \<open>PEXPIRE\<close>, comparisons, \<open>return\<close>, the tables \<open>KEYS\<close>
  and \<open>ARGV\<close>) and refuses anything else; \<open>run_script\<close> runs it on the keys of the server. A script is atomic,
  and an error in it keeps what it did so far.
\<close>

section \<open>Keys\<close>

type_synonym redis_content = "string \<Rightarrow> (string \<times> time option) option"

text \<open>The value under a key at a time of the server.\<close>

definition live :: "time \<Rightarrow> (string \<times> time option) option \<Rightarrow> string option" where
  "live now e =
     (case e of
        None \<Rightarrow> None
      | Some (v, None) \<Rightarrow> Some v
      | Some (v, Some d) \<Rightarrow> if now < d then Some v else None)"

text \<open>
  \<open>INCR\<close> starts from 0 when there is no live value, keeps the deadline of a live one, and
  fails on a value that is not an integer. The result of a counter command is the entry it
  leaves and its number; \<open>expire\<close> is a lifetime that a count of 1 gets.
\<close>

definition incr_entry ::
  "time \<Rightarrow> duration option \<Rightarrow> (string \<times> time option) option \<Rightarrow>
     ((string \<times> time option) \<times> int) option" where
  "incr_entry now expire e =
     (case live now e of
        None \<Rightarrow> Some ((show_int 1, map_option (\<lambda>d. now + d) expire), 1)
      | Some v \<Rightarrow>
          (case ParseInt v of
             None \<Rightarrow> None
           | Some n \<Rightarrow>
               if n = max_int64 then None
               else Some ((show_int (n + 1),
                           if n + 1 = 1 \<and> expire \<noteq> None then map_option (\<lambda>d. now + d) expire
                           else snd (the e)), n + 1)))"

section \<open>Reading a script\<close>

datatype lua_token = TWord string | TNum nat | TText string | TSym string

definition name_char :: "char \<Rightarrow> bool" where
  "name_char c \<longleftrightarrow>
     c \<in> set ''abcdefghijklmnopqrstuvwxyzABCDEFGHIJKLMNOPQRSTUVWXYZ0123456789_''"

definition word_token :: "string \<Rightarrow> lua_token" where
  "word_token w = (case parse_nat w of None \<Rightarrow> TWord w | Some n \<Rightarrow> TNum n)"

function lua_tokens :: "string \<Rightarrow> lua_token list option" where
  "lua_tokens [] = Some []"
| "lua_tokens (c # cs) =
     (if c = CHR '' '' \<or> c = CHR 0x0A then lua_tokens cs
      else if name_char c then
        map_option (\<lambda>ts. word_token (takeWhile name_char (c # cs)) # ts) (lua_tokens (dropWhile name_char cs))
      else if c = CHR 0x22 then
        (case dropWhile (\<lambda>d. d \<noteq> CHR 0x22) cs of
           [] \<Rightarrow> None
         | q # rest \<Rightarrow> map_option (\<lambda>ts. TText (takeWhile (\<lambda>d. d \<noteq> CHR 0x22) cs) # ts) (lua_tokens rest))
      else if c = CHR ''='' \<and> take 1 cs = ''='' then map_option (\<lambda>ts. TSym ''=='' # ts) (lua_tokens (drop 1 cs))
      else if c \<in> set ''=.,()[]'' then map_option (\<lambda>ts. TSym [c] # ts) (lua_tokens cs)
      else None)"
  by pat_completeness auto
termination
proof (relation "measure length")
  fix c :: char and cs q rest
  assume "dropWhile (\<lambda>d. d \<noteq> CHR 0x22) cs = q # rest"
  then show "(rest, c # cs) \<in> measure length"
    using length_dropWhile_le [of "\<lambda>d. d \<noteq> CHR 0x22" cs] by simp
qed (auto simp: less_Suc_eq_le length_dropWhile_le)

datatype lua_atom = AVar string | ALit int | AKey nat | AArg nat

datatype lua_exp = EAtom lua_atom | ECall string "lua_atom list"

datatype lua_stmt =
    SLocal string lua_exp
  | SRun lua_exp
  | SIf lua_exp lua_exp "lua_stmt list"
  | SReturn lua_exp

fun lua_index :: "lua_token list \<Rightarrow> (nat \<times> lua_token list) option" where
  "lua_index (TSym a # TNum n # TSym b # ts) = (if a = ''['' \<and> b = '']'' then Some (n, ts) else None)"
| "lua_index ts = None"

fun parse_atom :: "lua_token list \<Rightarrow> (lua_atom \<times> lua_token list) option" where
  "parse_atom (TNum n # ts) = Some (ALit (int n), ts)"
| "parse_atom (TWord w # ts) =
     (if w = ''KEYS'' then map_option (\<lambda>(n, ts). (AKey n, ts)) (lua_index ts)
      else if w = ''ARGV'' then map_option (\<lambda>(n, ts). (AArg n, ts)) (lua_index ts)
      else if w \<in> {''local'', ''if'', ''then'', ''end'', ''return'', ''redis''} then None
      else Some (AVar w, ts))"
| "parse_atom ts = None"

lemma lua_index_shorter: "lua_index ts = Some (n, rest) \<Longrightarrow> length rest < length ts"
  by (induction ts rule: lua_index.induct) (auto split: if_splits)

lemma parse_atom_shorter: "parse_atom ts = Some (a, rest) \<Longrightarrow> length rest < length ts"
  by (induction ts rule: parse_atom.induct) (auto split: if_splits dest: lua_index_shorter)

text \<open>The arguments of a call after its command, up to the closing parenthesis.\<close>

function parse_args :: "lua_token list \<Rightarrow> (lua_atom list \<times> lua_token list) option" where
  "parse_args ts =
     (case ts of
        TSym s # ts \<Rightarrow>
          if s = '')'' then Some ([], ts)
          else if s = '','' then
            (case parse_atom ts of
               None \<Rightarrow> None
             | Some (a, rest) \<Rightarrow> map_option (\<lambda>(as, ts). (a # as, ts)) (parse_args rest))
          else None
      | _ \<Rightarrow> None)"
  by pat_completeness auto
termination
  by (relation "measure length") (auto dest: parse_atom_shorter)

declare parse_args.simps [simp del]

text \<open>Only the commands whose effect is given below are read.\<close>

definition parse_exp :: "lua_token list \<Rightarrow> (lua_exp \<times> lua_token list) option" where
  "parse_exp ts =
     (if take 4 ts = [TWord ''redis'', TSym ''.'', TWord ''call'', TSym ''('']
      then
        (case drop 4 ts of
           TText cmd # ts \<Rightarrow>
             if cmd \<in> {''INCR'', ''PEXPIRE''} then map_option (\<lambda>(as, ts). (ECall cmd as, ts)) (parse_args ts) else None
         | _ \<Rightarrow> None)
      else map_option (\<lambda>(a, ts). (EAtom a, ts)) (parse_atom ts))"

text \<open>A block, up to its \<open>end\<close> or the end of the text; every statement takes a token of the fuel.\<close>

fun parse_block :: "nat \<Rightarrow> lua_token list \<Rightarrow> (lua_stmt list \<times> lua_token list) option" where
  "parse_block 0 ts = None"
| "parse_block (Suc n) ts =
     (if ts = [] \<or> take 1 ts = [TWord ''end''] then Some ([], ts)
      else if take 1 ts = [TWord ''local''] then
        (case drop 1 ts of
           TWord x # TSym e # ts \<Rightarrow>
             if e = ''='' then
               (case parse_exp ts of
                  None \<Rightarrow> None
                | Some (v, ts) \<Rightarrow> map_option (\<lambda>(b, ts). (SLocal x v # b, ts)) (parse_block n ts))
             else None
         | _ \<Rightarrow> None)
      else if take 1 ts = [TWord ''if''] then
        (case parse_exp (drop 1 ts) of
           None \<Rightarrow> None
         | Some (l, ts) \<Rightarrow>
             if take 1 ts = [TSym ''==''] then
               (case parse_exp (drop 1 ts) of
                  None \<Rightarrow> None
                | Some (r, ts) \<Rightarrow>
                    if take 1 ts = [TWord ''then''] then
                      (case parse_block n (drop 1 ts) of
                         None \<Rightarrow> None
                       | Some (body, ts) \<Rightarrow>
                           if take 1 ts = [TWord ''end''] then
                             map_option (\<lambda>(b, ts). (SIf l r body # b, ts)) (parse_block n (drop 1 ts))
                           else None)
                    else None)
             else None)
      else if take 1 ts = [TWord ''return''] then
        map_option (\<lambda>(v, ts). ([SReturn v], ts)) (parse_exp (drop 1 ts))
      else
        (case parse_exp ts of
           Some (ECall cmd as, ts) \<Rightarrow> map_option (\<lambda>(b, ts). (SRun (ECall cmd as) # b, ts)) (parse_block n ts)
         | _ \<Rightarrow> None))"

definition parse_script :: "string \<Rightarrow> lua_stmt list option" where
  "parse_script text =
     (case lua_tokens text of
        None \<Rightarrow> None
      | Some ts \<Rightarrow>
          (case parse_block (Suc (length ts)) ts of
             Some (b, []) \<Rightarrow> Some b
           | _ \<Rightarrow> None))"

section \<open>Running it\<close>

text \<open>
  Numbers of Lua are doubles: an integer beyond \<open>2^53\<close> may be rounded, and is \<open>VBig\<close>.
\<close>

datatype lua_value = VNil | VInt int | VBig | VText string

definition lua_integer :: "int \<Rightarrow> lua_value" where
  "lua_integer n = (if \<bar>n\<bar> \<le> 2 ^ 53 then VInt n else VBig)"

text \<open>A command on the keys at a time of the server; \<open>None\<close> is an error reply.\<close>

definition redis_command :: "time \<Rightarrow> string \<Rightarrow> string list \<Rightarrow> redis_content \<Rightarrow> (lua_value \<times> redis_content) option" where
  "redis_command now cmd args m =
     (case args of
        [k] \<Rightarrow>
          if cmd = ''INCR'' then
            map_option (\<lambda>(e, n). (lua_integer n, m(k \<mapsto> e))) (incr_entry now None (m k))
          else None
      | [k, ms] \<Rightarrow>
          if cmd = ''PEXPIRE'' then
            (case ParseInt ms of
               None \<Rightarrow> None
             | Some t \<Rightarrow>
                 (case live now (m k) of
                    None \<Rightarrow> Some (VInt 0, m)
                  | Some v \<Rightarrow> Some (VInt 1, m(k := if t \<le> 0 then None else Some (v, Some (now + t * millisecond))))))
          else None
      | _ \<Rightarrow> None)"

definition nth_text :: "string list \<Rightarrow> nat \<Rightarrow> lua_value" where
  "nth_text xs n = (if 1 \<le> n \<and> n \<le> length xs then VText (xs ! (n - 1)) else VNil)"

fun atom_value :: "string list \<Rightarrow> string list \<Rightarrow> (string \<Rightarrow> lua_value) \<Rightarrow> lua_atom \<Rightarrow> lua_value" where
  "atom_value ks args env (AVar x) = env x"
| "atom_value ks args env (ALit n) = lua_integer n"
| "atom_value ks args env (AKey n) = nth_text ks n"
| "atom_value ks args env (AArg n) = nth_text args n"

fun value_text :: "lua_value \<Rightarrow> string option" where
  "value_text (VText s) = Some s"
| "value_text (VInt n) = Some (show_int n)"
| "value_text v = None"

fun run_exp ::
  "time \<Rightarrow> string list \<Rightarrow> string list \<Rightarrow> (string \<Rightarrow> lua_value) \<Rightarrow> lua_exp \<Rightarrow> redis_content \<Rightarrow>
     (lua_value \<times> redis_content) option" where
  "run_exp now ks args env (EAtom a) m = Some (atom_value ks args env a, m)"
| "run_exp now ks args env (ECall cmd as) m =
     (case those (map (\<lambda>a. value_text (atom_value ks args env a)) as) of
        None \<Rightarrow> None
      | Some texts \<Rightarrow> redis_command now cmd texts m)"

datatype lua_result = Went "string \<Rightarrow> lua_value" | Returned lua_value | Raised

fun run_block ::
  "time \<Rightarrow> string list \<Rightarrow> string list \<Rightarrow> lua_stmt list \<Rightarrow> (string \<Rightarrow> lua_value) \<Rightarrow> redis_content \<Rightarrow>
     lua_result \<times> redis_content" where
  "run_block now ks args [] env m = (Went env, m)"
| "run_block now ks args (SLocal x e # b) env m =
     (case run_exp now ks args env e m of
        None \<Rightarrow> (Raised, m)
      | Some (v, m) \<Rightarrow> run_block now ks args b (env(x := v)) m)"
| "run_block now ks args (SRun e # b) env m =
     (case run_exp now ks args env e m of
        None \<Rightarrow> (Raised, m)
      | Some (v, m) \<Rightarrow> run_block now ks args b env m)"
| "run_block now ks args (SIf l r body # b) env m =
     (case run_exp now ks args env l m of
        None \<Rightarrow> (Raised, m)
      | Some (x, m) \<Rightarrow>
          (case run_exp now ks args env r m of
             None \<Rightarrow> (Raised, m)
           | Some (y, m) \<Rightarrow>
               if x = y then
                 (case run_block now ks args body env m of
                    (Went _, m) \<Rightarrow> run_block now ks args b env m
                  | res \<Rightarrow> res)
               else run_block now ks args b env m))"
| "run_block now ks args (SReturn e # b) env m =
     (case run_exp now ks args env e m of
        None \<Rightarrow> (Raised, m)
      | Some (v, m) \<Rightarrow> (Returned v, m))"

definition run_script ::
  "lua_stmt list \<Rightarrow> string list \<Rightarrow> string list \<Rightarrow> time \<Rightarrow> redis_content \<Rightarrow> lua_result \<times> redis_content" where
  "run_script prog ks args now m = run_block now ks args prog (\<lambda>x. VNil) m"

end
