(* ===== verification/Redis_Laws.thy ===== *)
theory Redis_Laws
  imports Redis_Script
begin

text \<open>
  Redis is a service the program talks to through \<open>cache.Cache\<close>. \<open>redis_laws\<close> states what
  the properties rely on of it: values live under keys until their deadline on the server's
  clock (which the client library rounds to milliseconds), every command is atomic, and a script does
  what \<open>run_script\<close> makes of its text. A command may also fail, with no effect. The in-memory
  server \<open>mem_redis\<close> obeys the laws; it is what the witnesses run on.
\<close>

definition get_law :: "'r Cache \<Rightarrow> ('r \<Rightarrow> redis_content) \<Rightarrow> ('r \<Rightarrow> time) \<Rightarrow> bool" where
  "get_law cache content clock \<longleftrightarrow>
     (\<forall>k r x r'. c_Get cache k r = (x, r') \<longrightarrow> content r' = content r \<and>
        (\<forall>v. x = Inr v \<longrightarrow> live (clock r) (content r k) = Some v) \<and>
        (x = Inl (Sentinel ErrRedisNil) \<longrightarrow> live (clock r) (content r k) = None))"

definition set_law :: "'r Cache \<Rightarrow> ('r \<Rightarrow> redis_content) \<Rightarrow> ('r \<Rightarrow> time) \<Rightarrow> bool" where
  "set_law cache content clock \<longleftrightarrow>
     (\<forall>k v d r x r'. c_Set cache k v d r = (x, r') \<longrightarrow>
        (is_ok x \<longrightarrow> 0 < d \<longrightarrow> (\<exists>dl. content r' = (content r)(k \<mapsto> (v, Some dl)) \<and>
           clock r + d - millisecond \<le> dl \<and> dl \<le> clock r + d + millisecond)) \<and>
        (\<not> is_ok x \<longrightarrow> content r' = content r))"

definition counted ::
  "('r \<Rightarrow> redis_content) \<Rightarrow> ('r \<Rightarrow> time) \<Rightarrow> duration option \<Rightarrow> string \<Rightarrow> 'r \<Rightarrow>
     (go_error + int) \<times> 'r \<Rightarrow> bool" where
  "counted content clock expire k r res \<longleftrightarrow>
     (case res of
        (Inl e, r') \<Rightarrow> content r' = content r
      | (Inr n, r') \<Rightarrow>
          (\<exists>e. incr_entry (clock r) expire (content r k) = Some (e, n) \<and>
             content r' = (content r)(k \<mapsto> e)))"

text \<open>
  \<open>EVAL\<close> of a script that \<open>parse_script\<close> reads: a number that is answered is the one the script returned, if
  it is exact; an error is the script's own, or the script did not run.
\<close>

definition script_law :: "'r Cache \<Rightarrow> ('r \<Rightarrow> redis_content) \<Rightarrow> ('r \<Rightarrow> time) \<Rightarrow> bool" where
  "script_law cache content clock \<longleftrightarrow>
     (\<forall>script ks args r x r' prog out m.
        parse_script script = Some prog \<longrightarrow> c_Eval cache script ks args r = (x, r') \<longrightarrow>
        run_script prog ks (map show_int args) (clock r) (content r) = (out, m) \<longrightarrow>
        (case x of
           Inl e \<Rightarrow> content r' = content r \<or> (content r' = m \<and> (\<forall>n. out \<noteq> Returned (VInt n)) \<and> out \<noteq> Returned VBig)
         | Inr n \<Rightarrow> content r' = m \<and> (out = Returned (VInt n) \<or> out = Returned VBig)))"

definition redis_laws :: "'r Cache \<Rightarrow> ('r \<Rightarrow> redis_content) \<Rightarrow> ('r \<Rightarrow> time) \<Rightarrow> bool" where
  "redis_laws cache content clock \<longleftrightarrow>
     get_law cache content clock \<and> set_law cache content clock \<and>
     (\<forall>k r. counted content clock None k r (c_Incr cache k r)) \<and> script_law cache content clock"

lemma redis_lawsD:
  assumes "redis_laws cache content clock"
  shows "get_law cache content clock" "set_law cache content clock"
    "counted content clock None k r (c_Incr cache k r)" "script_law cache content clock"
  using assms by (auto simp: redis_laws_def)

lemma script_lawD:
  assumes "script_law cache content clock" and "parse_script script = Some prog"
    and "c_Eval cache script ks args r = (x, r')"
    and "run_script prog ks (map show_int args) (clock r) (content r) = (out, m)"
  shows "case x of
      Inl e \<Rightarrow> content r' = content r \<or> (content r' = m \<and> (\<forall>n. out \<noteq> Returned (VInt n)) \<and> out \<noteq> Returned VBig)
    | Inr n \<Rightarrow> content r' = m \<and> (out = Returned (VInt n) \<or> out = Returned VBig)"
  using assms unfolding script_law_def by blast

section \<open>An in-memory server\<close>

text \<open>\<open>rm_down\<close>: the server does not answer.\<close>

record redis_mem =
  rm_content :: redis_content
  rm_now :: time
  rm_down :: bool

definition rm_exec :: "(redis_mem \<Rightarrow> (go_error + 'a) \<times> redis_mem) \<Rightarrow> redis_mem \<Rightarrow> (go_error + 'a) \<times> redis_mem" where
  "rm_exec f r = (if rm_down r then (Inl (ErrText ''dial tcp: connection refused''), r) else f r)"

definition not_integer :: go_error where
  "not_integer = ErrText ''ERR value is not an integer or out of range''"

definition rm_incr :: "duration option \<Rightarrow> string \<Rightarrow> redis_mem \<Rightarrow> (go_error + int) \<times> redis_mem" where
  "rm_incr expire k r =
     (case incr_entry (rm_now r) expire (rm_content r k) of
        None \<Rightarrow> (Inl not_integer, r)
      | Some (e, n) \<Rightarrow> (Inr n, r\<lparr>rm_content := (rm_content r)(k \<mapsto> e)\<rparr>))"

text \<open>A script is run as its text says.\<close>

definition rm_script :: "string \<Rightarrow> string list \<Rightarrow> int list \<Rightarrow> redis_mem \<Rightarrow> (go_error + int) \<times> redis_mem" where
  "rm_script script ks args r =
     (case parse_script script of
        None \<Rightarrow> (Inl (ErrText ''ERR Error compiling script''), r)
      | Some prog \<Rightarrow>
          (case run_script prog ks (map show_int args) (rm_now r) (rm_content r) of
             (Returned (VInt n), m) \<Rightarrow> (Inr n, r\<lparr>rm_content := m\<rparr>)
           | (Returned VBig, m) \<Rightarrow> (Inr (2 ^ 53), r\<lparr>rm_content := m\<rparr>)
           | (_, m) \<Rightarrow> (Inl (ErrText ''ERR Error running script''), r\<lparr>rm_content := m\<rparr>)))"

definition mem_redis :: "redis_mem Cache" where
  "mem_redis =
     \<lparr>c_Get = (\<lambda>k. rm_exec (\<lambda>r.
        (case live (rm_now r) (rm_content r k) of
           None \<Rightarrow> Inl (Sentinel ErrRedisNil) | Some v \<Rightarrow> Inr v, r))),
      c_Set = (\<lambda>k v d. rm_exec (\<lambda>r.
        (Inr (), r\<lparr>rm_content := (rm_content r)
           (k \<mapsto> (v, if 0 < d then Some (rm_now r + d) else None))\<rparr>))),
      c_Incr = (\<lambda>k. rm_exec (rm_incr None k)),
      c_Eval = (\<lambda>script ks args. rm_exec (rm_script script ks args)),
      c_Del = (\<lambda>ks. rm_exec (\<lambda>r.
        (Inr (int (length (filter (\<lambda>k. live (rm_now r) (rm_content r k) \<noteq> None) (remdups ks)))),
         r\<lparr>rm_content := (\<lambda>k. if k \<in> set ks then None else rm_content r k)\<rparr>)))\<rparr>"

lemma rm_incr_counted: "counted rm_content rm_now ex k r (rm_incr ex k r)"
  by (auto simp: counted_def rm_incr_def split: option.splits prod.splits)

lemma down_counted:
  "counted rm_content rm_now ex k r (f r) \<Longrightarrow> counted rm_content rm_now ex k r (rm_exec f r)"
  by (auto simp: counted_def rm_exec_def)

lemma mem_redis_laws: "redis_laws mem_redis rm_content rm_now"
  unfolding redis_laws_def
proof (intro conjI allI impI)
  show "get_law mem_redis rm_content rm_now"
    by (auto simp: get_law_def mem_redis_def rm_exec_def split: if_splits option.splits)
  show "set_law mem_redis rm_content rm_now"
    by (auto simp: set_law_def mem_redis_def rm_exec_def millisecond_def)
  show "counted rm_content rm_now None k r (c_Incr mem_redis k r)" for k r
    by (simp add: mem_redis_def down_counted rm_incr_counted)
  show "script_law mem_redis rm_content rm_now"
    by (auto simp: script_law_def mem_redis_def rm_exec_def rm_script_def
        split: option.splits lua_result.splits lua_value.splits prod.splits if_splits sum.splits)
qed

end
