(* ===== verification/Book_Service.thy ===== *)
theory Book_Service
  imports Contracts Redis_Laws Go_Strings
begin

text \<open>
  \<open>BookService\<close> of \<open>pkg/service/book_service.go\<close>: the guarded mutations, the list cache
  keyed by a generation counter, and the best-effort events. The collaborators are the fields
  of the record; a nil collaborator is \<open>None\<close>. \<open>listSF key\<close> is the result of a
  \<open>singleflight\<close> call in flight for that key, which a caller that finds one waits for and
  shares. \<open>encoding/json\<close> is the parameter \<open>json\<close>.
\<close>

record json_lib =
  json_Marshal :: "Book list \<Rightarrow> go_error + string"
  json_Unmarshal :: "string \<Rightarrow> go_error + Book list"

record ('s, 'r, 'p) BookService =
  sv_store :: "'s BookPersistence"
  sv_redis :: "'r Cache option"
  sv_publisher :: "'p Publisher option"
  listSF :: "string \<Rightarrow> (go_error + Book list) option"

definition NewBookService ::
  "'s BookPersistence \<Rightarrow> 'r Cache option \<Rightarrow> 'p Publisher option \<Rightarrow> ('s, 'r, 'p) BookService" where
  "NewBookService store redis publisher =
     \<lparr>sv_store = store, sv_redis = redis, sv_publisher = publisher, listSF = (\<lambda>key. None)\<rparr>"

section \<open>Cache keys and generations\<close>

definition BooksListCacheGenKey :: string where
  "BooksListCacheGenKey = ''v1:books:list_cache_gen''"

definition BooksListDataCacheKey :: "int \<Rightarrow> BookListQuery \<Rightarrow> string" where
  "BooksListDataCacheKey gen q =
     ''books_g'' @ show_int gen @ ''_offset_'' @ show_int (q_Offset q) @
     ''_limit_'' @ show_int (q_Limit q) @
     ''_title_'' @ hex_encode (q_TitleLike q) @ ''_author_'' @ hex_encode (q_AuthorLike q) @
     ''_owner_'' @ (case q_OwnerID q of None \<Rightarrow> ''_'' | Some i \<Rightarrow> show_nat (unat i)) @
     ''_sort_'' @ q_Sort q @ ''_order_'' @ q_Order q"

definition cacheGeneration ::
  "('s, 'r, 'p) BookService \<Rightarrow> ('s, 'r, 'p) world \<Rightarrow> int \<times> ('s, 'r, 'p) world" where
  "cacheGeneration s w =
     (case sv_redis s of
        None \<Rightarrow> (0, w)
      | Some redis \<Rightarrow>
          (case on_redis (c_Get redis BooksListCacheGenKey) w of
             (Inl e, w) \<Rightarrow> (0, w)
           | (Inr v, w) \<Rightarrow>
               (case ParseInt v of
                  None \<Rightarrow> (0, w)
                | Some n \<Rightarrow> if n < 0 then (0, w) else (n, w))))"

definition bumpListCacheGeneration ::
  "('s, 'r, 'p) BookService \<Rightarrow> ('s, 'r, 'p) world \<Rightarrow> ('s, 'r, 'p) world" where
  "bumpListCacheGeneration s w =
     (case sv_redis s of
        None \<Rightarrow> w
      | Some redis \<Rightarrow> snd (on_redis (c_Incr redis BooksListCacheGenKey) w))"

section \<open>Events\<close>

definition bookEvent :: "string \<Rightarrow> Book \<Rightarrow> time \<Rightarrow> Event" where
  "bookEvent eventType b now =
     \<lparr>ev_Type = eventType, ev_Aggregate = AggregateBooks, ev_Key = show_nat (unat (b_ID b)),
      ev_OccurredAt = now,
      ev_Payload = BookPayload \<lparr>bp_ID = b_ID b, bp_OwnerID = b_OwnerID b, bp_Title = b_Title b,
                                bp_Author = b_Author b\<rparr>\<rparr>"

definition publishBookEvent ::
  "('s, 'r, 'p) BookService \<Rightarrow> string \<Rightarrow> Book \<Rightarrow> ('s, 'r, 'p) world \<Rightarrow> ('s, 'r, 'p) world" where
  "publishBookEvent s eventType b w =
     (case sv_publisher s of
        None \<Rightarrow> w
      | Some publisher \<Rightarrow>
          let (now, w) = on_rt time_now w;
              (err, w) = on_pub (pb_Publish publisher (bookEvent eventType b now)) w;
              result = (if is_ok err then ''success'' else ''error'')
          in w\<lparr>w_published := (eventType, result) # w_published w\<rparr>)"

section \<open>Reads\<close>

definition ListBooks ::
  "json_lib \<Rightarrow> ('s, 'r, 'p) BookService \<Rightarrow> BookListQuery \<Rightarrow> ('s, 'r, 'p) world \<Rightarrow>
     (go_error + Book list) \<times> ('s, 'r, 'p) world" where
  "ListBooks json s q w =
     (case sv_redis s of
        None \<Rightarrow> on_store (bk_List (sv_store s) q) w
      | Some redis \<Rightarrow>
          let (gen, w) = cacheGeneration s w;
              cacheKey = BooksListDataCacheKey gen q
          in case on_redis (c_Get redis cacheKey) w of
               (Inr cachedBooks, w) \<Rightarrow>
                 (case json_Unmarshal json cachedBooks of
                    Inl e \<Rightarrow> (Inl (fmtError ErrListBooksUnmarshal e), w)
                  | Inr books \<Rightarrow> (Inr books, w))
             | (Inl _, w) \<Rightarrow>
                 (case listSF s cacheKey of
                    Some out \<Rightarrow> (out, w)
                  | None \<Rightarrow>
                      (case on_store (bk_List (sv_store s) q) w of
                         (Inl e, w) \<Rightarrow> (Inl (fmtError ErrListBooksDB e), w)
                       | (Inr loaded, w) \<Rightarrow>
                           (case json_Marshal json loaded of
                              Inl e \<Rightarrow> (Inl (fmtError ErrListBooksMarshal e), w)
                            | Inr serializedBooks \<Rightarrow>
                                (case on_redis (c_Set redis cacheKey serializedBooks minute) w of
                                   (Inl e, w) \<Rightarrow> (Inl (fmtError ErrListBooksRedis e), w)
                                 | (Inr _, w) \<Rightarrow> (Inr loaded, w))))))"

definition GetBook ::
  "('s, 'r, 'p) BookService \<Rightarrow> uint \<Rightarrow> ('s, 'r, 'p) world \<Rightarrow>
     (go_error + Book) \<times> ('s, 'r, 'p) world" where
  "GetBook s i = on_store (bk_FirstByID (sv_store s) i)"

section \<open>Mutations\<close>

text \<open>\<open>&models.Book{...}\<close> leaves the other fields at their zero values.\<close>

definition newBook :: "uint \<Rightarrow> string \<Rightarrow> string \<Rightarrow> Book" where
  "newBook ownerID title author =
     \<lparr>b_ID = 0, b_OwnerID = ownerID, b_Title = title, b_Author = author,
      b_CreatedAt = time_zero, b_UpdatedAt = time_zero\<rparr>"

definition svc_CreateBook ::
  "('s, 'r, 'p) BookService \<Rightarrow> uint \<Rightarrow> string \<Rightarrow> string \<Rightarrow> ('s, 'r, 'p) world \<Rightarrow>
     (go_error + Book) \<times> ('s, 'r, 'p) world" where
  "svc_CreateBook s ownerID title author w =
     (case on_store (bk_Create (sv_store s) (newBook ownerID title author)) w of
        (Inl e, w) \<Rightarrow> (Inl e, w)
      | (Inr book, w) \<Rightarrow>
          let w = bumpListCacheGeneration s w;
              w = publishBookEvent s TypeBookCreated book w
          in (Inr book, w))"

definition svc_ReplaceBook ::
  "('s, 'r, 'p) BookService \<Rightarrow> uint \<Rightarrow> uint \<Rightarrow> string \<Rightarrow> string \<Rightarrow> ('s, 'r, 'p) world \<Rightarrow>
     (go_error + Book) \<times> ('s, 'r, 'p) world" where
  "svc_ReplaceBook s actorID i title author w =
     (case on_store (bk_FirstByID (sv_store s) i) w of
        (Inl e, w) \<Rightarrow> (Inl e, w)
      | (Inr b, w) \<Rightarrow>
          if b_OwnerID b \<noteq> actorID then (Inl (Sentinel ErrBookForbidden), w)
          else
            (case on_store (bk_UpdateFields (sv_store s) i title author) w of
               (Inl e, w) \<Rightarrow> (Inl e, w)
             | (Inr book, w) \<Rightarrow>
                 let w = bumpListCacheGeneration s w;
                     w = publishBookEvent s TypeBookUpdated book w
                 in (Inr book, w)))"

definition svc_PatchBook ::
  "('s, 'r, 'p) BookService \<Rightarrow> uint \<Rightarrow> uint \<Rightarrow> string option \<Rightarrow> string option \<Rightarrow>
     ('s, 'r, 'p) world \<Rightarrow> (go_error + Book) \<times> ('s, 'r, 'p) world" where
  "svc_PatchBook s actorID i title author w =
     (case on_store (bk_FirstByID (sv_store s) i) w of
        (Inl e, w) \<Rightarrow> (Inl e, w)
      | (Inr b, w) \<Rightarrow>
          if b_OwnerID b \<noteq> actorID then (Inl (Sentinel ErrBookForbidden), w)
          else
            (case on_store (bk_PatchFields (sv_store s) i title author) w of
               (Inl e, w) \<Rightarrow> (Inl e, w)
             | (Inr book, w) \<Rightarrow>
                 let w = bumpListCacheGeneration s w;
                     w = publishBookEvent s TypeBookUpdated book w
                 in (Inr book, w)))"

definition svc_DeleteBook ::
  "('s, 'r, 'p) BookService \<Rightarrow> uint \<Rightarrow> uint \<Rightarrow> ('s, 'r, 'p) world \<Rightarrow>
     (go_error + unit) \<times> ('s, 'r, 'p) world" where
  "svc_DeleteBook s actorID i w =
     (case on_store (bk_FirstByID (sv_store s) i) w of
        (Inl e, w) \<Rightarrow> (Inl e, w)
      | (Inr b, w) \<Rightarrow>
          if b_OwnerID b \<noteq> actorID then (Inl (Sentinel ErrBookForbidden), w)
          else
            (case on_store (bk_DeleteByID (sv_store s) i) w of
               (Inl e, w) \<Rightarrow> (Inl e, w)
             | (Inr _, w) \<Rightarrow>
                 let w = bumpListCacheGeneration s w;
                     w = publishBookEvent s TypeBookDeleted b w
                 in (Inr (), w)))"

section \<open>What follows a commit\<close>

text \<open>The cache bump and the event: they leave the database and the secrets alone.\<close>

definition after_commit ::
  "('s, 'r, 'p) BookService \<Rightarrow> string \<Rightarrow> Book \<Rightarrow> ('s, 'r, 'p) world \<Rightarrow> ('s, 'r, 'p) world" where
  "after_commit s eventType b w = publishBookEvent s eventType b (bumpListCacheGeneration s w)"

lemma after_commit_frame [frame, simp]:
  "w_store (after_commit s et b w) = w_store w"
  "w_jwtkey (after_commit s et b w) = w_jwtkey w"
  "w_apikey (after_commit s et b w) = w_apikey w"
  by (simp_all add: after_commit_def publishBookEvent_def bumpListCacheGeneration_def on_world Let_def
      split: option.splits)

lemma bump_frame [simp]:
  "w_pub (bumpListCacheGeneration s w) = w_pub w"
  "w_rt (bumpListCacheGeneration s w) = w_rt w"
  "w_published (bumpListCacheGeneration s w) = w_published w"
  by (simp_all add: bumpListCacheGeneration_def on_world split: option.splits)

lemma after_commit_redis:
  "w_redis (after_commit s et b w) =
    (case sv_redis s of None \<Rightarrow> w_redis w
     | Some redis \<Rightarrow> snd (c_Incr redis BooksListCacheGenKey (w_redis w)))"
  by (simp add: after_commit_def publishBookEvent_def bumpListCacheGeneration_def on_world Let_def
      split: option.splits)

text \<open>One event is offered to the publisher, and counted with its outcome.\<close>

lemma after_commit_pub:
  assumes "sv_publisher s = Some publisher"
  shows "w_pub (after_commit s et b w) =
      snd (pb_Publish publisher (bookEvent et b (rt_time (w_rt w) (rt_tick (w_rt w)))) (w_pub w))"
    and "\<exists>result \<in> {''success'', ''error''}.
      w_published (after_commit s et b w) = (et, result) # w_published w"
  using assms
  by (simp_all add: after_commit_def publishBookEvent_def on_world Let_def time_now_def)

text \<open>
  The three guarded mutations have one shape: load the book, refuse another actor's, run the
  statement, and finish the commit.
\<close>

definition owned ::
  "('s, 'r, 'p) BookService \<Rightarrow> uint \<Rightarrow> uint \<Rightarrow> ('s \<Rightarrow> (go_error + 'a) \<times> 's) \<Rightarrow> string \<Rightarrow>
     (Book \<Rightarrow> 'a \<Rightarrow> Book) \<Rightarrow> ('s, 'r, 'p) world \<Rightarrow> (go_error + 'a) \<times> ('s, 'r, 'p) world" where
  "owned s actorID i stmt et f w =
     (case bk_FirstByID (sv_store s) i (w_store w) of
        (Inl e, st) \<Rightarrow> (Inl e, w\<lparr>w_store := st\<rparr>)
      | (Inr b, st) \<Rightarrow>
          if b_OwnerID b \<noteq> actorID then (Inl (Sentinel ErrBookForbidden), w\<lparr>w_store := st\<rparr>)
          else
            (case stmt st of
               (Inl e, st) \<Rightarrow> (Inl e, w\<lparr>w_store := st\<rparr>)
             | (Inr x, st) \<Rightarrow> (Inr x, after_commit s et (f b x) (w\<lparr>w_store := st\<rparr>))))"

lemma owned_eqs:
  "svc_ReplaceBook s actorID i t a w =
     owned s actorID i (bk_UpdateFields (sv_store s) i t a) TypeBookUpdated (\<lambda>b x. x) w"
  "svc_PatchBook s actorID i t' a' w =
     owned s actorID i (bk_PatchFields (sv_store s) i t' a') TypeBookUpdated (\<lambda>b x. x) w"
  "svc_DeleteBook s actorID i w =
     owned s actorID i (bk_DeleteByID (sv_store s) i) TypeBookDeleted (\<lambda>b x. b) w"
  by (auto simp: svc_ReplaceBook_def svc_PatchBook_def svc_DeleteBook_def owned_def on_store_eq
      after_commit_def Let_def split: prod.splits sum.splits)

lemma create_eq:
  "svc_CreateBook s ownerID t a w =
    (case bk_Create (sv_store s) (newBook ownerID t a) (w_store w) of
       (Inl e, st) \<Rightarrow> (Inl e, w\<lparr>w_store := st\<rparr>)
     | (Inr b, st) \<Rightarrow> (Inr b, after_commit s TypeBookCreated b (w\<lparr>w_store := st\<rparr>)))"
  by (auto simp: svc_CreateBook_def on_store_eq after_commit_def Let_def split: prod.splits sum.splits)

section \<open>The service over any provider of books\<close>

context book_persistence begin

text \<open>A guarded mutation is refused without a trace, or runs on the book its actor owns.\<close>

lemma owned_cases:
  assumes "sv_store s = st" and "inv (w_store w)"
  obtains (refused) e st' where "owned s actorID i stmt et f w = (Inl e, w\<lparr>w_store := st'\<rparr>)"
      "books st' = books (w_store w)" "inv st'"
  | (failed) e st' b st1 where "owned s actorID i stmt et f w = (Inl e, w\<lparr>w_store := st'\<rparr>)"
      "stmt st1 = (Inl e, st')" "inv st1" "books st1 = books (w_store w)"
      "books (w_store w) (key i) = Some b" "b_OwnerID b = actorID"
  | (finished) b x st1 st' where
      "owned s actorID i stmt et f w = (Inr x, after_commit s et (f b x) (w\<lparr>w_store := st'\<rparr>))"
      "stmt st1 = (Inr x, st')" "inv st1" "books st1 = books (w_store w)"
      "books (w_store w) (key i) = Some b" "b_OwnerID b = actorID"
proof (cases "bk_FirstByID st i (w_store w)")
  case first: (Pair r st1)
  have st1: "inv st1" "books st1 = books (w_store w)"
    using first_inv [OF assms(2), of i] first_frame [of i "w_store w"] first by auto
  show thesis
  proof (cases r)
    case (Inl e)
    then show thesis using first st1 assms(1) by (intro refused) (simp_all add: owned_def)
  next
    case (Inr b)
    with first first_found [OF assms(2)] have found: "books (w_store w) (key i) = Some b" by simp
    show thesis
    proof (cases "b_OwnerID b = actorID")
      case False
      then show thesis
        using first Inr st1 assms(1)
        by (intro refused [of "Sentinel ErrBookForbidden" st1]) (simp_all add: owned_def)
    next
      case True
      obtain r' st' where run: "stmt st1 = (r', st')" by (cases "stmt st1")
      then show thesis
        using first Inr True st1 found assms(1)
        by (cases r') (auto simp: owned_def intro: failed finished)
    qed
  qed
qed

end

section \<open>Ownership\<close>

text \<open>A client's calls, in any order. \<open>actor_of\<close> is who a mutation acts for.\<close>

datatype book_op =
    ListOp BookListQuery
  | GetOp uint
  | CreateOp uint string string
  | ReplaceOp uint uint string string
  | PatchOp uint uint "string option" "string option"
  | DeleteOp uint uint

fun actor_of :: "book_op \<Rightarrow> uint option" where
  "actor_of (CreateOp a t au) = Some a"
| "actor_of (ReplaceOp a i t au) = Some a"
| "actor_of (PatchOp a i t au) = Some a"
| "actor_of (DeleteOp a i) = Some a"
| "actor_of (ListOp q) = None"
| "actor_of (GetOp i) = None"

fun run_op ::
  "json_lib \<Rightarrow> ('s, 'r, 'p) BookService \<Rightarrow> book_op \<Rightarrow> ('s, 'r, 'p) world \<Rightarrow> ('s, 'r, 'p) world" where
  "run_op json s (ListOp q) w = snd (ListBooks json s q w)"
| "run_op json s (GetOp i) w = snd (GetBook s i w)"
| "run_op json s (CreateOp a t au) w = snd (svc_CreateBook s a t au w)"
| "run_op json s (ReplaceOp a i t au) w = snd (svc_ReplaceBook s a i t au w)"
| "run_op json s (PatchOp a i t au) w = snd (svc_PatchBook s a i t au w)"
| "run_op json s (DeleteOp a i) w = snd (svc_DeleteBook s a i w)"

lemma cacheGeneration_store [frame, simp]: "w_store (snd (cacheGeneration s w)) = w_store w"
  by (auto simp: cacheGeneration_def on_redis_eq split: option.splits sum.splits)

lemma ListBooks_store:
  "w_store (snd (ListBooks json s q w)) = w_store w \<or>
   w_store (snd (ListBooks json s q w)) = snd (bk_List (sv_store s) q (w_store w))"
proof (cases "sv_redis s")
  case None
  then show ?thesis by (simp add: ListBooks_def on_store_eq)
next
  case (Some redis)
  obtain gen w1 where g: "cacheGeneration s w = (gen, w1)" by (cases "cacheGeneration s w")
  then have st: "w_store w1 = w_store w" using cacheGeneration_store [of s w] by simp
  from Some g st show ?thesis
    by (auto simp: ListBooks_def Let_def on_redis_eq on_store_eq split: sum.splits option.splits)
qed

context book_persistence begin

text \<open>What each successful mutation does to the books, and to whom it is open.\<close>

lemma update_like_spec:
  assumes "sv_store s = st" and "inv (w_store w)"
    and run: "owned s actorID i stmt TypeBookUpdated (\<lambda>b x. x) w = (Inr b', w')"
    and stmt: "\<And>s1 s2 b'. inv s1 \<Longrightarrow> stmt s1 = (Inr b', s2) \<Longrightarrow>
      inv s2 \<and> (\<exists>b. books s1 (key i) = Some b \<and> b' = g b (b_UpdatedAt b')) \<and>
      books s2 = (books s1)(key i \<mapsto> b')"
  shows "\<exists>b st'. books (w_store w) (key i) = Some b \<and> b_OwnerID b = actorID \<and>
    b' = g b (b_UpdatedAt b') \<and>
    w' = after_commit s TypeBookUpdated b' (w\<lparr>w_store := st'\<rparr>) \<and> inv st' \<and>
    books st' = (books (w_store w))(key i \<mapsto> b')"
proof (cases rule: owned_cases [OF assms(1,2), of actorID i stmt TypeBookUpdated "\<lambda>b x. x",
      case_names refused failed finished])
  case (refused e st')
  with run show ?thesis by simp
next
  case (failed e st' b st1)
  with run show ?thesis by simp
next
  case (finished b x st1 st')
  with run have eqs: "x = b'" "w' = after_commit s TypeBookUpdated b' (w\<lparr>w_store := st'\<rparr>)" by auto
  from stmt [OF finished(3) finished(2)] finished(4,5,6) eqs show ?thesis by auto
qed

lemma update_inv': "inv s \<Longrightarrow> bk_UpdateFields st i t a s = (r, s') \<Longrightarrow> inv s'"
  and patch_inv': "inv s \<Longrightarrow> bk_PatchFields st i t' a' s = (r, s') \<Longrightarrow> inv s'"
  and delete_inv': "inv s \<Longrightarrow> bk_DeleteByID st i s = (r', s') \<Longrightarrow> inv s'"
  and create_inv': "inv s \<Longrightarrow> bk_Create st b s = (r, s') \<Longrightarrow> inv s'"
  using update_inv patch_inv delete_inv create_inv by (metis snd_conv)+

lemma replace_spec:
  assumes "sv_store s = st" and "inv (w_store w)"
    and "svc_ReplaceBook s actorID i t a w = (Inr b', w')"
  shows "\<exists>b st'. books (w_store w) (key i) = Some b \<and> b_OwnerID b = actorID \<and>
    b' = b\<lparr>b_Title := t, b_Author := a, b_UpdatedAt := b_UpdatedAt b'\<rparr> \<and>
    w' = after_commit s TypeBookUpdated b' (w\<lparr>w_store := st'\<rparr>) \<and> inv st' \<and>
    books st' = (books (w_store w))(key i \<mapsto> b')"
  using assms(3) unfolding owned_eqs assms(1)
  by (rule update_like_spec [OF assms(1,2), where g = "\<lambda>b u. b\<lparr>b_Title := t, b_Author := a, b_UpdatedAt := u\<rparr>"])
    (use update_inv' update_done in blast)

lemma patch_spec:
  assumes "sv_store s = st" and "inv (w_store w)"
    and "svc_PatchBook s actorID i t a w = (Inr b', w')"
  shows "\<exists>b st'. books (w_store w) (key i) = Some b \<and> b_OwnerID b = actorID \<and>
    b' = b\<lparr>b_Title := (case t of None \<Rightarrow> b_Title b | Some x \<Rightarrow> x),
           b_Author := (case a of None \<Rightarrow> b_Author b | Some x \<Rightarrow> x),
           b_UpdatedAt := b_UpdatedAt b'\<rparr> \<and>
    w' = after_commit s TypeBookUpdated b' (w\<lparr>w_store := st'\<rparr>) \<and> inv st' \<and>
    books st' = (books (w_store w))(key i \<mapsto> b')"
  using assms(3) unfolding owned_eqs assms(1)
  by (rule update_like_spec [OF assms(1,2), where g =
        "\<lambda>b u. b\<lparr>b_Title := (case t of None \<Rightarrow> b_Title b | Some x \<Rightarrow> x),
                b_Author := (case a of None \<Rightarrow> b_Author b | Some x \<Rightarrow> x), b_UpdatedAt := u\<rparr>"])
    (use patch_inv' patch_done in blast)

lemma delete_spec:
  assumes "sv_store s = st" and "inv (w_store w)"
    and "svc_DeleteBook s actorID i w = (Inr x, w')"
  shows "\<exists>b st'. books (w_store w) (key i) = Some b \<and> b_OwnerID b = actorID \<and>
    w' = after_commit s TypeBookDeleted b (w\<lparr>w_store := st'\<rparr>) \<and> inv st' \<and>
    books st' = (books (w_store w))(key i := None)"
proof (cases rule: owned_cases [OF assms(1,2), of actorID i "bk_DeleteByID st i" TypeBookDeleted
      "\<lambda>b x. b", case_names refused failed finished])
  case (finished b x' st1 st')
  with assms(3) have "w' = after_commit s TypeBookDeleted b (w\<lparr>w_store := st'\<rparr>)"
    by (simp add: owned_eqs assms(1))
  with delete_done [OF finished(3,2)] delete_inv' [OF finished(3,2)] finished show ?thesis by auto
qed (use assms(3) in \<open>simp_all add: owned_eqs assms(1)\<close>)

lemma create_spec:
  assumes "sv_store s = st" and "inv (w_store w)"
    and "svc_CreateBook s ownerID t a w = (Inr b', w')"
  shows "\<exists>st'. books (w_store w) (key (b_ID b')) = None \<and> b_Title b' = t \<and> b_Author b' = a \<and>
    key (b_OwnerID b') = key ownerID \<and>
    w' = after_commit s TypeBookCreated b' (w\<lparr>w_store := st'\<rparr>) \<and> inv st' \<and>
    books st' = (books (w_store w))(key (b_ID b') \<mapsto> b')"
  using assms(3) create_done [OF assms(2)] create_inv' [OF assms(2)]
  by (auto simp: create_eq assms(1) newBook_def split: prod.splits sum.splits)

text \<open>A mutation that returns an error leaves the books, the cache and the events alone.\<close>

lemma owned_error:
  assumes "sv_store s = st" and "inv (w_store w)"
    and run: "owned s actorID i stmt et f w = (Inl e, w')"
    and "\<And>s1 s2 e. inv s1 \<Longrightarrow> stmt s1 = (Inl e, s2) \<Longrightarrow> inv s2 \<and> books s2 = books s1"
  shows "\<exists>st'. w' = w\<lparr>w_store := st'\<rparr> \<and> inv st' \<and> books st' = books (w_store w)"
  by (cases rule: owned_cases [OF assms(1,2), of actorID i stmt et f]) (use run assms(4) in auto)

lemma mutation_error:
  assumes "sv_store s = st" and "inv (w_store w)"
  shows "svc_CreateBook s ownerID t a w = (Inl e, w') \<Longrightarrow>
      \<exists>st'. w' = w\<lparr>w_store := st'\<rparr> \<and> inv st' \<and> books st' = books (w_store w)"
    and "svc_ReplaceBook s actorID i t a w = (Inl e, w') \<Longrightarrow>
      \<exists>st'. w' = w\<lparr>w_store := st'\<rparr> \<and> inv st' \<and> books st' = books (w_store w)"
    and "svc_PatchBook s actorID i t' a' w = (Inl e, w') \<Longrightarrow>
      \<exists>st'. w' = w\<lparr>w_store := st'\<rparr> \<and> inv st' \<and> books st' = books (w_store w)"
    and "svc_DeleteBook s actorID i w = (Inl e, w') \<Longrightarrow>
      \<exists>st'. w' = w\<lparr>w_store := st'\<rparr> \<and> inv st' \<and> books st' = books (w_store w)"
proof -
  show "svc_CreateBook s ownerID t a w = (Inl e, w') \<Longrightarrow>
      \<exists>st'. w' = w\<lparr>w_store := st'\<rparr> \<and> inv st' \<and> books st' = books (w_store w)"
    using create_fail create_inv' [OF assms(2)]
    by (fastforce simp: create_eq assms(1) split: prod.splits sum.splits)
  show "svc_ReplaceBook s actorID i t a w = (Inl e, w') \<Longrightarrow>
      \<exists>st'. w' = w\<lparr>w_store := st'\<rparr> \<and> inv st' \<and> books st' = books (w_store w)"
    unfolding owned_eqs assms(1)
    by (erule owned_error [OF assms]) (auto dest: update_fail update_inv')
  show "svc_PatchBook s actorID i t' a' w = (Inl e, w') \<Longrightarrow>
      \<exists>st'. w' = w\<lparr>w_store := st'\<rparr> \<and> inv st' \<and> books st' = books (w_store w)"
    unfolding owned_eqs assms(1)
    by (erule owned_error [OF assms]) (auto dest: patch_fail patch_inv')
  show "svc_DeleteBook s actorID i w = (Inl e, w') \<Longrightarrow>
      \<exists>st'. w' = w\<lparr>w_store := st'\<rparr> \<and> inv st' \<and> books st' = books (w_store w)"
    unfolding owned_eqs assms(1)
    by (erule owned_error [OF assms]) (auto dest: delete_fail delete_inv')
qed

end

context book_persistence begin

lemma same_owner:
  "b' = b\<lparr>b_Title := t, b_Author := a, b_UpdatedAt := u\<rparr> \<Longrightarrow> b_OwnerID b' = b_OwnerID b"
  by simp

text \<open>
  The books of one owner: no sequence of calls by others changes them, and none of theirs
  ever becomes his.
\<close>

definition owned_by :: "uint \<Rightarrow> 's \<Rightarrow> ('k \<times> Book) set" where
  "owned_by owner s = {(k, b). books s k = Some b \<and> b_OwnerID b = owner}"

lemma owned_by_upd:
  assumes "\<And>b. books s k = Some b \<Longrightarrow> b_OwnerID b \<noteq> owner"
    and "\<And>b. e = Some b \<Longrightarrow> b_OwnerID b \<noteq> owner"
    and "books s' = (books s)(k := e)"
  shows "owned_by owner s' = owned_by owner s"
  using assms by (auto simp: owned_by_def split: if_splits)

lemma run_op_isolated:
  assumes st: "sv_store s = st" and inv: "inv (w_store w)"
    and others: "\<And>a. actor_of op = Some a \<Longrightarrow> key a \<noteq> key owner"
  shows "inv (w_store (run_op json s op w)) \<and>
    owned_by owner (w_store (run_op json s op w)) = owned_by owner (w_store w)"
proof (cases op)
  case (ListOp q)
  with ListBooks_store [of json s q w] list_inv [OF inv, of q] list_frame [of q "w_store w"] inv
  show ?thesis by (auto simp: st owned_by_def)
next
  case (GetOp i)
  with first_inv [OF inv, of i] first_frame [of i "w_store w"]
  show ?thesis by (simp add: GetBook_def st owned_by_def)
next
  case (CreateOp a t au)
  obtain r w' where run: "svc_CreateBook s a t au w = (r, w')" by (cases "svc_CreateBook s a t au w")
  show ?thesis
  proof (cases r)
    case (Inl e)
    with run mutation_error(1) [OF st inv] CreateOp show ?thesis by (fastforce simp: owned_by_def)
  next
    case (Inr b')
    with create_spec [OF st inv] run obtain st' where fin: "books (w_store w) (key (b_ID b')) = None"
        "key (b_OwnerID b') = key a" "w' = after_commit s TypeBookCreated b' (w\<lparr>w_store := st'\<rparr>)"
        "inv st'" "books st' = (books (w_store w))(key (b_ID b') \<mapsto> b')"
      by blast
    have "owned_by owner st' = owned_by owner (w_store w)"
      by (rule owned_by_upd [OF _ _ fin(5)]) (use fin(1,2) others CreateOp in auto)
    with CreateOp run fin show ?thesis by simp
  qed
next
  case (ReplaceOp a i t au)
  obtain r w' where run: "svc_ReplaceBook s a i t au w = (r, w')"
    by (cases "svc_ReplaceBook s a i t au w")
  show ?thesis
  proof (cases r)
    case (Inl e)
    with run mutation_error(2) [OF st inv] ReplaceOp show ?thesis by (fastforce simp: owned_by_def)
  next
    case (Inr b')
    with replace_spec [OF st inv] run obtain b st' where fin: "books (w_store w) (key i) = Some b"
        "b_OwnerID b = a" "b_OwnerID b' = b_OwnerID b" "inv st'"
        "w' = after_commit s TypeBookUpdated b' (w\<lparr>w_store := st'\<rparr>)"
        "books st' = (books (w_store w))(key i \<mapsto> b')"
      by (blast dest: same_owner)
    have "owned_by owner st' = owned_by owner (w_store w)"
      by (rule owned_by_upd [OF _ _ fin(6)]) (use fin(1-3) others ReplaceOp in auto)
    with ReplaceOp run fin show ?thesis by simp
  qed
next
  case (PatchOp a i t au)
  obtain r w' where run: "svc_PatchBook s a i t au w = (r, w')" by (cases "svc_PatchBook s a i t au w")
  show ?thesis
  proof (cases r)
    case (Inl e)
    with run mutation_error(3) [OF st inv] PatchOp show ?thesis by (fastforce simp: owned_by_def)
  next
    case (Inr b')
    with patch_spec [OF st inv] run obtain b st' where fin: "books (w_store w) (key i) = Some b"
        "b_OwnerID b = a" "b_OwnerID b' = b_OwnerID b" "inv st'"
        "w' = after_commit s TypeBookUpdated b' (w\<lparr>w_store := st'\<rparr>)"
        "books st' = (books (w_store w))(key i \<mapsto> b')"
      by (blast dest: same_owner)
    have "owned_by owner st' = owned_by owner (w_store w)"
      by (rule owned_by_upd [OF _ _ fin(6)]) (use fin(1-3) others PatchOp in auto)
    with PatchOp run fin show ?thesis by simp
  qed
next
  case (DeleteOp a i)
  obtain r w' where run: "svc_DeleteBook s a i w = (r, w')" by (cases "svc_DeleteBook s a i w")
  show ?thesis
  proof (cases r)
    case (Inl e)
    with run mutation_error(4) [OF st inv] DeleteOp show ?thesis by (fastforce simp: owned_by_def)
  next
    case (Inr x)
    with delete_spec [OF st inv] run obtain b st' where fin: "books (w_store w) (key i) = Some b"
        "b_OwnerID b = a" "w' = after_commit s TypeBookDeleted b (w\<lparr>w_store := st'\<rparr>)"
        "inv st'" "books st' = (books (w_store w))(key i := None)"
      by blast
    have "owned_by owner st' = owned_by owner (w_store w)"
      by (rule owned_by_upd [OF _ _ fin(5)]) (use fin(1,2) others DeleteOp in auto)
    with DeleteOp run fin show ?thesis by simp
  qed
qed

lemma ownership:
  assumes "sv_store s = st" and "inv (w_store w)"
    and "\<And>op a. op \<in> set ops \<Longrightarrow> actor_of op = Some a \<Longrightarrow> key a \<noteq> key owner"
  shows "inv (w_store (fold (run_op json s) ops w)) \<and>
    owned_by owner (w_store (fold (run_op json s) ops w)) = owned_by owner (w_store w)"
  using assms(2,3)
proof (induction ops arbitrary: w)
  case (Cons op ops)
  have step: "inv (w_store (run_op json s op w))"
      "owned_by owner (w_store (run_op json s op w)) = owned_by owner (w_store w)"
    using run_op_isolated [OF assms(1) Cons.prems(1), of op owner json] Cons.prems(2) by auto
  have "key a \<noteq> key owner" if "op' \<in> set ops" "actor_of op' = Some a" for op' a
    using Cons.prems(2) [of op' a] that by simp
  with Cons.IH [OF step(1)] step(2) show ?case by simp
qed simp

end

text \<open>A book that exists is changed or removed only by a guarded mutation of its owner.\<close>

fun guarded :: "book_op \<Rightarrow> bool" where
  "guarded (ReplaceOp a i t au) \<longleftrightarrow> True"
| "guarded (PatchOp a i t au) \<longleftrightarrow> True"
| "guarded (DeleteOp a i) \<longleftrightarrow> True"
| "guarded op \<longleftrightarrow> False"

context book_persistence begin

lemma changed_by_owner:
  assumes st: "sv_store s = st" and inv: "inv (w_store w)" and b: "books (w_store w) k = Some b"
    and changed: "books (w_store (run_op json s op w)) k \<noteq> Some b"
  shows "guarded op \<and> actor_of op = Some (b_OwnerID b)"
proof (cases op)
  case (ListOp q)
  with ListBooks_store [of json s q w] list_frame [of q "w_store w"] changed b
  show ?thesis by (auto simp: st)
next
  case (GetOp i)
  with first_frame [of i "w_store w"] changed b show ?thesis by (simp add: GetBook_def st)
next
  case (CreateOp a t au)
  obtain r w' where run: "svc_CreateBook s a t au w = (r, w')" by (cases "svc_CreateBook s a t au w")
  show ?thesis
  proof (cases r)
    case (Inl e)
    with run mutation_error(1) [OF st inv] CreateOp changed b show ?thesis by fastforce
  next
    case (Inr b')
    with create_spec [OF st inv] run obtain st' where "books (w_store w) (key (b_ID b')) = None"
        "w' = after_commit s TypeBookCreated b' (w\<lparr>w_store := st'\<rparr>)"
        "books st' = (books (w_store w))(key (b_ID b') \<mapsto> b')"
      by blast
    with CreateOp run changed b show ?thesis by (auto split: if_splits)
  qed
next
  case (ReplaceOp a i t au)
  obtain r w' where run: "svc_ReplaceBook s a i t au w = (r, w')"
    by (cases "svc_ReplaceBook s a i t au w")
  show ?thesis
  proof (cases r)
    case (Inl e)
    with run mutation_error(2) [OF st inv] ReplaceOp changed b show ?thesis by fastforce
  next
    case (Inr b')
    with replace_spec [OF st inv] run obtain b0 st' where "books (w_store w) (key i) = Some b0"
        "b_OwnerID b0 = a" "w' = after_commit s TypeBookUpdated b' (w\<lparr>w_store := st'\<rparr>)"
        "books st' = (books (w_store w))(key i \<mapsto> b')"
      by blast
    with ReplaceOp run changed b show ?thesis by (auto split: if_splits)
  qed
next
  case (PatchOp a i t au)
  obtain r w' where run: "svc_PatchBook s a i t au w = (r, w')" by (cases "svc_PatchBook s a i t au w")
  show ?thesis
  proof (cases r)
    case (Inl e)
    with run mutation_error(3) [OF st inv] PatchOp changed b show ?thesis by fastforce
  next
    case (Inr b')
    with patch_spec [OF st inv] run obtain b0 st' where "books (w_store w) (key i) = Some b0"
        "b_OwnerID b0 = a" "w' = after_commit s TypeBookUpdated b' (w\<lparr>w_store := st'\<rparr>)"
        "books st' = (books (w_store w))(key i \<mapsto> b')"
      by blast
    with PatchOp run changed b show ?thesis by (auto split: if_splits)
  qed
next
  case (DeleteOp a i)
  obtain r w' where run: "svc_DeleteBook s a i w = (r, w')" by (cases "svc_DeleteBook s a i w")
  show ?thesis
  proof (cases r)
    case (Inl e)
    with run mutation_error(4) [OF st inv] DeleteOp changed b show ?thesis by fastforce
  next
    case (Inr x)
    with delete_spec [OF st inv] run obtain b0 st' where "books (w_store w) (key i) = Some b0"
        "b_OwnerID b0 = a" "w' = after_commit s TypeBookDeleted b0 (w\<lparr>w_store := st'\<rparr>)"
        "books st' = (books (w_store w))(key i := None)"
      by blast
    with DeleteOp run changed b show ?thesis by (auto split: if_splits)
  qed
qed

end

end
