(* ===== verification/Book_Store.thy ===== *)
theory Book_Store
  imports Sql_Select Contracts Pg_Laws Book_Service
begin

text \<open>
  \<open>SQLCBookStore\<close> of \<open>pkg/repository/book_sqlc.go\<close>, over the statements of theory Pg, and
  the proof that it keeps the contract of \<open>BookPersistence\<close> (theory Contracts).
\<close>

section \<open>The store\<close>

definition bookFromDB :: "book_row \<Rightarrow> Book" where
  "bookFromDB r =
     \<lparr>b_ID = uint_of_int64 (br_ID r), b_OwnerID = uint_of_int64 (br_OwnerID r),
      b_Title = br_Title r, b_Author = br_Author r,
      b_CreatedAt = br_CreatedAt r, b_UpdatedAt = br_UpdatedAt r\<rparr>"

text \<open>The rows come back on a cursor; the query itself can fail, and so can the reading.\<close>

definition store_List ::
  "(string \<Rightarrow> string) \<Rightarrow> BookListQuery \<Rightarrow> pg \<Rightarrow> (go_error + Book list) \<times> pg" where
  "store_List lower q =
     (let (text, args) = build_list lower q
      in pg_exec Pool (\<lambda>now s.
           (case pg_select text args s of
              Inl e \<Rightarrow> Inl e
            | Inr rows \<Rightarrow> Inr (map bookFromDB rows), s)))"

definition store_Create :: "Book \<Rightarrow> pg \<Rightarrow> (go_error + Book) \<times> pg" where
  "store_Create book s =
     (case q_CreateBook Pool
             \<lparr>cbp_OwnerID = toInt64 (b_OwnerID book), cbp_Title = b_Title book,
              cbp_Author = b_Author book\<rparr> s of
        (Inl e, s) \<Rightarrow> (Inl e, s)
      | (Inr row, s) \<Rightarrow> (Inr (bookFromDB row), s))"

definition store_FirstByID :: "uint \<Rightarrow> pg \<Rightarrow> (go_error + Book) \<times> pg" where
  "store_FirstByID i s =
     (case q_GetBook Pool (toInt64 i) s of
        (Inl e, s) \<Rightarrow> (Inl (mapNotFound e), s)
      | (Inr row, s) \<Rightarrow> (Inr (bookFromDB row), s))"

definition store_UpdateFields :: "uint \<Rightarrow> string \<Rightarrow> string \<Rightarrow> pg \<Rightarrow> (go_error + Book) \<times> pg" where
  "store_UpdateFields i title author s =
     (case q_UpdateBookFields Pool (toInt64 i) title author s of
        (Inl e, s) \<Rightarrow> (Inl (mapNotFound e), s)
      | (Inr row, s) \<Rightarrow> (Inr (bookFromDB row), s))"

definition store_PatchFields ::
  "uint \<Rightarrow> string option \<Rightarrow> string option \<Rightarrow> pg \<Rightarrow> (go_error + Book) \<times> pg" where
  "store_PatchFields i title author s =
     (if title = None \<and> author = None then store_FirstByID i s
      else
        (case q_PatchBookFields Pool (toInt64 i) title author s of
           (Inl e, s) \<Rightarrow> (Inl (mapNotFound e), s)
         | (Inr row, s) \<Rightarrow> (Inr (bookFromDB row), s)))"

definition store_DeleteByID :: "uint \<Rightarrow> pg \<Rightarrow> (go_error + unit) \<times> pg" where
  "store_DeleteByID i s =
     (case q_DeleteBook Pool (toInt64 i) s of
        (Inl e, s) \<Rightarrow> (Inl e, s)
      | (Inr n, s) \<Rightarrow> (if n = 0 then Inl (Sentinel ErrNotFound) else Inr (), s))"

definition SQLCBookStore :: "(string \<Rightarrow> string) \<Rightarrow> pg BookPersistence" where
  "SQLCBookStore lower =
     \<lparr>bk_List = store_List lower, bk_Create = store_Create, bk_FirstByID = store_FirstByID,
      bk_UpdateFields = store_UpdateFields, bk_PatchFields = store_PatchFields,
      bk_DeleteByID = store_DeleteByID\<rparr>"

section \<open>The contract of the books\<close>

text \<open>What a database holds for the services: the book whose row has the key \<open>k\<close>.\<close>

definition books_of :: "pg \<Rightarrow> int \<Rightarrow> Book option" where
  "books_of s k = map_option bookFromDB (book_table s k)"

lemma books_of_table: "book_table s' = book_table s \<Longrightarrow> books_of s' = books_of s"
  by (rule ext) (simp add: books_of_def)

lemma books_of_same: "same_tables s s' \<Longrightarrow> books_of s' = books_of s"
  by (rule books_of_table) (simp add: same_tables_def)

lemma books_of_upd:
  "book_table s' = (book_table s)(i \<mapsto> row) \<Longrightarrow> books_of s' = (books_of s)(i \<mapsto> bookFromDB row)"
  by (rule ext) (simp add: books_of_def)

lemma bookFromDB_simps [simp]:
  "b_ID (bookFromDB r) = uint_of_int64 (br_ID r)"
  "b_OwnerID (bookFromDB r) = uint_of_int64 (br_OwnerID r)"
  "b_Title (bookFromDB r) = br_Title r" "b_Author (bookFromDB r) = br_Author r"
  by (simp_all add: bookFromDB_def)

text \<open>Each operation of the store reads one statement's result; \<open>op_cases\<close> splits on it.\<close>

lemmas op_cases = prod.splits sum.splits if_splits

lemma store_List_run:
  "store_List lower q = pg_exec Pool (\<lambda>now s. (Inr (map bookFromDB (run_list lower q s)), s))"
  using pg_select_build [of lower q] by (simp add: store_List_def split_def)

lemma store_list_same: "same_tables s (snd (store_List lower q s))"
  unfolding store_List_run by (rule pg_exec_rule) (simp_all add: same_tables_def)

lemma store_first_same: "same_tables s (snd (store_FirstByID i s))"
  using q_selects_tables(1) [of s Pool "toInt64 i"]
  by (auto simp: store_FirstByID_def split: op_cases)

lemma store_first_found:
  "store_FirstByID i s = (Inr b, s') \<Longrightarrow> books_of s (toInt64 i) = Some b"
  by (auto simp: store_FirstByID_def books_of_def dest: q_GetBook_done split: op_cases)

lemma store_create_done:
  assumes "pg_ok s" and "store_Create b s = (Inr b', s')"
  shows "books_of s (toInt64 (b_ID b')) = None \<and>
    books_of s' = (books_of s)(toInt64 (b_ID b') \<mapsto> b') \<and>
    b_Title b' = b_Title b \<and> b_Author b' = b_Author b \<and>
    toInt64 (b_OwnerID b') = toInt64 (b_OwnerID b)"
proof -
  obtain row where row: "b' = bookFromDB row"
      "q_CreateBook Pool \<lparr>cbp_OwnerID = toInt64 (b_OwnerID b), cbp_Title = b_Title b,
         cbp_Author = b_Author b\<rparr> s = (Inr row, s')"
    using assms(2) by (auto simp: store_Create_def split: op_cases)
  note row_done = q_CreateBook_done [OF assms(1) row(2)]
  have "toInt64 (b_ID b') = br_ID row" using row_done(6,7) by (simp add: row(1) toInt64_of_row)
  moreover have "books_of s' = (books_of s)(br_ID row \<mapsto> b')"
    using books_of_upd [OF row_done(2)] by (simp add: row(1))
  ultimately show ?thesis
    using row_done(1,3,4,5) toInt64_range by (simp add: row(1) books_of_def toInt64_of_row)
qed

lemma store_update_done:
  assumes "store_UpdateFields i t a s = (Inr b', s')"
  shows "(\<exists>b. books_of s (toInt64 i) = Some b \<and>
       b' = b\<lparr>b_Title := t, b_Author := a, b_UpdatedAt := b_UpdatedAt b'\<rparr>) \<and>
    books_of s' = (books_of s)(toInt64 i \<mapsto> b')"
proof -
  obtain row where row: "b' = bookFromDB row" "q_UpdateBookFields Pool (toInt64 i) t a s = (Inr row, s')"
    using assms by (auto simp: store_UpdateFields_def split: op_cases)
  from q_UpdateBookFields_done [OF row(2)] obtain old now where
      old: "book_table s (toInt64 i) = Some old"
        "row = old\<lparr>br_Title := t, br_Author := a, br_UpdatedAt := now\<rparr>"
        "book_table s' = (book_table s)(toInt64 i \<mapsto> row)"
    by blast
  with books_of_upd [OF old(3)] show ?thesis by (simp add: row(1) books_of_def bookFromDB_def)
qed

lemma store_patch_done:
  assumes "store_PatchFields i t a s = (Inr b', s')"
  shows "(\<exists>b. books_of s (toInt64 i) = Some b \<and>
       b' = b\<lparr>b_Title := (case t of None \<Rightarrow> b_Title b | Some x \<Rightarrow> x),
              b_Author := (case a of None \<Rightarrow> b_Author b | Some x \<Rightarrow> x),
              b_UpdatedAt := b_UpdatedAt b'\<rparr>) \<and>
    books_of s' = (books_of s)(toInt64 i \<mapsto> b')"
proof (cases "t = None \<and> a = None")
  case True
  with assms have first: "store_FirstByID i s = (Inr b', s')"
    by (simp add: store_PatchFields_def)
  have "books_of s' = books_of s"
    using books_of_same [OF store_first_same [of s i]] by (simp add: first)
  with True store_first_found [OF first] show ?thesis by (simp add: fun_upd_idem)
next
  case False
  with assms obtain row where row: "b' = bookFromDB row"
      "q_PatchBookFields Pool (toInt64 i) t a s = (Inr row, s')"
    by (auto simp: store_PatchFields_def split: op_cases)
  from q_PatchBookFields_done [OF row(2)] obtain old now where
      old: "book_table s (toInt64 i) = Some old"
        "row = old\<lparr>br_Title := coalesce t (br_Title old),
                   br_Author := coalesce a (br_Author old), br_UpdatedAt := now\<rparr>"
        "book_table s' = (book_table s)(toInt64 i \<mapsto> row)"
    by blast
  with books_of_upd [OF old(3)] show ?thesis
    by (simp add: row(1) books_of_def bookFromDB_def coalesce_def split: option.split)
qed

lemma store_delete_done:
  assumes "store_DeleteByID i s = (Inr x, s')"
  shows "books_of s (toInt64 i) \<noteq> None \<and> books_of s' = (books_of s)(toInt64 i := None)"
  using assms
  by (auto simp: store_DeleteByID_def books_of_def fun_eq_iff dest!: q_DeleteBook_done
      split: op_cases)

lemma store_fails:
  "store_Create b s = (Inl e, s') \<Longrightarrow> books_of s' = books_of s"
  "store_UpdateFields i t a s = (Inl e, s') \<Longrightarrow> books_of s' = books_of s"
  "store_DeleteByID i s = (Inl e, s') \<Longrightarrow> books_of s' = books_of s"
proof -
  show "store_Create b s = (Inl e, s') \<Longrightarrow> books_of s' = books_of s"
    by (auto simp: store_Create_def split: op_cases dest!: q_CreateBook_fail books_of_same)
  show "store_UpdateFields i t a s = (Inl e, s') \<Longrightarrow> books_of s' = books_of s"
    by (auto simp: store_UpdateFields_def split: op_cases
        dest!: q_UpdateBookFields_fail books_of_table)
  show "store_DeleteByID i s = (Inl e, s') \<Longrightarrow> books_of s' = books_of s"
    by (auto simp: store_DeleteByID_def simp: fun_upd_idem split: op_cases
        dest!: q_DeleteBook_fail books_of_same q_DeleteBook_done intro: books_of_table)
qed

lemma store_patch_fail:
  assumes "store_PatchFields i t a s = (Inl e, s')"
  shows "books_of s' = books_of s"
proof (cases "t = None \<and> a = None")
  case True
  with assms books_of_same [OF store_first_same [of s i]] show ?thesis
    by (simp add: store_PatchFields_def)
next
  case False
  with assms show ?thesis
    by (auto simp: store_PatchFields_def split: op_cases
        dest!: q_PatchBookFields_fail books_of_table)
qed

lemma store_keeps_ok:
  assumes "pg_ok s"
  shows "pg_ok (snd (store_List lower q s))" "pg_ok (snd (store_Create b s))"
    "pg_ok (snd (store_FirstByID i s))" "pg_ok (snd (store_UpdateFields i t a s))"
    "pg_ok (snd (store_PatchFields i t' a' s))" "pg_ok (snd (store_DeleteByID i s))"
proof -
  note ok = q_selects_ok(1) [OF assms] q_UpdateBookFields_ok [OF assms]
    q_PatchBookFields_ok [OF assms] q_DeleteBook_ok [OF assms]
  show "pg_ok (snd (store_List lower q s))"
    unfolding store_List_run using assms by (rule_tac pg_exec_rule) simp_all
  show "pg_ok (snd (store_Create b s))"
    using q_CreateBook_ok [OF assms, of "\<lparr>cbp_OwnerID = toInt64 (b_OwnerID b), cbp_Title = b_Title b,
        cbp_Author = b_Author b\<rparr>" Pool] toInt64_range
    by (auto simp: store_Create_def split: op_cases)
  show first: "pg_ok (snd (store_FirstByID i s))"
    using ok(1) [of Pool "toInt64 i"] by (auto simp: store_FirstByID_def split: op_cases)
  show "pg_ok (snd (store_UpdateFields i t a s))"
    using ok(2) [of Pool "toInt64 i" t a] by (auto simp: store_UpdateFields_def split: op_cases)
  show "pg_ok (snd (store_PatchFields i t' a' s))"
    using ok(3) [of Pool "toInt64 i" t' a'] first
    by (auto simp: store_PatchFields_def split: op_cases)
  show "pg_ok (snd (store_DeleteByID i s))"
    using ok(4) [of Pool "toInt64 i"] by (auto simp: store_DeleteByID_def split: op_cases)
qed

lemma store_missing:
  assumes "pg_ok s" and "errors_is e ErrNotFound"
  shows "store_FirstByID i s = (Inl e, s') \<Longrightarrow> books_of s (toInt64 i) = None"
    and "store_UpdateFields i t a s = (Inl e, s') \<Longrightarrow> books_of s (toInt64 i) = None"
    and "store_PatchFields i t' a' s = (Inl e, s') \<Longrightarrow> books_of s (toInt64 i) = None"
    and "store_DeleteByID i s = (Inl e, s') \<Longrightarrow> books_of s (toInt64 i) = None"
proof -
  have nf: "IsNotFound e" using assms(2) by (simp add: IsNotFound_def)
  show first: "store_FirstByID i s = (Inl e, s') \<Longrightarrow> books_of s (toInt64 i) = None"
    using q_GetBook_missing [OF assms(1)] nf
    by (auto simp: store_FirstByID_def books_of_def split: op_cases)
  show "store_UpdateFields i t a s = (Inl e, s') \<Longrightarrow> books_of s (toInt64 i) = None"
    using q_UpdateBookFields_missing [OF assms(1)] nf
    by (auto simp: store_UpdateFields_def books_of_def split: op_cases)
  show "store_PatchFields i t' a' s = (Inl e, s') \<Longrightarrow> books_of s (toInt64 i) = None"
    using q_PatchBookFields_missing [OF assms(1)] nf first
    by (auto simp: store_PatchFields_def books_of_def split: op_cases)
  show "store_DeleteByID i s = (Inl e, s') \<Longrightarrow> books_of s (toInt64 i) = None"
    using q_DeleteBook_error [OF assms(1)] q_DeleteBook_done nf
    by (auto simp: store_DeleteByID_def books_of_def fault_ok_def IsNotFound_def split: op_cases)
qed

interpretation sqlc_books: book_persistence "SQLCBookStore lower" books_of toInt64 pg_ok for lower
  by unfold_locales
    (simp_all only: SQLCBookStore_def BookPersistence.simps,
     (erule store_keeps_ok store_fails store_patch_fail store_first_found store_delete_done
        store_update_done store_patch_done
      | rule books_of_same [OF store_list_same] books_of_same [OF store_first_same]
      | erule (1) store_create_done
      | erule (2) store_missing)+)

end
