(* ===== verification/Gin.thy ===== *)
theory Gin
  imports World
begin

text \<open>
  A request in the hands of the handlers: what of gin's \<open>*gin.Context\<close> the code reads and
  writes, and the two response helpers of \<open>pkg/httperr\<close> and \<open>pkg/httpresp\<close>. gin itself is a
  library; the record holds the parts of a request it hands over (the client address it
  determined, the parsed query and path parameters) and the response so far. A handler is a
  function on the context and the world; a middleware receives what \<open>c.Next()\<close> runs as its
  first argument, and aborts by not calling it.
\<close>

section \<open>The context\<close>

text \<open>What \<open>c.Set\<close> stores is an \<open>any\<close>; the code puts identifiers, strings and times there.\<close>

datatype ctx_val = VUint uint | VStr string | VTime time

text \<open>A response body: none, the error envelope, or the data envelope around a payload.\<close>

datatype body =
    NoBody
  | ErrorBody string
  | DataText string
  | DataBook Book
  | DataBooks "Book list"
  | DataTokens LoginTokenBody
  | DataLogout LogoutSuccessBody
  | DataRegister RegisterSuccessBody
  | DataAdmin AdminMeBody
  | TextBody string

record gin_ctx =
  g_Method :: string
  g_FullPath :: string
  g_URLPath :: string
  g_Host :: string
  g_TLS :: bool
  g_UserAgent :: string
  g_GetHeader :: "string \<Rightarrow> string"
  g_Param :: "string \<Rightarrow> string"
  g_GetQuery :: "string \<Rightarrow> string option"
  g_ClientIP :: string
  g_ContentLength :: int
  g_MaxBytes :: "int option"
  g_CtxErr :: "go_error option"
  g_Timeout :: "duration option"
  g_CtxRequestID :: "string option"
  g_CtxSpan :: "(string \<times> string) option"
  g_Keys :: "string \<Rightarrow> ctx_val option"
  g_Status :: int
  g_Body :: body
  g_Headers :: "string \<Rightarrow> string option"
  g_Aborted :: bool

text \<open>\<open>c.DefaultQuery\<close> uses the default only when the parameter is absent.\<close>

definition DefaultQuery :: "gin_ctx \<Rightarrow> string \<Rightarrow> string \<Rightarrow> string" where
  "DefaultQuery c key d = (case g_GetQuery c key of None \<Rightarrow> d | Some v \<Rightarrow> v)"

definition Query :: "gin_ctx \<Rightarrow> string \<Rightarrow> string" where
  "Query c key = DefaultQuery c key ''''"

definition set_key :: "string \<Rightarrow> ctx_val \<Rightarrow> gin_ctx \<Rightarrow> gin_ctx" where
  "set_key k v c = c\<lparr>g_Keys := (g_Keys c)(k \<mapsto> v)\<rparr>"

definition set_header :: "string \<Rightarrow> string \<Rightarrow> gin_ctx \<Rightarrow> gin_ctx" where
  "set_header k v c = c\<lparr>g_Headers := (g_Headers c)(k \<mapsto> v)\<rparr>"

definition set_status :: "int \<Rightarrow> gin_ctx \<Rightarrow> gin_ctx" where
  "set_status code c = c\<lparr>g_Status := code\<rparr>"

definition respond :: "int \<Rightarrow> body \<Rightarrow> gin_ctx \<Rightarrow> gin_ctx" where
  "respond code b c = c\<lparr>g_Status := code, g_Body := b\<rparr>"

definition AbortWithStatus :: "int \<Rightarrow> gin_ctx \<Rightarrow> gin_ctx" where
  "AbortWithStatus code c = c\<lparr>g_Status := code, g_Aborted := True\<rparr>"

section \<open>httperr.go, httpresp.go\<close>

definition httperr_Write :: "int \<Rightarrow> string \<Rightarrow> gin_ctx \<Rightarrow> gin_ctx" where
  "httperr_Write status message c = respond status (ErrorBody message) c"

definition httperr_Abort :: "int \<Rightarrow> string \<Rightarrow> gin_ctx \<Rightarrow> gin_ctx" where
  "httperr_Abort status message c = (respond status (ErrorBody message) c)\<lparr>g_Aborted := True\<rparr>"

definition httpresp_OK :: "body \<Rightarrow> gin_ctx \<Rightarrow> gin_ctx" where
  "httpresp_OK data c = respond 200 data c"

definition httpresp_Created :: "body \<Rightarrow> gin_ctx \<Rightarrow> gin_ctx" where
  "httpresp_Created data c = respond 201 data c"

lemmas responses [go_defs] = httperr_Write_def httperr_Abort_def httpresp_OK_def
  httpresp_Created_def respond_def AbortWithStatus_def set_status_def

type_synonym ('s, 'r, 'p) handler =
  "gin_ctx \<Rightarrow> ('s, 'r, 'p) world \<Rightarrow> gin_ctx \<times> ('s, 'r, 'p) world"

type_synonym ('s, 'r, 'p) middleware = "('s, 'r, 'p) handler \<Rightarrow> ('s, 'r, 'p) handler"

text \<open>A route's middlewares run in order around its handler.\<close>

definition chain :: "('s, 'r, 'p) middleware list \<Rightarrow> ('s, 'r, 'p) handler \<Rightarrow> ('s, 'r, 'p) handler" where
  "chain mws h = foldr (\<lambda>m next. m next) mws h"

lemma chain_simps [simp]: "chain [] h = h" "chain (m # mws) h = m (chain mws h)"
  by (simp_all add: chain_def)

end
