(* ===== verification/Auth_Tokens.thy ===== *)
theory Auth_Tokens
  imports World Go_Strings Go_Strconv
begin

text \<open>
  \<open>pkg/auth\<close> without the denylist: roles, token lifetimes, opaque tokens, password hashing
  and JWTs. bcrypt, SHA-256 and golang-jwt are libraries: a \<open>crypto_lib\<close> is a record of the
  functions the code calls, and \<open>jwt_laws\<close> the documented behaviour the properties about
  access tokens rely on.
\<close>

section \<open>Libraries\<close>

text \<open>
  The claims of an access token. The dates of a JWT are \<open>NumericDate\<close>s, which golang-jwt
  keeps as \<open>time.Time\<close>; an absent date is \<open>None\<close>.
\<close>

record Claims =
  cl_Username :: string
  cl_UserID :: uint
  cl_Role :: string
  cl_ExpiresAt :: "time option"
  cl_IssuedAt :: "time option"
  cl_ID :: string

datatype jwt_alg = SigningMethodHS256 | SigningMethodOther string

fun alg_header :: "jwt_alg \<Rightarrow> string" where
  "alg_header SigningMethodHS256 = ''HS256''"
| "alg_header (SigningMethodOther a) = a"

record crypto_lib =
  sha256_Sum256 :: "string \<Rightarrow> string"
  bcrypt_Generate :: "string \<Rightarrow> int \<Rightarrow> go_rt \<Rightarrow> (go_error + string) \<times> go_rt"
  bcrypt_Compare :: "string \<Rightarrow> string \<Rightarrow> bool"
  jwt_NumericDate :: "time \<Rightarrow> time"
  jwt_SignedString :: "jwt_alg \<Rightarrow> string \<Rightarrow> Claims \<Rightarrow> go_error + string"
  jwt_Parse :: "time \<Rightarrow> string \<Rightarrow> (jwt_alg \<Rightarrow> go_error + string) \<Rightarrow> go_error + bool \<times> Claims"

text \<open>
  What is relied on of golang-jwt. \<open>genuine alg key tok c\<close> says that \<open>tok\<close> carries the
  claims \<open>c\<close> under a signature of \<open>key\<close> for the algorithm its header names: a token is
  accepted only if the key function gave a key for its algorithm and the signature is
  genuine under it, and not after its expiry; a token the library signed is genuine and is
  accepted, with the claims it was signed with, until it expires. The last is said of plain
  claims: dates in whole seconds (what \<open>NewNumericDate\<close> makes of a time) that JSON numbers
  hold exactly, and ASCII strings, which \<open>encoding/json\<close> never rewrites.
\<close>

definition jwt_plain :: "Claims \<Rightarrow> bool" where
  "jwt_plain c \<longleftrightarrow>
     (\<forall>ch \<in> set (cl_Username c @ cl_Role c @ cl_ID c). of_char ch < (128 :: nat)) \<and>
     (\<forall>t \<in> set_option (cl_ExpiresAt c) \<union> set_option (cl_IssuedAt c).
        0 \<le> t \<and> t \<le> 9007199254740992 * second \<and> t mod second = 0)"

definition jwt_laws :: "crypto_lib \<Rightarrow> (jwt_alg \<Rightarrow> string \<Rightarrow> string \<Rightarrow> Claims \<Rightarrow> bool) \<Rightarrow> bool" where
  "jwt_laws lib genuine \<longleftrightarrow>
     (\<forall>t. jwt_NumericDate lib t = t div second * second) \<and>
     (\<forall>now tok kf c. jwt_Parse lib now tok kf = Inr (True, c) \<longrightarrow>
        (\<exists>alg key. kf alg = Inr key \<and> genuine alg key tok c) \<and>
        (\<forall>e. cl_ExpiresAt c = Some e \<longrightarrow> now < e)) \<and>
     (\<forall>alg key c tok. jwt_SignedString lib alg key c = Inr tok \<longrightarrow> jwt_plain c \<longrightarrow>
        genuine alg key tok c \<and>
        (\<forall>now kf e. kf alg = Inr key \<longrightarrow> cl_ExpiresAt c = Some e \<longrightarrow> now < e \<longrightarrow>
           (\<forall>i. cl_IssuedAt c = Some i \<longrightarrow> i \<le> now) \<longrightarrow>
           jwt_Parse lib now tok kf = Inr (True, c)))"

section \<open>roles.go\<close>

definition RoleUser :: string where "RoleUser = ''user''"
definition RoleAdmin :: string where "RoleAdmin = ''admin''"

definition ValidRole :: "string \<Rightarrow> bool" where
  "ValidRole role \<longleftrightarrow> role = RoleUser \<or> role = RoleAdmin"

definition EffectiveRole :: "string \<Rightarrow> go_error + string" where
  "EffectiveRole role =
     (let r = TrimSpace role
      in if r = '''' then Inr RoleUser
         else if \<not> ValidRole r then Inl (ErrText (''invalid role '' @ quoted r))
         else Inr r)"

section \<open>tokens.go\<close>

definition defaultAccessTokenTTL :: duration where "defaultAccessTokenTTL = 5 * minute"
definition defaultRefreshTokenTTL :: duration where "defaultRefreshTokenTTL = 7 * 24 * hour"
definition refreshTokenBytes :: nat where "refreshTokenBytes = 32"
definition familyIDBytes :: nat where "familyIDBytes = 16"

definition durationFromEnv :: "string \<Rightarrow> duration \<Rightarrow> go_rt \<Rightarrow> duration" where
  "durationFromEnv key d rt =
     (let s = TrimSpace (rt_env rt key)
      in if s = '''' then d
         else case ParseDuration s of
                None \<Rightarrow> d
              | Some x \<Rightarrow> if x \<le> 0 then d else x)"

definition AccessTokenTTL :: "go_rt \<Rightarrow> duration" where
  "AccessTokenTTL = durationFromEnv ''ACCESS_TOKEN_TTL'' defaultAccessTokenTTL"

definition RefreshTokenTTL :: "go_rt \<Rightarrow> duration" where
  "RefreshTokenTTL = durationFromEnv ''REFRESH_TOKEN_TTL'' defaultRefreshTokenTTL"

text \<open>\<open>rand.Read\<close> reports its error; its text is the operating system's.\<close>

definition rand_error :: go_error where
  "rand_error = ErrText ''crypto/rand''"

definition NewOpaqueToken :: "go_rt \<Rightarrow> (go_error + string) \<times> go_rt" where
  "NewOpaqueToken rt =
     (case rand_read refreshTokenBytes rt of
        (None, rt) \<Rightarrow> (Inl (Prefixed ''auth: generate opaque token'' rand_error), rt)
      | (Some b, rt) \<Rightarrow> (Inr (b64url_encode b), rt))"

definition NewFamilyID :: "go_rt \<Rightarrow> (go_error + string) \<times> go_rt" where
  "NewFamilyID rt =
     (case rand_read familyIDBytes rt of
        (None, rt) \<Rightarrow> (Inl (Prefixed ''auth: generate family id'' rand_error), rt)
      | (Some b, rt) \<Rightarrow> (Inr (hex_encode b), rt))"

definition HashRefreshToken :: "crypto_lib \<Rightarrow> string \<Rightarrow> string" where
  "HashRefreshToken lib plaintext = hex_encode (sha256_Sum256 lib plaintext)"

section \<open>auth.go\<close>

definition MinJWTSecretKeyBytes :: nat where "MinJWTSecretKeyBytes = 32"
definition defaultBcryptCost :: int where "defaultBcryptCost = 12"
definition minBcryptCost :: int where "minBcryptCost = 10"

text \<open>\<open>bcrypt.MinCost\<close> and \<open>bcrypt.MaxCost\<close> of golang.org/x/crypto.\<close>

definition bcrypt_MinCost :: int where "bcrypt_MinCost = 4"
definition bcrypt_MaxCost :: int where "bcrypt_MaxCost = 31"

text \<open>The signing key is a package variable; \<open>[]\<close> stands for nil.\<close>

definition SetJWTSigningKey ::
  "string \<Rightarrow> ('s, 'r, 'p) world \<Rightarrow> (go_error + unit) \<times> ('s, 'r, 'p) world" where
  "SetJWTSigningKey secret w =
     (if length secret < MinJWTSecretKeyBytes
      then (Inl (Wrapped ErrJWTSigningKeyTooShort
                   (ErrText (''got '' @ show_nat (length secret) @ '' bytes, need at least '' @
                             show_nat MinJWTSecretKeyBytes))), w)
      else (Inr (), w\<lparr>w_jwtkey := secret\<rparr>))"

text \<open>A reset that only the tests call.\<close>

definition ClearJWTSigningKeyForTesting :: "('s, 'r, 'p) world \<Rightarrow> ('s, 'r, 'p) world" where
  "ClearJWTSigningKeyForTesting w = w\<lparr>w_jwtkey := ''''\<rparr>"

definition JWTSigningKey :: "('s, 'r, 'p) world \<Rightarrow> string" where
  "JWTSigningKey w = w_jwtkey w"

definition JWTKeyFunc :: "string \<Rightarrow> jwt_alg \<Rightarrow> go_error + string" where
  "JWTKeyFunc key alg =
     (if alg \<noteq> SigningMethodHS256 then Inl (ErrText (''unexpected signing method: '' @ alg_header alg)) else Inr key)"

definition bcryptCostForPasswordHashing :: "go_rt \<Rightarrow> int" where
  "bcryptCostForPasswordHashing rt =
     (let s = TrimSpace (rt_env rt ''BCRYPT_COST'')
      in if s = '''' then defaultBcryptCost
         else case Atoi s of
                None \<Rightarrow> defaultBcryptCost
              | Some c \<Rightarrow>
                  if c < bcrypt_MinCost \<or> c > bcrypt_MaxCost then defaultBcryptCost
                  else if c < minBcryptCost then minBcryptCost
                  else c)"

definition HashPassword :: "crypto_lib \<Rightarrow> string \<Rightarrow> go_rt \<Rightarrow> (go_error + string) \<times> go_rt" where
  "HashPassword lib password rt =
     bcrypt_Generate lib password (bcryptCostForPasswordHashing rt) rt"

definition GenerateToken ::
  "crypto_lib \<Rightarrow> string \<Rightarrow> uint \<Rightarrow> string \<Rightarrow> ('s, 'r, 'p) world \<Rightarrow>
     (go_error + string) \<times> ('s, 'r, 'p) world" where
  "GenerateToken lib username userID role w =
     (if userID = 0 then (Inl (ErrText ''auth.GenerateToken: user id must be non-zero''), w)
      else if \<not> ValidRole role then (Inl (ErrText (''auth.GenerateToken: invalid role '' @ quoted role)), w)
      else if length (w_jwtkey w) < MinJWTSecretKeyBytes
        then (Inl (Prefixed ''auth.GenerateToken'' (Sentinel ErrJWTSigningKeyNotConfigured)), w)
      else
        (case on_rt NewOpaqueToken w of
           (Inl e, w) \<Rightarrow> (Inl (Prefixed ''auth.GenerateToken: jti'' e), w)
         | (Inr jti, w) \<Rightarrow>
             let (now, w) = on_rt time_now w;
                 exp = time_add now (AccessTokenTTL (w_rt w));
                 claims = \<lparr>cl_Username = username, cl_UserID = userID, cl_Role = role,
                           cl_ExpiresAt = Some (jwt_NumericDate lib exp),
                           cl_IssuedAt = Some (jwt_NumericDate lib now), cl_ID = jti\<rparr>
             in (jwt_SignedString lib SigningMethodHS256 (w_jwtkey w) claims, w)))"

section \<open>Properties\<close>

lemma ValidRole_simps [simp]: "ValidRole RoleUser" "ValidRole RoleAdmin"
  by (simp_all add: ValidRole_def)

lemma EffectiveRole_valid: "EffectiveRole role = Inr r \<Longrightarrow> ValidRole r"
  by (auto simp: EffectiveRole_def Let_def split: if_splits)

lemma TrimSpace_roles: "TrimSpace ''user'' = ''user''" "TrimSpace ''admin'' = ''admin''"
  by code_simp+

lemma EffectiveRole_of_valid [simp]: "ValidRole role \<Longrightarrow> EffectiveRole role = Inr role"
  by (auto simp: EffectiveRole_def ValidRole_def TrimSpace_roles RoleUser_def RoleAdmin_def)

lemma durationFromEnv_pos: "0 < d \<Longrightarrow> 0 < durationFromEnv key d rt"
  by (auto simp: durationFromEnv_def Let_def split: option.splits)

lemma AccessTokenTTL_pos: "0 < AccessTokenTTL rt" and RefreshTokenTTL_pos: "0 < RefreshTokenTTL rt"
  by (simp_all add: AccessTokenTTL_def RefreshTokenTTL_def durationFromEnv_pos
      defaultAccessTokenTTL_def defaultRefreshTokenTTL_def go_defs)

lemma TTL_env:
  "rt_env r' = rt_env r \<Longrightarrow> AccessTokenTTL r' = AccessTokenTTL r"
  "rt_env r' = rt_env r \<Longrightarrow> RefreshTokenTTL r' = RefreshTokenTTL r"
  by (simp_all add: AccessTokenTTL_def RefreshTokenTTL_def durationFromEnv_def)

lemma bcryptCost_range: "10 \<le> bcryptCostForPasswordHashing rt \<and> bcryptCostForPasswordHashing rt \<le> 31"
  by (auto simp: bcryptCostForPasswordHashing_def Let_def defaultBcryptCost_def minBcryptCost_def
      bcrypt_MinCost_def bcrypt_MaxCost_def split: option.splits)

text \<open>The random strings: their lengths, and what they leave alone.\<close>

lemma NewOpaqueToken_length: "NewOpaqueToken rt = (Inr t, rt') \<Longrightarrow> length t = 43"
  using rand_read_length [of refreshTokenBytes rt]
  by (auto simp: NewOpaqueToken_def refreshTokenBytes_def length_b64url_encode
      split: prod.splits option.splits)

lemma NewFamilyID_length: "NewFamilyID rt = (Inr t, rt') \<Longrightarrow> length t = 32"
  using rand_read_length [of familyIDBytes rt]
  by (auto simp: NewFamilyID_def familyIDBytes_def length_hex_encode split: prod.splits option.splits)

lemma NewOpaqueToken_frame [frame, simp]:
  "rt_env (snd (NewOpaqueToken rt)) = rt_env rt" "rt_time (snd (NewOpaqueToken rt)) = rt_time rt"
  "rt_tick (snd (NewOpaqueToken rt)) = rt_tick rt"
  by (auto simp: NewOpaqueToken_def rand_read_def split: prod.splits option.splits)

lemma NewFamilyID_frame [frame, simp]:
  "rt_env (snd (NewFamilyID rt)) = rt_env rt" "rt_time (snd (NewFamilyID rt)) = rt_time rt"
  "rt_tick (snd (NewFamilyID rt)) = rt_tick rt"
  by (auto simp: NewFamilyID_def rand_read_def split: prod.splits option.splits)

lemma HashRefreshToken_length:
  "length (sha256_Sum256 lib p) = 32 \<Longrightarrow> length (HashRefreshToken lib p) = 64"
  by (simp add: HashRefreshToken_def length_hex_encode)

lemma HashRefreshToken_inj:
  "HashRefreshToken lib p = HashRefreshToken lib q \<longleftrightarrow> sha256_Sum256 lib p = sha256_Sum256 lib q"
  by (simp add: HashRefreshToken_def hex_encode_inj)

text \<open>Signing only draws randomness and reads the clock.\<close>

definition rt_only :: "('s, 'r, 'p) world \<Rightarrow> ('s, 'r, 'p) world \<Rightarrow> bool" where
  "rt_only w w' \<longleftrightarrow> w' = w\<lparr>w_rt := w_rt w'\<rparr> \<and> rt_env (w_rt w') = rt_env (w_rt w) \<and>
     rt_time (w_rt w') = rt_time (w_rt w) \<and> rt_tick (w_rt w) \<le> rt_tick (w_rt w')"

lemma rt_only_refl [simp]: "rt_only w w"
  by (simp add: rt_only_def)

lemma rt_only_trans: "rt_only u v \<Longrightarrow> rt_only v w \<Longrightarrow> rt_only u w"
  by (cases u, cases v, cases w) (auto simp: rt_only_def)

lemma rt_onlyD:
  assumes "rt_only w w'"
  shows "w_store w' = w_store w" "w_redis w' = w_redis w" "w_pub w' = w_pub w"
    "w_jwtkey w' = w_jwtkey w" "w_apikey w' = w_apikey w" "w_published w' = w_published w"
    "rt_env (w_rt w') = rt_env (w_rt w)" "rt_time (w_rt w') = rt_time (w_rt w)"
    "rt_tick (w_rt w) \<le> rt_tick (w_rt w')"
proof -
  have eq: "w' = w\<lparr>w_rt := w_rt w'\<rparr>" using assms by (simp add: rt_only_def)
  show "w_store w' = w_store w" "w_redis w' = w_redis w" "w_pub w' = w_pub w"
    "w_jwtkey w' = w_jwtkey w" "w_apikey w' = w_apikey w" "w_published w' = w_published w"
    by (subst eq, simp)+
  show "rt_env (w_rt w') = rt_env (w_rt w)" "rt_time (w_rt w') = rt_time (w_rt w)"
    "rt_tick (w_rt w) \<le> rt_tick (w_rt w')"
    using assms by (simp_all add: rt_only_def)
qed

lemma on_rt_only:
  "rt_env (snd (f (w_rt w))) = rt_env (w_rt w) \<Longrightarrow> rt_time (snd (f (w_rt w))) = rt_time (w_rt w) \<Longrightarrow>
    rt_tick (w_rt w) \<le> rt_tick (snd (f (w_rt w))) \<Longrightarrow> rt_only w (snd (on_rt f w))"
  by (simp add: rt_only_def on_rt_eq)

lemma GenerateToken_rt_only: "rt_only w (snd (GenerateToken lib name uid role w))"
proof -
  have jti: "rt_only w (snd (on_rt NewOpaqueToken w))" for w :: "('s, 'r, 'p) world"
    by (rule on_rt_only) simp_all
  have now: "rt_only w (snd (on_rt time_now w))" for w :: "('s, 'r, 'p) world"
    by (rule on_rt_only) (simp_all add: time_now_def)
  show ?thesis
    using jti [of w] rt_only_trans [OF jti now, of w]
    by (auto simp: GenerateToken_def Let_def split: prod.splits sum.splits)
qed

text \<open>A token that is issued names a real user and role, was signed with the key, and expires.\<close>

lemma GenerateToken_done:
  assumes "GenerateToken lib name uid role w = (Inr tok, w')"
  shows "uid \<noteq> 0 \<and> ValidRole role \<and> 32 \<le> length (w_jwtkey w) \<and>
    (\<exists>jti now. length jti = 43 \<and> fst (NewOpaqueToken (w_rt w)) = Inr jti \<and>
       jwt_SignedString lib SigningMethodHS256 (w_jwtkey w)
         \<lparr>cl_Username = name, cl_UserID = uid, cl_Role = role,
          cl_ExpiresAt = Some (jwt_NumericDate lib (now + AccessTokenTTL (w_rt w))),
          cl_IssuedAt = Some (jwt_NumericDate lib now), cl_ID = jti\<rparr> = Inr tok \<and>
       now = rt_time (w_rt w) (rt_tick (w_rt w)))"
proof -
  obtain jti r where jti: "NewOpaqueToken (w_rt w) = (Inr jti, r)"
    using assms by (cases "NewOpaqueToken (w_rt w)"; cases "fst (NewOpaqueToken (w_rt w))")
      (auto simp: GenerateToken_def on_rt_def split: if_splits)
  have r: "rt_env r = rt_env (w_rt w)" "rt_time r = rt_time (w_rt w)" "rt_tick r = rt_tick (w_rt w)"
    using NewOpaqueToken_frame [of "w_rt w"] by (simp_all add: jti)
  have ttl: "AccessTokenTTL (r\<lparr>rt_tick := k\<rparr>) = AccessTokenTTL (w_rt w)" for k
    by (rule TTL_env) (simp add: r)
  from assms jti r NewOpaqueToken_length [OF jti] show ?thesis
    by (auto simp: ttl GenerateToken_def on_rt_def time_now_def Let_def go_defs MinJWTSecretKeyBytes_def
        split: if_splits)
qed

end
