(* ===== verification/Denylist.thy ===== *)
theory Denylist
  imports Auth_Tokens Redis_Laws
begin

text \<open>
  \<open>pkg/auth/denylist.go\<close>: the interface \<open>TokenDenylist\<close>, its no-op and Redis
  implementations, and the contract its clients (logout, the JWT middleware) use: the checks
  never fail, and nothing but Redis and the clock is touched.
\<close>

record ('s, 'r, 'p) TokenDenylist =
  dl_Deny :: "string \<Rightarrow> time \<Rightarrow> ('s, 'r, 'p) world \<Rightarrow> (go_error + unit) \<times> ('s, 'r, 'p) world"
  dl_IsDenied :: "string \<Rightarrow> ('s, 'r, 'p) world \<Rightarrow> (go_error + bool) \<times> ('s, 'r, 'p) world"
  dl_DenyUserBefore ::
    "uint \<Rightarrow> time \<Rightarrow> ('s, 'r, 'p) world \<Rightarrow> (go_error + unit) \<times> ('s, 'r, 'p) world"
  dl_IsUserRevoked ::
    "uint \<Rightarrow> time \<Rightarrow> ('s, 'r, 'p) world \<Rightarrow> (go_error + bool) \<times> ('s, 'r, 'p) world"

definition NoopDenylist :: "('s, 'r, 'p) TokenDenylist" where
  "NoopDenylist =
     \<lparr>dl_Deny = (\<lambda>jti until w. (Inr (), w)),
      dl_IsDenied = (\<lambda>jti w. (Inr False, w)),
      dl_DenyUserBefore = (\<lambda>userID before w. (Inr (), w)),
      dl_IsUserRevoked = (\<lambda>userID iat w. (Inr False, w))\<rparr>"

section \<open>The Redis denylist\<close>

definition denylistKeyPrefix :: string where
  "denylistKeyPrefix = ''v1:token_denylist:jti:''"

definition userRevokeBeforePref :: string where
  "userRevokeBeforePref = ''v1:token_denylist:user:''"

definition userRevokeBeforeSuff :: string where
  "userRevokeBeforeSuff = '':revoke_before''"

definition userRevokeBeforeKey :: "uint \<Rightarrow> string" where
  "userRevokeBeforeKey userID = userRevokeBeforePref @ show_nat (unat userID) @ userRevokeBeforeSuff"

definition rd_Deny ::
  "'r Cache \<Rightarrow> string \<Rightarrow> time \<Rightarrow> ('s, 'r, 'p) world \<Rightarrow> (go_error + unit) \<times> ('s, 'r, 'p) world" where
  "rd_Deny cache jti until w =
     (if jti = '''' then (Inl (ErrText ''auth: empty jti''), w)
      else
        let (now, w) = on_rt time_now w;
            ttl = time_sub until now
        in if ttl \<le> 0 then (Inr (), w)
           else
             (case on_redis (c_Set cache (denylistKeyPrefix @ jti) ''1'' ttl) w of
                (Inl e, w) \<Rightarrow> (Inl (Prefixed ''auth: denylist set'' e), w)
              | (Inr _, w) \<Rightarrow> (Inr (), w)))"

definition rd_IsDenied ::
  "'r Cache \<Rightarrow> string \<Rightarrow> ('s, 'r, 'p) world \<Rightarrow> (go_error + bool) \<times> ('s, 'r, 'p) world" where
  "rd_IsDenied cache jti w =
     (if jti = '''' then (Inr False, w)
      else
        (case on_redis (c_Get cache (denylistKeyPrefix @ jti)) w of
           (Inl e, w) \<Rightarrow> (Inr False, w)
         | (Inr _, w) \<Rightarrow> (Inr True, w)))"

definition rd_DenyUserBefore ::
  "'r Cache \<Rightarrow> uint \<Rightarrow> time \<Rightarrow> ('s, 'r, 'p) world \<Rightarrow> (go_error + unit) \<times> ('s, 'r, 'p) world" where
  "rd_DenyUserBefore cache userID before w =
     (if userID = 0 then (Inl (ErrText ''auth: empty user id''), w)
      else if time_is_zero before then (Inl (ErrText ''auth: empty revoke_before''), w)
      else
        let ttl = AccessTokenTTL (w_rt w)
        in if ttl \<le> 0 then (Inr (), w)
           else
             (case on_redis (c_Set cache (userRevokeBeforeKey userID)
                               (show_int (time_unix before)) ttl) w of
                (Inl e, w) \<Rightarrow> (Inl (Prefixed ''auth: user revoke_before set'' e), w)
              | (Inr _, w) \<Rightarrow> (Inr (), w)))"

definition rd_IsUserRevoked ::
  "'r Cache \<Rightarrow> uint \<Rightarrow> time \<Rightarrow> ('s, 'r, 'p) world \<Rightarrow> (go_error + bool) \<times> ('s, 'r, 'p) world" where
  "rd_IsUserRevoked cache userID iat w =
     (if userID = 0 \<or> time_is_zero iat then (Inr False, w)
      else
        (case on_redis (c_Get cache (userRevokeBeforeKey userID)) w of
           (Inl e, w) \<Rightarrow> (Inr False, w)
         | (Inr s, w) \<Rightarrow>
             (case ParseInt s of
                None \<Rightarrow> (Inr False, w)
              | Some ts \<Rightarrow> (Inr (time_unix iat \<le> ts), w))))"

definition RedisDenylist :: "'r Cache \<Rightarrow> ('s, 'r, 'p) TokenDenylist" where
  "RedisDenylist cache =
     \<lparr>dl_Deny = rd_Deny cache, dl_IsDenied = rd_IsDenied cache,
      dl_DenyUserBefore = rd_DenyUserBefore cache, dl_IsUserRevoked = rd_IsUserRevoked cache\<rparr>"

definition TokenDenylistEnabled :: "go_rt \<Rightarrow> bool" where
  "TokenDenylistEnabled rt =
     (let s = TrimSpace (rt_env rt ''TOKEN_DENYLIST_ENABLED'')
      in if s = '''' then True
         else if ToLower s \<in> {''1'', ''true'', ''yes'', ''on''} then True
         else if ToLower s \<in> {''0'', ''false'', ''no'', ''off''} then False
         else True)"

definition NewTokenDenylistFromEnv :: "'r Cache option \<Rightarrow> go_rt \<Rightarrow> ('s, 'r, 'p) TokenDenylist" where
  "NewTokenDenylistFromEnv c rt =
     (case c of
        None \<Rightarrow> NoopDenylist
      | Some cache \<Rightarrow> if \<not> TokenDenylistEnabled rt then NoopDenylist else RedisDenylist cache)"

section \<open>The contract\<close>

text \<open>Everything but Redis and the draws and readings of the run-time stays as it is.\<close>

definition redis_only :: "('s, 'r, 'p) world \<Rightarrow> ('s, 'r, 'p) world \<Rightarrow> bool" where
  "redis_only w w' \<longleftrightarrow>
     w_store w' = w_store w \<and> w_pub w' = w_pub w \<and> w_jwtkey w' = w_jwtkey w \<and>
     w_apikey w' = w_apikey w \<and> w_published w' = w_published w \<and>
     rt_env (w_rt w') = rt_env (w_rt w) \<and> rt_time (w_rt w') = rt_time (w_rt w) \<and>
     rt_tick (w_rt w) \<le> rt_tick (w_rt w')"

lemma redis_only_refl [simp]: "redis_only w w"
  by (simp add: redis_only_def)

lemma redis_only_trans: "redis_only u v \<Longrightarrow> redis_only v w \<Longrightarrow> redis_only u w"
  by (simp add: redis_only_def)

lemma on_redis_only: "redis_only w (snd (on_redis f w))"
  by (simp add: redis_only_def on_redis_eq)

lemma rt_redis_only: "rt_only w w' \<Longrightarrow> redis_only w w'"
  by (simp add: redis_only_def rt_onlyD)

lemma time_now_only: "rt_only w (snd (on_rt time_now w))"
  by (rule on_rt_only) (simp_all add: time_now_def)

locale token_denylist =
  fixes dl :: "('s, 'r, 'p) TokenDenylist"
  assumes deny_frame: "redis_only w (snd (dl_Deny dl jti until w))"
    and denied_frame: "redis_only w (snd (dl_IsDenied dl jti w))"
    and deny_user_frame: "redis_only w (snd (dl_DenyUserBefore dl userID before w))"
    and revoked_frame: "redis_only w (snd (dl_IsUserRevoked dl userID iat w))"
    and denied_total: "is_ok (fst (dl_IsDenied dl jti w))"
    and revoked_total: "is_ok (fst (dl_IsUserRevoked dl userID iat w))"
begin

lemma denied_result: obtains b w' where "dl_IsDenied dl jti w = (Inr b, w')" "redis_only w w'"
  using denied_frame [of w jti] denied_total [of jti w]
  by (cases "dl_IsDenied dl jti w"; cases "fst (dl_IsDenied dl jti w)") auto

lemma revoked_result:
  obtains b w' where "dl_IsUserRevoked dl userID iat w = (Inr b, w')" "redis_only w w'"
  using revoked_frame [of w userID iat] revoked_total [of userID iat w]
  by (cases "dl_IsUserRevoked dl userID iat w"; cases "fst (dl_IsUserRevoked dl userID iat w)") auto

end

interpretation noop_denylist: token_denylist NoopDenylist
  by unfold_locales (simp_all add: NoopDenylist_def)

lemma rd_frames:
  "redis_only w (snd (rd_Deny cache jti until w))" "redis_only w (snd (rd_IsDenied cache jti w))"
  "redis_only w (snd (rd_DenyUserBefore cache userID before w))"
  "redis_only w (snd (rd_IsUserRevoked cache userID iat w))"
proof -
  show "redis_only w (snd (rd_Deny cache jti until w))"
    using rt_redis_only [OF time_now_only [of w]]
      redis_only_trans [OF rt_redis_only [OF time_now_only [of w]] on_redis_only]
    by (auto simp: rd_Deny_def Let_def on_redis_eq split: prod.splits sum.splits)
  show "redis_only w (snd (rd_IsDenied cache jti w))"
    using on_redis_only [of w "c_Get cache (denylistKeyPrefix @ jti)"]
    by (auto simp: rd_IsDenied_def split: prod.splits sum.splits)
  show "redis_only w (snd (rd_DenyUserBefore cache userID before w))"
    using on_redis_only [of w "c_Set cache (userRevokeBeforeKey userID)
        (show_int (time_unix before)) (AccessTokenTTL (w_rt w))"]
    by (auto simp: rd_DenyUserBefore_def Let_def split: prod.splits sum.splits)
  show "redis_only w (snd (rd_IsUserRevoked cache userID iat w))"
    using on_redis_only [of w "c_Get cache (userRevokeBeforeKey userID)"]
    by (auto simp: rd_IsUserRevoked_def split: prod.splits sum.splits option.splits)
qed

interpretation redis_denylist: token_denylist "RedisDenylist cache" for cache
  by unfold_locales
    (simp_all add: RedisDenylist_def rd_frames,
     simp_all add: rd_IsDenied_def rd_IsUserRevoked_def split: prod.splits sum.splits option.splits)

section \<open>What a revocation does\<close>

text \<open>The keys of different tokens and users never meet.\<close>

lemma denylist_keys:
  "denylistKeyPrefix @ i = denylistKeyPrefix @ j \<longleftrightarrow> i = j"
  "userRevokeBeforeKey u = userRevokeBeforeKey v \<longleftrightarrow> u = v"
  "denylistKeyPrefix @ i \<noteq> userRevokeBeforeKey u"
  by (simp_all add: userRevokeBeforeKey_def userRevokeBeforePref_def denylistKeyPrefix_def show_nat_inj
      word_unat_eq_iff)

text \<open>A command answers when it does not fail on the way to the server.\<close>

definition answers :: "'r Cache \<Rightarrow> string \<Rightarrow> 'r \<Rightarrow> bool" where
  "answers cache k r \<longleftrightarrow>
     (case fst (c_Get cache k r) of Inl e \<Rightarrow> e = Sentinel ErrRedisNil | Inr _ \<Rightarrow> True)"

lemma answered_get:
  assumes "redis_laws cache content clock" and "answers cache k r"
  shows "fst (c_Get cache k r) =
    (case live (clock r) (content r k) of None \<Rightarrow> Inl (Sentinel ErrRedisNil) | Some v \<Rightarrow> Inr v)"
  using redis_lawsD(1) [OF assms(1)] assms(2)
  by (cases "c_Get cache k r") (auto simp: get_law_def answers_def split: sum.splits)

lemma rd_Deny_done:
  assumes laws: "redis_laws cache content clock"
    and deny: "rd_Deny cache jti until w = (Inr (), w')"
    and now: "now = rt_time (w_rt w) (rt_tick (w_rt w))" and later: "now < until"
    and range: "until - now \<le> max_int64"
  shows "\<exists>dl. content (w_redis w') =
      (content (w_redis w))(denylistKeyPrefix @ jti \<mapsto> (''1'', Some dl)) \<and>
    clock (w_redis w) + (until - now) - millisecond \<le> dl"
proof -
  have ttl: "time_sub until now = until - now" "\<not> time_sub until now \<le> 0"
    using later range by (simp_all add: time_sub_def min_int64_def)
  have "c_Set cache (denylistKeyPrefix @ jti) ''1'' (until - now) (w_redis w) =
      (Inr (), w_redis w')"
    using deny ttl
    by (auto simp: rd_Deny_def Let_def on_redis_eq on_rt_eq time_now_def now [symmetric]
        split: if_splits sum.splits prod.splits intro!: prod_eqI)
  then show ?thesis
    using redis_lawsD(2) [OF laws] later by (fastforce simp: set_law_def)
qed

lemma rd_IsDenied_read:
  assumes "redis_laws cache content clock" and "jti \<noteq> ''''"
    and "answers cache (denylistKeyPrefix @ jti) (w_redis w)"
  shows "fst (rd_IsDenied cache jti w) =
    Inr (live (clock (w_redis w)) (content (w_redis w) (denylistKeyPrefix @ jti)) \<noteq> None)"
  using answered_get [OF assms(1,3)] assms(2)
  by (auto simp: rd_IsDenied_def on_redis_eq split: sum.splits option.splits)

lemma rd_DenyUserBefore_done:
  assumes laws: "redis_laws cache content clock"
    and deny: "rd_DenyUserBefore cache u before w = (Inr (), w')"
  shows "\<exists>dl. content (w_redis w') = (content (w_redis w))
      (userRevokeBeforeKey u \<mapsto> (show_int (time_unix before), Some dl)) \<and>
    clock (w_redis w) + AccessTokenTTL (w_rt w) - millisecond \<le> dl"
proof -
  have ttl: "0 < AccessTokenTTL (w_rt w)" by (rule AccessTokenTTL_pos)
  have "c_Set cache (userRevokeBeforeKey u) (show_int (time_unix before))
      (AccessTokenTTL (w_rt w)) (w_redis w) = (Inr (), w_redis w')"
    using deny ttl
    by (auto simp: rd_DenyUserBefore_def Let_def on_redis_eq
        split: if_splits sum.splits prod.splits intro!: prod_eqI)
  then show ?thesis
    using redis_lawsD(2) [OF laws] ttl by (fastforce simp: set_law_def)
qed

lemma rd_IsUserRevoked_read:
  assumes "redis_laws cache content clock" and "u \<noteq> 0" and "\<not> time_is_zero iat"
    and "answers cache (userRevokeBeforeKey u) (w_redis w)"
  shows "fst (rd_IsUserRevoked cache u iat w) = Inr
    (case live (clock (w_redis w)) (content (w_redis w) (userRevokeBeforeKey u)) of
       None \<Rightarrow> False
     | Some s \<Rightarrow> (case ParseInt s of None \<Rightarrow> False | Some ts \<Rightarrow> time_unix iat \<le> ts))"
  using answered_get [OF assms(1,4)] assms(2,3)
  by (auto simp: rd_IsUserRevoked_def on_redis_eq split: sum.splits option.splits)

end
