(* ===== verification/Middleware_Auth.thy ===== *)
theory Middleware_Auth
  imports Gin Denylist
begin

text \<open>
  The middlewares that decide who may call: the shared API key (\<open>api_key.go\<close>), the bearer
  JWT (\<open>jwt_auth.go\<close>) and the role check (\<open>rbac.go\<close>) of \<open>pkg/middleware\<close>.
\<close>

section \<open>api\_key.go\<close>

definition MinAPISecretKeyBytes :: nat where "MinAPISecretKeyBytes = 32"

definition SetAPISecretKey ::
  "string \<Rightarrow> ('s, 'r, 'p) world \<Rightarrow> (go_error + unit) \<times> ('s, 'r, 'p) world" where
  "SetAPISecretKey secret w =
     (if length secret < MinAPISecretKeyBytes
      then (Inl (Wrapped ErrAPISecretKeyTooShort
                   (ErrText (''got '' @ show_nat (length secret) @ '' bytes, need at least '' @
                             show_nat MinAPISecretKeyBytes))), w)
      else (Inr (), w\<lparr>w_apikey := secret\<rparr>))"

text \<open>A reset that only the tests call.\<close>

definition ClearAPISecretKeyForTesting :: "('s, 'r, 'p) world \<Rightarrow> ('s, 'r, 'p) world" where
  "ClearAPISecretKeyForTesting w = w\<lparr>w_apikey := ''''\<rparr>"

definition apiSecretCopy :: "('s, 'r, 'p) world \<Rightarrow> string" where
  "apiSecretCopy w = w_apikey w"

text \<open>\<open>binary.BigEndian.PutUint64\<close>: the eight bytes of the number modulo \<open>2^64\<close>.\<close>

definition PutUint64 :: "nat \<Rightarrow> string" where
  "PutUint64 n = map (\<lambda>i. char_of (n div 256 ^ (7 - i))) [0..<8]"

text \<open>\<open>subtle.ConstantTimeCompare\<close>: 1 when the slices are equal.\<close>

definition ConstantTimeCompare :: "string \<Rightarrow> string \<Rightarrow> int" where
  "ConstantTimeCompare x y = (if x = y then 1 else 0)"

definition constantTimeAPIKeyEqual :: "string \<Rightarrow> string \<Rightarrow> bool" where
  "constantTimeAPIKeyEqual provided secret =
     (if length secret = 0 then False
      else
        let n = length secret;
            p = provided;
            candidate = (if length p \<ge> n then take n p
                         else p @ replicate (n - length p) (char_of (0 :: nat)));
            la = PutUint64 (length p);
            lb = PutUint64 n;
            left = candidate @ la;
            right = secret @ lb
        in ConstantTimeCompare left right = 1)"

definition APIKeyAuth :: "('s, 'r, 'p) middleware" where
  "APIKeyAuth next c w =
     (let secret = apiSecretCopy w
      in if length secret < MinAPISecretKeyBytes
         then (httperr_Abort 503 ''API secret key not configured'' c, w)
         else
           let apiKey = g_GetHeader c ''X-API-Key''
           in if constantTimeAPIKeyEqual apiKey secret then next c w
              else (httperr_Abort 401 ''Unauthorized'' c, w))"

section \<open>jwt\_auth.go\<close>

definition ContextUserID :: string where "ContextUserID = ''user_id''"
definition ContextRole :: string where "ContextRole = ''role''"
definition ContextJTI :: string where "ContextJTI = ''jti''"
definition ContextAccessExp :: string where "ContextAccessExp = ''access_exp''"
definition BearerSchema :: string where "BearerSchema = ''Bearer ''"

lemmas context_keys = ContextUserID_def ContextRole_def ContextJTI_def ContextAccessExp_def

definition set_claims :: "Claims \<Rightarrow> gin_ctx \<Rightarrow> gin_ctx" where
  "set_claims claims c =
     (let c = set_key ''username'' (VStr (cl_Username claims)) c;
          c = set_key ContextUserID (VUint (cl_UserID claims)) c;
          c = set_key ContextRole (VStr (cl_Role claims)) c;
          c = set_key ContextJTI (VStr (cl_ID claims)) c
      in case cl_ExpiresAt claims of
           None \<Rightarrow> c
         | Some e \<Rightarrow> set_key ContextAccessExp (VTime e) c)"

text \<open>
  The checks against the denylist: \<open>None\<close> to go on, or the message of the refusal.
  \<open>jwt.ParseWithClaims\<close> reads the clock.
\<close>

definition denylist_check ::
  "('s, 'r, 'p) TokenDenylist \<Rightarrow> Claims \<Rightarrow> ('s, 'r, 'p) world \<Rightarrow> string option \<times> ('s, 'r, 'p) world" where
  "denylist_check denylist claims w =
     (let jti_check =
        (if cl_ID claims \<noteq> '''' then
           (case dl_IsDenied denylist (cl_ID claims) w of
              (Inl e, w) \<Rightarrow> (Some ''Invalid token'', w)
            | (Inr denied, w) \<Rightarrow> (if denied then Some ''Token revoked'' else None, w))
         else (None, w))
      in case jti_check of
           (Some msg, w) \<Rightarrow> (Some msg, w)
         | (None, w) \<Rightarrow>
             (case cl_IssuedAt claims of
                None \<Rightarrow> (None, w)
              | Some iat \<Rightarrow>
                  (case dl_IsUserRevoked denylist (cl_UserID claims) iat w of
                     (Inl e, w) \<Rightarrow> (Some ''Invalid token'', w)
                   | (Inr revoked, w) \<Rightarrow> (if revoked then Some ''Token revoked'' else None, w))))"

definition JWTAuth ::
  "crypto_lib \<Rightarrow> ('s, 'r, 'p) TokenDenylist \<Rightarrow> ('s, 'r, 'p) middleware" where
  "JWTAuth lib denylist next c w =
     (let header = g_GetHeader c ''Authorization''
      in if header = '''' then (httperr_Abort 401 ''Missing Authorization Header'' c, w)
         else if \<not> starts_with BearerSchema header
           then (httperr_Abort 401 ''Invalid Authorization Header'' c, w)
         else
           let signingKey = JWTSigningKey w
           in if length signingKey < MinJWTSecretKeyBytes
              then (httperr_Abort 503 ''JWT signing key not configured'' c, w)
              else
                let tokenStr = drop (length BearerSchema) header;
                    (now, w) = on_rt time_now w
                in case jwt_Parse lib now tokenStr (JWTKeyFunc signingKey) of
                     Inl e \<Rightarrow> (httperr_Abort 401 ''Invalid token'' c, w)
                   | Inr (valid, claims) \<Rightarrow>
                       if \<not> valid then (httperr_Abort 401 ''Invalid token'' c, w)
                       else if cl_UserID claims = 0 then (httperr_Abort 401 ''Invalid token'' c, w)
                       else if \<not> ValidRole (cl_Role claims)
                         then (httperr_Abort 401 ''Invalid token'' c, w)
                       else
                         (case denylist_check denylist claims w of
                            (Some msg, w) \<Rightarrow> (httperr_Abort 401 msg c, w)
                          | (None, w) \<Rightarrow> next (set_claims claims c) w))"

section \<open>rbac.go\<close>

definition RequireRole :: "string list \<Rightarrow> ('s, 'r, 'p) middleware" where
  "RequireRole allowed next c w =
     (let allowedSet = set (filter (\<lambda>r. r \<noteq> '''') allowed)
      in case g_Keys c ContextRole of
           None \<Rightarrow> (httperr_Abort 403 ''forbidden'' c, w)
         | Some v \<Rightarrow>
             let role = (case v of VStr s \<Rightarrow> s | _ \<Rightarrow> '''')
             in if role \<notin> allowedSet then (httperr_Abort 403 ''forbidden'' c, w)
                else next c w)"

section \<open>The API key\<close>

lemma PutUint64_length: "length (PutUint64 n) = 8"
  by (simp add: PutUint64_def)

lemma PutUint64_inj:
  assumes "m < 2 ^ 64" and "n < 2 ^ 64" and "PutUint64 m = PutUint64 n"
  shows "m = n"
proof -
  have digit: "m div 256 ^ k mod 256 = n div 256 ^ k mod 256" if "k < 8" for k
  proof -
    have "map (\<lambda>i. char_of (m div 256 ^ (7 - i)) :: char) [0..<8] ! (7 - k) =
        map (\<lambda>i. char_of (n div 256 ^ (7 - i))) [0..<8] ! (7 - k)"
      using assms(3) unfolding PutUint64_def by simp
    moreover have "[0..<8] ! (7 - k) = 7 - k" "7 - (7 - k) = k" using that by (auto simp: nth_upt)
    ultimately have "(char_of (m div 256 ^ k) :: char) = char_of (n div 256 ^ k)"
      using that by simp
    then have "(of_char (char_of (m div 256 ^ k) :: char) :: nat) =
        of_char (char_of (n div 256 ^ k) :: char)" by (rule arg_cong)
    then show ?thesis by (simp only: of_char_of)
  qed
  have quot: "m div 256 ^ (8 - j) = n div 256 ^ (8 - j)" if "j \<le> 8" for j
    using that
  proof (induction j)
    case 0
    then show ?case using assms(1,2) by simp
  next
    case (Suc j)
    define k where "k = 8 - Suc j"
    have k: "8 - j = Suc k" "k < 8" using Suc.prems by (auto simp: k_def)
    have expand: "x div 256 ^ k = 256 * (x div 256 ^ Suc k) + x div 256 ^ k mod 256" for x :: nat
      unfolding power_Suc2 div_mult2_eq by simp
    show ?case
      using Suc.IH Suc.prems digit [OF k(2)] expand [of m] expand [of n]
      unfolding k(1) k_def [symmetric] by simp
  qed
  from quot [of 8] show ?thesis by simp
qed

lemma constantTimeAPIKeyEqual_iff:
  assumes "length p < 2 ^ 64" and "length s < 2 ^ 64"
  shows "constantTimeAPIKeyEqual p s \<longleftrightarrow> s \<noteq> [] \<and> p = s"
proof (cases "s = []")
  case True
  then show ?thesis by (simp add: constantTimeAPIKeyEqual_def)
next
  case False
  let ?cand = "if length s \<le> length p then take (length s) p
    else p @ replicate (length s - length p) (char_of (0 :: nat))"
  have len: "length ?cand = length s" by simp
  have "constantTimeAPIKeyEqual p s \<longleftrightarrow>
      ?cand @ PutUint64 (length p) = s @ PutUint64 (length s)"
    using False by (simp add: constantTimeAPIKeyEqual_def ConstantTimeCompare_def Let_def)
  also have "\<dots> \<longleftrightarrow> ?cand = s \<and> PutUint64 (length p) = PutUint64 (length s)"
    using len by (intro append_eq_append_conv) simp
  also have "\<dots> \<longleftrightarrow> p = s"
    using PutUint64_inj [OF assms] by auto
  finally show ?thesis using False by simp
qed

text \<open>The middleware runs the rest of the chain exactly when the header is the secret.\<close>

lemma APIKeyAuth_cases:
  assumes "length (g_GetHeader c ''X-API-Key'') < 2 ^ 64" and "length (w_apikey w) < 2 ^ 64"
  obtains (unset) "length (w_apikey w) < 32"
      "APIKeyAuth next c w = (httperr_Abort 503 ''API secret key not configured'' c, w)"
  | (allowed) "32 \<le> length (w_apikey w)" "g_GetHeader c ''X-API-Key'' = w_apikey w"
      "APIKeyAuth next c w = next c w"
  | (denied) "32 \<le> length (w_apikey w)" "g_GetHeader c ''X-API-Key'' \<noteq> w_apikey w"
      "APIKeyAuth next c w = (httperr_Abort 401 ''Unauthorized'' c, w)"
proof (cases "length (w_apikey w) < 32")
  case True
  then show thesis by (intro unset) (simp_all add: APIKeyAuth_def apiSecretCopy_def MinAPISecretKeyBytes_def)
next
  case False
  then have "w_apikey w \<noteq> []" by auto
  with False constantTimeAPIKeyEqual_iff [OF assms] show thesis
    by (cases "g_GetHeader c ''X-API-Key'' = w_apikey w")
      (auto simp: APIKeyAuth_def apiSecretCopy_def MinAPISecretKeyBytes_def Let_def
        intro: allowed denied)
qed

section \<open>The bearer token\<close>

text \<open>The checks never fail and change nothing but Redis (theory Denylist).\<close>

context token_denylist begin

lemma denylist_check_frame: "redis_only w (snd (denylist_check dl claims w))"
proof -
  have user: "redis_only v (snd (case cl_IssuedAt claims of
      None \<Rightarrow> (None, v)
    | Some iat \<Rightarrow>
        (case dl_IsUserRevoked dl (cl_UserID claims) iat v of
           (Inl e, w) \<Rightarrow> (Some ''Invalid token'', w)
         | (Inr revoked, w) \<Rightarrow> (if revoked then Some ''Token revoked'' else None, w))))" for v
  proof (cases "cl_IssuedAt claims")
    case (Some iat)
    with revoked_frame [of v "cl_UserID claims" iat] show ?thesis
      by (cases "dl_IsUserRevoked dl (cl_UserID claims) iat v") (simp split: sum.split)
  qed simp
  show ?thesis
  proof (cases "cl_ID claims = []")
    case True
    with user [of w] show ?thesis by (simp add: denylist_check_def)
  next
    case False
    obtain x w1 where d: "dl_IsDenied dl (cl_ID claims) w = (x, w1)"
      by (cases "dl_IsDenied dl (cl_ID claims) w")
    then have fr: "redis_only w w1" using denied_frame [of w "cl_ID claims"] by simp
    with False d redis_only_trans [OF fr user [of w1]] show ?thesis
      by (cases x) (simp_all add: denylist_check_def Let_def)
  qed
qed

text \<open>
  Whatever the rest of the chain is, it runs only for a token that golang-jwt accepted under
  HS256 and the configured key, with a user and a role in it.
\<close>

lemma JWTAuth_cases:
  obtains (refused) code msg w' where "JWTAuth lib dl next c w = (httperr_Abort code msg c, w')"
      "redis_only w w'" "code = 401 \<or> code = 503"
  | (accepted) claims w' now where "JWTAuth lib dl next c w = next (set_claims claims c) w'"
      "redis_only w w'" "starts_with BearerSchema (g_GetHeader c ''Authorization'')"
      "32 \<le> length (w_jwtkey w)" "now = rt_time (w_rt w) (rt_tick (w_rt w))"
      "jwt_Parse lib now (drop (length BearerSchema) (g_GetHeader c ''Authorization''))
         (JWTKeyFunc (w_jwtkey w)) = Inr (True, claims)"
      "cl_UserID claims \<noteq> 0" "ValidRole (cl_Role claims)"
      "(None, w') = denylist_check dl claims (snd (on_rt time_now w))"
proof -
  let ?h = "g_GetHeader c ''Authorization''"
  let ?now = "rt_time (w_rt w) (rt_tick (w_rt w))"
  let ?p = "jwt_Parse lib ?now (drop (length BearerSchema) ?h) (JWTKeyFunc (w_jwtkey w))"
  obtain w1 where tick: "on_rt time_now w = (?now, w1)" by (simp add: on_rt_eq time_now_def)
  have fr: "redis_only w w1" using rt_redis_only [OF time_now_only [of w]] tick by simp
  consider "?h = ''''" | "?h \<noteq> ''''" "\<not> starts_with BearerSchema ?h"
    | "?h \<noteq> ''''" "starts_with BearerSchema ?h" "length (w_jwtkey w) < 32"
    | (parse) "?h \<noteq> ''''" "starts_with BearerSchema ?h" "\<not> length (w_jwtkey w) < 32" by blast
  then show thesis
  proof cases
    case parse
    then have step: "JWTAuth lib dl next c w =
       (case ?p of
          Inl e \<Rightarrow> (httperr_Abort 401 ''Invalid token'' c, w1)
        | Inr (valid, claims) \<Rightarrow>
            if \<not> valid \<or> cl_UserID claims = 0 \<or> \<not> ValidRole (cl_Role claims)
              then (httperr_Abort 401 ''Invalid token'' c, w1)
            else
              (case denylist_check dl claims w1 of
                 (Some msg, w) \<Rightarrow> (httperr_Abort 401 msg c, w)
               | (None, w) \<Rightarrow> next (set_claims claims c) w))"
      by (cases ?p) (simp_all add: JWTAuth_def JWTSigningKey_def MinJWTSecretKeyBytes_def Let_def
          tick split: prod.split)
    show thesis
    proof (cases ?p)
      case (Inl e)
      with step fr show thesis by (intro refused [of 401 "''Invalid token''" w1]) simp_all
    next
      case (Inr vc)
      obtain valid claims where vc: "vc = (valid, claims)" by (cases vc)
      obtain m w' where d: "denylist_check dl claims w1 = (m, w')"
        by (cases "denylist_check dl claims w1")
      have fr': "redis_only w w'"
        using redis_only_trans [OF fr denylist_check_frame [of w1 claims]] d by simp
      show thesis
      proof (cases "\<not> valid \<or> cl_UserID claims = 0 \<or> \<not> ValidRole (cl_Role claims)")
        case True
        with step Inr vc fr show thesis by (intro refused [of 401 "''Invalid token''" w1]) auto
      next
        case False
        with step Inr vc d parse fr' show thesis
          by (cases m) (auto simp: tick intro: refused [of 401 _ w'] accepted [of claims w' ?now])
      qed
    qed
  next
    case 1
    then show thesis by (intro refused [of 401 "''Missing Authorization Header''" w])
        (simp_all add: JWTAuth_def)
  next
    case 2
    then show thesis by (intro refused [of 401 "''Invalid Authorization Header''" w])
        (simp_all add: JWTAuth_def)
  next
    case 3
    then show thesis by (intro refused [of 503 "''JWT signing key not configured''" w])
        (simp_all add: JWTAuth_def JWTSigningKey_def MinJWTSecretKeyBytes_def)
  qed
qed

end

section \<open>Roles\<close>

lemma RequireRole_cases:
  obtains (refused) "RequireRole allowed next c w = (httperr_Abort 403 ''forbidden'' c, w)"
  | (allowed) role where "RequireRole allowed next c w = next c w" "role \<in> set allowed"
      "role \<noteq> ''''" "g_Keys c ContextRole = Some (VStr role)"
proof (cases "\<exists>role. g_Keys c ContextRole = Some (VStr role) \<and> role \<in> set allowed \<and> role \<noteq> []")
  case True
  then show thesis by (auto simp: RequireRole_def Let_def intro: allowed)
next
  case False
  then have "RequireRole allowed next c w = (httperr_Abort 403 ''forbidden'' c, w)"
    by (auto simp: RequireRole_def Let_def split: option.split ctx_val.split)
  then show thesis by (rule refused)
qed

end
