(* ===== verification/API_Books.thy ===== *)
theory API_Books
  imports Middleware_Auth Book_Service Book_List
begin

text \<open>
  The handlers of the book routes, \<open>pkg/api/books.go\<close>: parsing of the identifier and of the
  list query, the identity \<open>JWTAuth\<close> left in the context, and the mapping of service errors
  to statuses. gin's \<open>c.ShouldBindJSON\<close> reads and validates the body; it is the parameter
  \<open>binders\<close>, one field for each type of body. A context handed to a handler is never nil.
\<close>

record binders =
  bind_CreateBook :: "gin_ctx \<Rightarrow> go_error + CreateBook"
  bind_ReplaceBook :: "gin_ctx \<Rightarrow> go_error + ReplaceBook"
  bind_PatchBook :: "gin_ctx \<Rightarrow> go_error + PatchBook"
  bind_LoginUser :: "gin_ctx \<Rightarrow> go_error + LoginUser"
  bind_RefreshRequest :: "gin_ctx \<Rightarrow> go_error + RefreshRequest"
  bind_LogoutRequest :: "gin_ctx \<Rightarrow> go_error + LogoutRequest"

section \<open>Parameters\<close>

definition findBooksMinLimit :: int where "findBooksMinLimit = 1"
definition findBooksMaxLimit :: int where "findBooksMaxLimit = 100"

text \<open>A parser returns the value, or the context with the response it wrote.\<close>

definition parseIDParam :: "gin_ctx \<Rightarrow> gin_ctx + uint" where
  "parseIDParam c =
     (case ParseUint (g_Param c ''id'') of
        None \<Rightarrow> Inl (httperr_Write 400 ''Invalid id format'' c)
      | Some i \<Rightarrow> Inr (of_nat i))"

definition parseOffsetLimit :: "gin_ctx \<Rightarrow> gin_ctx + int \<times> int" where
  "parseOffsetLimit c =
     (let offsetQuery = TrimSpace (DefaultQuery c ''offset'' ''0'');
          limitQuery = TrimSpace (DefaultQuery c ''limit'' ''10'')
      in case Atoi offsetQuery of
           None \<Rightarrow> Inl (httperr_Write 400 ''Invalid offset format'' c)
         | Some off \<Rightarrow>
             (case Atoi limitQuery of
                None \<Rightarrow> Inl (httperr_Write 400 ''Invalid limit format'' c)
              | Some l \<Rightarrow>
                  if off < 0 then Inl (httperr_Write 400 ''offset must be >= 0'' c)
                  else if l < findBooksMinLimit
                    then Inl (httperr_Write 400 ''limit must be at least 1'' c)
                  else Inr (off, if l > findBooksMaxLimit then findBooksMaxLimit else l)))"

definition parseOwnerID :: "gin_ctx \<Rightarrow> gin_ctx + uint option" where
  "parseOwnerID c =
     (let ownerRaw = TrimSpace (Query c ''owner_id'')
      in if ownerRaw \<noteq> '''' then
           (case ParseUint ownerRaw of
              None \<Rightarrow> Inl (httperr_Write 400 ''Invalid owner_id format'' c)
            | Some i \<Rightarrow> Inr (Some (of_nat i)))
         else Inr None)"

definition parseBookListQuery :: "gin_ctx \<Rightarrow> gin_ctx + BookListQuery" where
  "parseBookListQuery c =
     (case parseOffsetLimit c of
        Inl c \<Rightarrow> Inl c
      | Inr (offset, limit) \<Rightarrow>
          let titleLike = TrimSpace (Query c ''title_like'');
              authorLike = TrimSpace (Query c ''author_like'')
          in case parseOwnerID c of
               Inl c \<Rightarrow> Inl c
             | Inr owner \<Rightarrow>
                 let srt = ToLower (TrimSpace (DefaultQuery c ''sort'' ''id''))
                 in if srt \<notin> set BookListSortFields
                    then Inl (httperr_Write 400 ''Invalid sort field'' c)
                    else
                      let order = ToLower (TrimSpace (DefaultQuery c ''order'' ''asc''))
                      in if order \<noteq> ''asc'' \<and> order \<noteq> ''desc''
                         then Inl (httperr_Write 400 ''Invalid order; must be asc or desc'' c)
                         else Inr \<lparr>q_Offset = offset, q_Limit = limit, q_TitleLike = titleLike,
                                   q_AuthorLike = authorLike, q_OwnerID = owner, q_Sort = srt,
                                   q_Order = order\<rparr>)"

definition contextUserID :: "gin_ctx \<Rightarrow> uint option" where
  "contextUserID c =
     (case g_Keys c ContextUserID of
        Some (VUint i) \<Rightarrow> if i > 0 then Some i else None
      | _ \<Rightarrow> None)"

section \<open>Handlers\<close>

definition Healthcheck :: "('s, 'r, 'p) handler" where
  "Healthcheck c w = (httpresp_OK (DataText ''ok'') c, w)"

definition FindBooks :: "json_lib \<Rightarrow> ('s, 'r, 'p) BookService \<Rightarrow> ('s, 'r, 'p) handler" where
  "FindBooks json svc c w =
     (case parseBookListQuery c of
        Inl c \<Rightarrow> (c, w)
      | Inr q \<Rightarrow>
          (case ListBooks json svc q w of
             (Inl err, w) \<Rightarrow>
               ((if errors_is err ErrListBooksDB
                 then httperr_Write 500 ''Failed to list books'' c
                 else if errors_is err ErrListBooksMarshal
                 then httperr_Write 500 ''Failed to marshal data'' c
                 else if errors_is err ErrListBooksRedis
                 then httperr_Write 500 ''Failed to set cache'' c
                 else if errors_is err ErrListBooksUnmarshal
                 then httperr_Write 500 ''Failed to unmarshal cached data'' c
                 else httperr_Write 500 ''Failed to list books'' c), w)
           | (Inr books, w) \<Rightarrow> (httpresp_OK (DataBooks books) c, w)))"

definition h_CreateBook :: "binders \<Rightarrow> ('s, 'r, 'p) BookService \<Rightarrow> ('s, 'r, 'p) handler" where
  "h_CreateBook bnd svc c w =
     (case contextUserID c of
        None \<Rightarrow> (httperr_Write 401 ''Unauthorized'' c, w)
      | Some ownerID \<Rightarrow>
          (case bind_CreateBook bnd c of
             Inl err \<Rightarrow> (httperr_Write 400 (error_text err) c, w)
           | Inr input \<Rightarrow>
               (case svc_CreateBook svc ownerID (cb_Title input) (cb_Author input) w of
                  (Inl err, w) \<Rightarrow> (httperr_Write 500 ''Failed to create book'' c, w)
                | (Inr book, w) \<Rightarrow> (httpresp_Created (DataBook book) c, w))))"

definition FindBook :: "('s, 'r, 'p) BookService \<Rightarrow> ('s, 'r, 'p) handler" where
  "FindBook svc c w =
     (case parseIDParam c of
        Inl c \<Rightarrow> (c, w)
      | Inr i \<Rightarrow>
          (case GetBook svc i w of
             (Inl err, w) \<Rightarrow>
               if IsBookNotFound err then (httperr_Write 404 ''book not found'' c, w)
               else (httperr_Write 500 ''Failed to load book'' c, w)
           | (Inr book, w) \<Rightarrow> (httpresp_OK (DataBook book) c, w)))"

definition UpdateBook :: "binders \<Rightarrow> ('s, 'r, 'p) BookService \<Rightarrow> ('s, 'r, 'p) handler" where
  "UpdateBook bnd svc c w =
     (case contextUserID c of
        None \<Rightarrow> (httperr_Write 401 ''Unauthorized'' c, w)
      | Some actorID \<Rightarrow>
          (case parseIDParam c of
             Inl c \<Rightarrow> (c, w)
           | Inr i \<Rightarrow>
               (case bind_ReplaceBook bnd c of
                  Inl err \<Rightarrow> (httperr_Write 400 (error_text err) c, w)
                | Inr input \<Rightarrow>
                    (case svc_ReplaceBook svc actorID i (rb_Title input) (rb_Author input) w of
                       (Inl err, w) \<Rightarrow>
                         if IsBookNotFound err then (httperr_Write 404 ''book not found'' c, w)
                         else if errors_is err ErrBookForbidden
                           then (httperr_Write 403 ''forbidden'' c, w)
                         else (httperr_Write 500 ''Failed to update book'' c, w)
                     | (Inr book, w) \<Rightarrow> (httpresp_OK (DataBook book) c, w)))))"

definition PatchBook :: "binders \<Rightarrow> ('s, 'r, 'p) BookService \<Rightarrow> ('s, 'r, 'p) handler" where
  "PatchBook bnd svc c w =
     (case contextUserID c of
        None \<Rightarrow> (httperr_Write 401 ''Unauthorized'' c, w)
      | Some actorID \<Rightarrow>
          (case parseIDParam c of
             Inl c \<Rightarrow> (c, w)
           | Inr i \<Rightarrow>
               (case bind_PatchBook bnd c of
                  Inl err \<Rightarrow> (httperr_Write 400 (error_text err) c, w)
                | Inr input \<Rightarrow>
                    if pb_Title input = None \<and> pb_Author input = None
                    then (httperr_Write 400 ''at least one of title or author is required'' c, w)
                    else
                      (case svc_PatchBook svc actorID i (pb_Title input) (pb_Author input) w of
                         (Inl err, w) \<Rightarrow>
                           if IsBookNotFound err then (httperr_Write 404 ''book not found'' c, w)
                           else if errors_is err ErrBookForbidden
                             then (httperr_Write 403 ''forbidden'' c, w)
                           else (httperr_Write 500 ''Failed to update book'' c, w)
                       | (Inr book, w) \<Rightarrow> (httpresp_OK (DataBook book) c, w)))))"

definition DeleteBook :: "('s, 'r, 'p) BookService \<Rightarrow> ('s, 'r, 'p) handler" where
  "DeleteBook svc c w =
     (case contextUserID c of
        None \<Rightarrow> (httperr_Write 401 ''Unauthorized'' c, w)
      | Some actorID \<Rightarrow>
          (case parseIDParam c of
             Inl c \<Rightarrow> (c, w)
           | Inr i \<Rightarrow>
               (case svc_DeleteBook svc actorID i w of
                  (Inl err, w) \<Rightarrow>
                    if IsBookNotFound err then (httperr_Write 404 ''book not found'' c, w)
                    else if errors_is err ErrBookForbidden
                      then (httperr_Write 403 ''forbidden'' c, w)
                    else (httperr_Write 500 ''Failed to delete book'' c, w)
                | (Inr _, w) \<Rightarrow> (set_status 204 c, w))))"

end
