(* ===== verification/User_Service.thy ===== *)
theory User_Service
  imports Contracts Denylist Repo_Base
begin

text \<open>
  \<open>UserService\<close> of \<open>pkg/service/user_service.go\<close>: login, rotation of refresh tokens with reuse
  detection, logout and registration, over the persistence interfaces and the denylist.
\<close>

record ('s, 'r, 'p) UserService =
  uv_users :: "'s UserPersistence"
  uv_refresh :: "'s RefreshTokenPersistence option"
  uv_denylist :: "('s, 'r, 'p) TokenDenylist"

definition NewUserService ::
  "'s UserPersistence \<Rightarrow> 's RefreshTokenPersistence option \<Rightarrow> ('s, 'r, 'p) TokenDenylist option \<Rightarrow>
     ('s, 'r, 'p) UserService" where
  "NewUserService users refresh denylist =
     \<lparr>uv_users = users, uv_refresh = refresh,
      uv_denylist = (case denylist of None \<Rightarrow> NoopDenylist | Some d \<Rightarrow> d)\<rparr>"

text \<open>\<open>&models.RefreshToken{...}\<close>, the other fields at their zero values.\<close>

definition newToken :: "uint \<Rightarrow> string \<Rightarrow> string \<Rightarrow> time \<Rightarrow> RefreshToken" where
  "newToken userID hash familyID expiresAt =
     \<lparr>tk_ID = 0, tk_UserID = userID, tk_TokenHash = hash, tk_FamilyID = familyID,
      tk_ExpiresAt = expiresAt, tk_ConsumedAt = None, tk_RevokedAt = None,
      tk_CreatedAt = time_zero, tk_UpdatedAt = time_zero\<rparr>"

section \<open>Login\<close>

definition issueTokenPairWithFamily ::
  "crypto_lib \<Rightarrow> ('s, 'r, 'p) UserService \<Rightarrow> User \<Rightarrow> string \<Rightarrow> ('s, 'r, 'p) world \<Rightarrow>
     (go_error + TokenPair) \<times> ('s, 'r, 'p) world" where
  "issueTokenPairWithFamily lib s dbUser familyID w =
     (case EffectiveRole (u_Role dbUser) of
        Inl e \<Rightarrow> (Inl (fmtError ErrTokenGenerate e), w)
      | Inr role \<Rightarrow>
          (case GenerateToken lib (u_Username dbUser) (u_ID dbUser) role w of
             (Inl e, w) \<Rightarrow> (Inl (fmtError ErrTokenGenerate e), w)
           | (Inr access, w) \<Rightarrow>
               (case on_rt NewOpaqueToken w of
                  (Inl e, w) \<Rightarrow> (Inl (fmtError ErrTokenGenerate e), w)
                | (Inr plain, w) \<Rightarrow>
                    (case uv_refresh s of
                       None \<Rightarrow> (Inl (Sentinel ErrRefreshPersist), w)
                     | Some refresh \<Rightarrow>
                         let (now, w) = on_rt time_now w;
                             row = newToken (u_ID dbUser) (HashRefreshToken lib plain) familyID
                                     (time_add now (RefreshTokenTTL (w_rt w)))
                         in case on_store (rf_Create refresh row) w of
                              (Inl e, w) \<Rightarrow> (Inl (fmtError ErrRefreshPersist e), w)
                            | (Inr _, w) \<Rightarrow>
                                (Inr \<lparr>tp_AccessToken = access, tp_RefreshToken = plain,
                                      tp_ExpiresIn = duration_seconds (AccessTokenTTL (w_rt w))\<rparr>,
                                 w)))))"

definition issueTokenPair ::
  "crypto_lib \<Rightarrow> ('s, 'r, 'p) UserService \<Rightarrow> User \<Rightarrow> ('s, 'r, 'p) world \<Rightarrow>
     (go_error + TokenPair) \<times> ('s, 'r, 'p) world" where
  "issueTokenPair lib s dbUser w =
     (case on_rt NewFamilyID w of
        (Inl e, w) \<Rightarrow> (Inl (fmtError ErrTokenGenerate e), w)
      | (Inr familyID, w) \<Rightarrow> issueTokenPairWithFamily lib s dbUser familyID w)"

definition Login ::
  "crypto_lib \<Rightarrow> ('s, 'r, 'p) UserService \<Rightarrow> string \<Rightarrow> string \<Rightarrow> ('s, 'r, 'p) world \<Rightarrow>
     (go_error + TokenPair) \<times> ('s, 'r, 'p) world" where
  "Login lib s username password w =
     (case on_store (us_FindByUsername (uv_users s) username) w of
        (Inl e, w) \<Rightarrow>
          (Inl (if IsNotFound e then Sentinel ErrInvalidLogin else fmtError ErrLoginDB e), w)
      | (Inr dbUser, w) \<Rightarrow>
          if \<not> bcrypt_Compare lib (u_Password dbUser) password
          then (Inl (Sentinel ErrInvalidLogin), w)
          else issueTokenPair lib s dbUser w)"

section \<open>Refresh\<close>

text \<open>The part after the presented token was found to be active: new credentials, rotation.\<close>

definition rotateRefresh ::
  "crypto_lib \<Rightarrow> ('s, 'r, 'p) UserService \<Rightarrow> 's RefreshTokenPersistence \<Rightarrow> RefreshToken \<Rightarrow> time \<Rightarrow>
     ('s, 'r, 'p) world \<Rightarrow> (go_error + TokenPair) \<times> ('s, 'r, 'p) world" where
  "rotateRefresh lib s refresh row now w =
     (case on_store (us_FindByID (uv_users s) (tk_UserID row)) w of
        (Inl e, w) \<Rightarrow>
          (Inl (if IsNotFound e then Sentinel ErrInvalidRefresh else fmtError ErrLoginDB e), w)
      | (Inr dbUser, w) \<Rightarrow>
          (case EffectiveRole (u_Role dbUser) of
             Inl e \<Rightarrow> (Inl (fmtError ErrTokenGenerate e), w)
           | Inr role \<Rightarrow>
               (case GenerateToken lib (u_Username dbUser) (u_ID dbUser) role w of
                  (Inl e, w) \<Rightarrow> (Inl (fmtError ErrTokenGenerate e), w)
                | (Inr access, w) \<Rightarrow>
                    (case on_rt NewOpaqueToken w of
                       (Inl e, w) \<Rightarrow> (Inl (fmtError ErrTokenGenerate e), w)
                     | (Inr plain, w) \<Rightarrow>
                         let nextTok = newToken (u_ID dbUser) (HashRefreshToken lib plain)
                               (tk_FamilyID row) (time_add now (RefreshTokenTTL (w_rt w)))
                         in case on_store (rf_RotateAtomically refresh (tk_ID row) now nextTok) w of
                              (Inl e, w) \<Rightarrow>
                                if errors_is e ErrRefreshAlreadyConsumed
                                then
                                  (case on_store (rf_RevokeFamily refresh (tk_FamilyID row) now) w of
                                     (Inl revErr, w) \<Rightarrow> (Inl (fmtError ErrRefreshPersist revErr), w)
                                   | (Inr _, w) \<Rightarrow> (Inl (Sentinel ErrRefreshReuse), w))
                                else (Inl (fmtError ErrRefreshPersist e), w)
                            | (Inr _, w) \<Rightarrow>
                                (Inr \<lparr>tp_AccessToken = access, tp_RefreshToken = plain,
                                      tp_ExpiresIn = duration_seconds (AccessTokenTTL (w_rt w))\<rparr>,
                                 w)))))"

definition Refresh ::
  "crypto_lib \<Rightarrow> ('s, 'r, 'p) UserService \<Rightarrow> string \<Rightarrow> ('s, 'r, 'p) world \<Rightarrow>
     (go_error + TokenPair) \<times> ('s, 'r, 'p) world" where
  "Refresh lib s refreshPlaintext w =
     (case uv_refresh s of
        None \<Rightarrow> (Inl (Sentinel ErrRefreshPersist), w)
      | Some refresh \<Rightarrow>
          if refreshPlaintext = '''' then (Inl (Sentinel ErrInvalidRefresh), w)
          else
            (case on_store (rf_FindByHash refresh (HashRefreshToken lib refreshPlaintext)) w of
               (Inl e, w) \<Rightarrow>
                 (Inl (if IsNotFound e then Sentinel ErrInvalidRefresh
                       else fmtError ErrRefreshPersist e), w)
             | (Inr row, w) \<Rightarrow>
                 let (now, w) = on_rt time_now w
                 in if tk_RevokedAt row \<noteq> None then (Inl (Sentinel ErrInvalidRefresh), w)
                    else if time_before (tk_ExpiresAt row) now
                      then (Inl (Sentinel ErrInvalidRefresh), w)
                    else if tk_ConsumedAt row \<noteq> None
                      then
                        (case on_store (rf_RevokeFamily refresh (tk_FamilyID row) now) w of
                           (Inl e, w) \<Rightarrow> (Inl (fmtError ErrRefreshPersist e), w)
                         | (Inr _, w) \<Rightarrow> (Inl (Sentinel ErrRefreshReuse), w))
                    else rotateRefresh lib s refresh row now w))"

section \<open>Logout\<close>

text \<open>The refresh tokens a logout revokes; the second component is the state to go on from.\<close>

definition logoutTokens ::
  "crypto_lib \<Rightarrow> ('s, 'r, 'p) UserService \<Rightarrow> 's RefreshTokenPersistence \<Rightarrow> uint \<Rightarrow> string \<Rightarrow> time \<Rightarrow>
     ('s, 'r, 'p) world \<Rightarrow> (go_error + unit) \<times> ('s, 'r, 'p) world" where
  "logoutTokens lib s refresh userID refreshPlaintext now w =
     (if refreshPlaintext \<noteq> '''' then
        (case on_store (rf_FindByHash refresh (HashRefreshToken lib refreshPlaintext)) w of
           (Inl e, w) \<Rightarrow>
             if \<not> IsNotFound e then (Inl (fmtError ErrLogoutPersist e), w) else (Inr (), w)
         | (Inr row, w) \<Rightarrow>
             if tk_UserID row = userID then
               (case on_store (rf_RevokeFamily refresh (tk_FamilyID row) now) w of
                  (Inl e, w) \<Rightarrow> (Inl (fmtError ErrLogoutPersist e), w)
                | (Inr _, w) \<Rightarrow> (Inr (), w))
             else (Inr (), w))
      else
        (case on_store (rf_RevokeAllForUser refresh userID now) w of
           (Inl e, w) \<Rightarrow> (Inl (fmtError ErrLogoutPersist e), w)
         | (Inr _, w) \<Rightarrow> (Inr (), snd (dl_DenyUserBefore (uv_denylist s) userID now w))))"

definition Logout ::
  "crypto_lib \<Rightarrow> ('s, 'r, 'p) UserService \<Rightarrow> uint \<Rightarrow> string \<Rightarrow> string \<Rightarrow> time \<Rightarrow>
     ('s, 'r, 'p) world \<Rightarrow> (go_error + unit) \<times> ('s, 'r, 'p) world" where
  "Logout lib s userID refreshPlaintext accessJTI accessExp w =
     (case uv_refresh s of
        None \<Rightarrow> (Inl (Sentinel ErrLogoutPersist), w)
      | Some refresh \<Rightarrow>
          let (now, w) = on_rt time_now w
          in case logoutTokens lib s refresh userID refreshPlaintext now w of
               (Inl e, w) \<Rightarrow> (Inl e, w)
             | (Inr _, w) \<Rightarrow>
                 if accessJTI \<noteq> '''' \<and> \<not> time_is_zero accessExp
                 then (Inr (), snd (dl_Deny (uv_denylist s) accessJTI accessExp w))
                 else (Inr (), w))"

section \<open>Register\<close>

definition newUser :: "string \<Rightarrow> string \<Rightarrow> User" where
  "newUser username hashedPassword =
     \<lparr>u_ID = 0, u_Username = username, u_Password = hashedPassword, u_Role = RoleUser,
      u_CreatedAt = time_zero, u_UpdatedAt = time_zero\<rparr>"

definition Register ::
  "crypto_lib \<Rightarrow> ('s, 'r, 'p) UserService \<Rightarrow> string \<Rightarrow> string \<Rightarrow> ('s, 'r, 'p) world \<Rightarrow>
     (go_error + unit) \<times> ('s, 'r, 'p) world" where
  "Register lib s username password w =
     (if length password > 72 then (Inl (Sentinel ErrPasswordTooLong), w)
      else
        (case on_rt (HashPassword lib password) w of
           (Inl e, w) \<Rightarrow>
             (Inl (if errors_is e ErrBcryptPasswordTooLong then Sentinel ErrPasswordTooLong
                   else fmtError ErrRegisterHash e), w)
         | (Inr hashedPassword, w) \<Rightarrow>
             (case on_store (us_Create (uv_users s) (newUser username hashedPassword)) w of
                (Inl e, w) \<Rightarrow>
                  (Inl (if errors_is e ErrUserUsernameConflict then Sentinel ErrRegisterConflict
                        else fmtError ErrRegisterSave e), w)
              | (Inr _, w) \<Rightarrow> (Inr (), w))))"

section \<open>The service over any provider\<close>

text \<open>\<open>issued_by\<close>: an access token that \<open>GenerateToken\<close> made for this user under the current key.\<close>

definition issued_by :: "crypto_lib \<Rightarrow> ('s, 'r, 'p) world \<Rightarrow> User \<Rightarrow> string \<Rightarrow> bool" where
  "issued_by lib w u access \<longleftrightarrow>
     (\<exists>role (w1 :: ('s, 'r, 'p) world) w2. EffectiveRole (u_Role u) = Inr role \<and> w_jwtkey w1 = w_jwtkey w \<and>
        rt_env (w_rt w1) = rt_env (w_rt w) \<and> rt_time (w_rt w1) = rt_time (w_rt w) \<and>
        rt_tick (w_rt w) \<le> rt_tick (w_rt w1) \<and>
        GenerateToken lib (u_Username u) (u_ID u) role w1 = (Inr access, w2))"

lemma GenerateToken_frame:
  "GenerateToken lib n i role w = (r, w') \<Longrightarrow> rt_only w w'"
  using GenerateToken_rt_only [of w lib n i role] by simp

lemma opaque_frame: "on_rt NewOpaqueToken w = (r, w') \<Longrightarrow> rt_only w w'"
  using on_rt_only [of NewOpaqueToken w] by simp

lemma family_frame: "on_rt NewFamilyID w = (r, w') \<Longrightarrow> rt_only w w'"
  using on_rt_only [of NewFamilyID w] by simp

lemma now_frame: "on_rt time_now w = (r, w') \<Longrightarrow> rt_only w w'"
  using on_rt_only [of time_now w] by (simp add: time_now_def)

lemmas rt_frames = GenerateToken_frame opaque_frame family_frame now_frame

text \<open>The credentials of a login or a refresh, before the token is stored.\<close>

definition mint ::
  "crypto_lib \<Rightarrow> User \<Rightarrow> ('s, 'r, 'p) world \<Rightarrow> (go_error + string \<times> string) \<times> ('s, 'r, 'p) world" where
  "mint lib u w =
     (case EffectiveRole (u_Role u) of
        Inl e \<Rightarrow> (Inl (fmtError ErrTokenGenerate e), w)
      | Inr role \<Rightarrow>
          (case GenerateToken lib (u_Username u) (u_ID u) role w of
             (Inl e, w) \<Rightarrow> (Inl (fmtError ErrTokenGenerate e), w)
           | (Inr access, w) \<Rightarrow>
               (case on_rt NewOpaqueToken w of
                  (Inl e, w) \<Rightarrow> (Inl (fmtError ErrTokenGenerate e), w)
                | (Inr plain, w) \<Rightarrow> (Inr (access, plain), w))))"

lemma mint_spec:
  assumes "mint lib u w = (r, w')"
  shows "rt_only w w'"
    and "r = Inr (access, plain) \<Longrightarrow> issued_by lib w u access \<and> length plain = 43"
    and "r = Inl e \<Longrightarrow> \<exists>c. e = fmtError ErrTokenGenerate c"
proof -
  show "rt_only w w'"
    using assms
    by (auto simp: mint_def split: sum.splits prod.splits dest!: rt_frames intro: rt_only_trans)
  show "r = Inl e \<Longrightarrow> \<exists>c. e = fmtError ErrTokenGenerate c"
    using assms by (auto simp: mint_def split: sum.splits prod.splits)
  assume r: "r = Inr (access, plain)"
  with assms obtain role w1 where role: "EffectiveRole (u_Role u) = Inr role"
      "GenerateToken lib (u_Username u) (u_ID u) role w = (Inr access, w1)"
      "fst (on_rt NewOpaqueToken w1) = Inr plain"
    by (auto simp: mint_def split: sum.splits prod.splits)
  moreover have "length plain = 43"
    using role(3) NewOpaqueToken_length [of "w_rt w1" plain "snd (NewOpaqueToken (w_rt w1))"]
    by (cases "NewOpaqueToken (w_rt w1)") (auto simp: on_rt_def)
  ultimately show "issued_by lib w u access \<and> length plain = 43"
    unfolding issued_by_def by blast
qed

lemma issue_mint:
  "issueTokenPairWithFamily lib s u fam w =
    (case mint lib u w of
       (Inl e, w) \<Rightarrow> (Inl e, w)
     | (Inr (access, plain), w) \<Rightarrow>
         (case uv_refresh s of
            None \<Rightarrow> (Inl (Sentinel ErrRefreshPersist), w)
          | Some refresh \<Rightarrow>
              let (now, w) = on_rt time_now w;
                  row = newToken (u_ID u) (HashRefreshToken lib plain) fam
                          (time_add now (RefreshTokenTTL (w_rt w)))
              in case on_store (rf_Create refresh row) w of
                   (Inl e, w) \<Rightarrow> (Inl (fmtError ErrRefreshPersist e), w)
                 | (Inr _, w) \<Rightarrow>
                     (Inr \<lparr>tp_AccessToken = access, tp_RefreshToken = plain,
                           tp_ExpiresIn = duration_seconds (AccessTokenTTL (w_rt w))\<rparr>, w)))"
  unfolding issueTokenPairWithFamily_def mint_def
  by (simp split: sum.split prod.split)

lemma rotate_mint:
  "rotateRefresh lib s refresh row now w =
    (case on_store (us_FindByID (uv_users s) (tk_UserID row)) w of
       (Inl e, w) \<Rightarrow>
         (Inl (if IsNotFound e then Sentinel ErrInvalidRefresh else fmtError ErrLoginDB e), w)
     | (Inr u, w) \<Rightarrow>
         (case mint lib u w of
            (Inl e, w) \<Rightarrow> (Inl e, w)
          | (Inr (access, plain), w) \<Rightarrow>
              let nextTok = newToken (u_ID u) (HashRefreshToken lib plain) (tk_FamilyID row)
                    (time_add now (RefreshTokenTTL (w_rt w)))
              in case on_store (rf_RotateAtomically refresh (tk_ID row) now nextTok) w of
                   (Inl e, w) \<Rightarrow>
                     if errors_is e ErrRefreshAlreadyConsumed
                     then
                       (case on_store (rf_RevokeFamily refresh (tk_FamilyID row) now) w of
                          (Inl revErr, w) \<Rightarrow> (Inl (fmtError ErrRefreshPersist revErr), w)
                        | (Inr _, w) \<Rightarrow> (Inl (Sentinel ErrRefreshReuse), w))
                     else (Inl (fmtError ErrRefreshPersist e), w)
                 | (Inr _, w) \<Rightarrow>
                     (Inr \<lparr>tp_AccessToken = access, tp_RefreshToken = plain,
                           tp_ExpiresIn = duration_seconds (AccessTokenTTL (w_rt w))\<rparr>, w)))"
  unfolding rotateRefresh_def mint_def
  by (simp split: sum.split prod.split)

section \<open>What each call does\<close>

locale auth_service =
  auth_persistence us users inv rf tokens same_id + token_denylist dl
  for us :: "'s UserPersistence" and users and inv and rf and tokens and same_id
    and dl :: "('s, 'r, 'p) TokenDenylist" +
  fixes lib :: crypto_lib and svc :: "('s, 'r, 'p) UserService"
  assumes svc: "svc = \<lparr>uv_users = us, uv_refresh = Some rf, uv_denylist = dl\<rparr>"
begin

abbreviation "H \<equiv> HashRefreshToken lib"

lemma svc_simps [simp]: "uv_users svc = us" "uv_refresh svc = Some rf" "uv_denylist svc = dl"
  by (simp_all add: svc)

text \<open>The result of an operation on the store, as a state of the database.\<close>

lemma frames_rt:
  assumes "rt_only w w'"
  shows "w_store w' = w_store w" "w_redis w' = w_redis w" "w_jwtkey w' = w_jwtkey w"
    "RefreshTokenTTL (w_rt w') = RefreshTokenTTL (w_rt w)"
  using rt_onlyD [OF assms] TTL_env(2) [OF rt_onlyD(7) [OF assms]] by simp_all

lemma issue_spec:
  assumes "inv (w_store w)" and "issueTokenPairWithFamily lib svc u fam w = (r, w')"
  shows "inv (w_store w') \<and> users (w_store w') = users (w_store w) \<and> w_redis w' = w_redis w \<and>
    (case r of
       Inl e \<Rightarrow> tokens (w_store w') = tokens (w_store w)
     | Inr p \<Rightarrow>
         \<exists>t k. rt_tick (w_rt w) \<le> k \<and>
           issued_by lib w u (tp_AccessToken p) \<and> length (tp_RefreshToken p) = 43 \<and>
           tokens (w_store w) (H (tp_RefreshToken p)) = None \<and>
           tokens (w_store w') = (tokens (w_store w))(H (tp_RefreshToken p) \<mapsto> t) \<and>
           tk_active t \<and> tk_FamilyID t = fam \<and> same_id (tk_UserID t) (u_ID u) \<and>
           tk_ExpiresAt t = rt_time (w_rt w) k + RefreshTokenTTL (w_rt w))"
proof (cases "mint lib u w")
  case minted: (Pair m w1)
  show ?thesis
  proof (cases m)
    case (Inl e)
    with minted assms mint_spec(1,3) [OF minted] frames_rt [OF mint_spec(1) [OF minted]]
    show ?thesis by (auto simp: issue_mint)
  next
    case (Inr ap)
    obtain access plain where ap: "ap = (access, plain)" by (cases ap)
    obtain now w2 where now: "on_rt time_now w1 = (now, w2)" by (cases "on_rt time_now w1")
    have at: "now = rt_time (w_rt w) (rt_tick (w_rt w1))" "rt_tick (w_rt w) \<le> rt_tick (w_rt w1)"
      using now rt_onlyD(8,9) [OF mint_spec(1) [OF minted]] by (auto simp: on_rt_def time_now_def)
    have rt: "rt_only w w2"
      using mint_spec(1) [OF minted] now_frame [OF now] by (rule rt_only_trans)
    note fr = frames_rt [OF rt]
    let ?row = "newToken (u_ID u) (H plain) fam (time_add now (RefreshTokenTTL (w_rt w2)))"
    obtain c st where create: "rf_Create rf ?row (w_store w2) = (c, st)"
      by (cases "rf_Create rf ?row (w_store w2)")
    have store: "inv st" "users st = users (w_store w)"
      using tok_create_inv [of "w_store w2" ?row] tok_create_users [of ?row "w_store w2"]
        assms(1) create fr(1) by auto
    from assms(2) minted Inr ap now create
    have res: "r = (case c of Inl e \<Rightarrow> Inl (fmtError ErrRefreshPersist e)
        | Inr _ \<Rightarrow> Inr \<lparr>tp_AccessToken = access, tp_RefreshToken = plain,
            tp_ExpiresIn = duration_seconds (AccessTokenTTL (w_rt w2))\<rparr>)"
      "w' = w2\<lparr>w_store := st\<rparr>"
      by (auto simp: issue_mint Let_def on_store_eq split: sum.splits)
    show ?thesis
    proof (cases c)
      case (Inl e)
      with res store fr tok_create_fail [of ?row "w_store w2" e st] create show ?thesis by simp
    next
      case (Inr t)
      with tok_create_done [of "w_store w2" ?row t st] create assms(1) fr(1)
      have t: "tokens (w_store w) (H plain) = None" "tokens st = (tokens (w_store w))(H plain \<mapsto> t)"
          "tk_active t" "tk_FamilyID t = fam" "same_id (tk_UserID t) (u_ID u)"
          "tk_ExpiresAt t = now + RefreshTokenTTL (w_rt w)"
        by (auto simp: newToken_def time_add_def fr(4))
      have "issued_by lib w u access \<and> length plain = 43"
        using mint_spec(2) [OF minted] \<open>m = Inr ap\<close> ap by simp
      with t res Inr store fr at show ?thesis by auto
    qed
  qed
qed

lemma Login_spec:
  assumes "inv (w_store w)" and "Login lib svc name pw w = (r, w')"
  shows "inv (w_store w') \<and> users (w_store w') = users (w_store w) \<and> w_redis w' = w_redis w \<and>
    (case r of
       Inl e \<Rightarrow> tokens (w_store w') = tokens (w_store w)
     | Inr p \<Rightarrow>
         \<exists>u t k rt'. users (w_store w) name = Some u \<and> bcrypt_Compare lib (u_Password u) pw \<and>
           NewFamilyID (w_rt w) = (Inr (tk_FamilyID t), rt') \<and>
           issued_by lib w u (tp_AccessToken p) \<and> length (tp_RefreshToken p) = 43 \<and>
           tokens (w_store w) (H (tp_RefreshToken p)) = None \<and>
           tokens (w_store w') = (tokens (w_store w))(H (tp_RefreshToken p) \<mapsto> t) \<and>
           tk_active t \<and> same_id (tk_UserID t) (u_ID u) \<and>
           rt_tick (w_rt w) \<le> k \<and> tk_ExpiresAt t = rt_time (w_rt w) k + RefreshTokenTTL (w_rt w))"
proof (cases "us_FindByUsername us name (w_store w)")
  case found: (Pair f st)
  have st: "inv st" "users st = users (w_store w)" "tokens st = tokens (w_store w)"
    using find_name_inv [OF assms(1), of name] find_name_frame [of name "w_store w"]
      find_name_tokens [of name "w_store w"] found by auto
  show ?thesis
  proof (cases f)
    case (Inl e)
    with found st assms show ?thesis by (auto simp: Login_def on_store_eq)
  next
    case (Inr u)
    with found find_name_found [OF assms(1), of name u st]
    have u: "users (w_store w) name = Some u" by simp
    show ?thesis
    proof (cases "bcrypt_Compare lib (u_Password u) pw")
      case False
      with found Inr st assms show ?thesis by (auto simp: Login_def on_store_eq)
    next
      case True
      let ?w1 = "w\<lparr>w_store := st\<rparr>"
      obtain d rt' where fam: "NewFamilyID (w_rt w) = (d, rt')" by (cases "NewFamilyID (w_rt w)")
      let ?w2 = "?w1\<lparr>w_rt := rt'\<rparr>"
      have rt: "on_rt NewFamilyID ?w1 = (d, ?w2)" by (simp add: on_rt_def fam)
      have fr: "rt_env rt' = rt_env (w_rt w)" "rt_time rt' = rt_time (w_rt w)" "rt_tick rt' = rt_tick (w_rt w)"
        using NewFamilyID_frame [of "w_rt w"] fam by simp_all
      have ttl: "RefreshTokenTTL rt' = RefreshTokenTTL (w_rt w)" by (rule TTL_env(2) [OF fr(1)])
      have run: "(r, w') = (case d of Inl e \<Rightarrow> (Inl (fmtError ErrTokenGenerate e), ?w2)
          | Inr fam \<Rightarrow> issueTokenPairWithFamily lib svc u fam ?w2)"
        using assms(2) found Inr True rt
        by (auto simp: Login_def issueTokenPair_def on_store_eq split: sum.splits)
      show ?thesis
      proof (cases d)
        case (Inl e)
        with run st show ?thesis by simp
      next
        case (Inr fm)
        have iss: "issued_by lib ?w2 u a \<Longrightarrow> issued_by lib w u a" for a
          by (auto simp: issued_by_def fr)
        from Inr run have "issueTokenPairWithFamily lib svc u fm ?w2 = (r, w')" by simp
        note spec = issue_spec [OF _ this, simplified, OF st(1)]
        show ?thesis
        proof (cases r)
          case (Inl e)
          with spec st show ?thesis by simp
        next
          case (Inr p)
          with spec st fr obtain t k where "rt_tick (w_rt w) \<le> k" "issued_by lib ?w2 u (tp_AccessToken p)"
              "length (tp_RefreshToken p) = 43" "tokens (w_store w) (H (tp_RefreshToken p)) = None"
              "tokens (w_store w') = (tokens (w_store w))(H (tp_RefreshToken p) \<mapsto> t)"
              "tk_active t" "tk_FamilyID t = fm" "same_id (tk_UserID t) (u_ID u)"
              "tk_ExpiresAt t = rt_time (w_rt w) k + RefreshTokenTTL rt'"
            by auto
          with spec st fam u True iss ttl show ?thesis
            unfolding Inr sum.case
            by (intro conjI exI [of _ u] exI [of _ t] exI [of _ k] exI [of _ rt'])
              (simp_all add: \<open>d = Inr fm\<close>)
        qed
      qed
    qed
  qed
qed

end

context auth_service begin

text \<open>The tokens without their \<open>UpdatedAt\<close>; what a revocation of a family makes of them.\<close>

definition core :: "'s \<Rightarrow> string \<Rightarrow> RefreshToken option" where
  "core s = map_option token_core \<circ> tokens s"

definition revoked_family :: "'s \<Rightarrow> string \<Rightarrow> time \<Rightarrow> string \<Rightarrow> RefreshToken option" where
  "revoked_family s f at = map_option (token_core \<circ> revoke_if (\<lambda>t. tk_FamilyID t = f) at) \<circ> tokens s"

lemma core_tokens: "tokens s' = tokens s \<Longrightarrow> core s' = core s"
  and revoked_tokens: "tokens s' = tokens s \<Longrightarrow> revoked_family s' f at = revoked_family s f at"
  by (simp_all add: core_def revoked_family_def)

lemma revoke_result:
  assumes "inv s" and "rf_RevokeFamily rf f at s = (x, s')"
  shows "inv s'" "users s' = users s"
    "x = Inl e \<Longrightarrow> tokens s' = tokens s" "x = Inr y \<Longrightarrow> core s' = revoked_family s f at"
proof -
  show "inv s'" using revoke_family_inv [OF assms(1), of f at] assms(2) by simp
  show "users s' = users s" using revoke_family_users [of f at s] assms(2) by simp
  show "x = Inl e \<Longrightarrow> tokens s' = tokens s" using revoke_family_fail assms(2) by blast
  show "x = Inr y \<Longrightarrow> core s' = revoked_family s f at"
    using revoke_family_done [OF assms(1)] assms(2) by (simp add: core_def revoked_family_def)
qed

lemma rotate_spec:
  assumes inv: "inv (w_store w)" and row: "tokens (w_store w) h = Some row"
    and run: "rotateRefresh lib svc rf row now w = (r, w')"
  shows "inv (w_store w') \<and> users (w_store w') = users (w_store w) \<and> w_redis w' = w_redis w \<and>
    (case r of
       Inl e \<Rightarrow>
         if e = Sentinel ErrRefreshReuse
         then core (w_store w') = revoked_family (w_store w) (tk_FamilyID row) now
         else tokens (w_store w') = tokens (w_store w)
     | Inr p \<Rightarrow>
         \<exists>t u. users (w_store w) (u_Username u) = Some u \<and> same_id (u_ID u) (tk_UserID row) \<and>
           issued_by lib w u (tp_AccessToken p) \<and> length (tp_RefreshToken p) = 43 \<and>
           tk_active row \<and> tokens (w_store w) (H (tp_RefreshToken p)) = None \<and>
           core (w_store w') = (core (w_store w))
             (h \<mapsto> token_core (row\<lparr>tk_ConsumedAt := Some now\<rparr>),
              H (tp_RefreshToken p) \<mapsto> token_core t) \<and>
           tk_active t \<and> tk_FamilyID t = tk_FamilyID row \<and> same_id (tk_UserID t) (u_ID u) \<and>
           tk_ExpiresAt t = now + RefreshTokenTTL (w_rt w))"
proof (cases "us_FindByID us (tk_UserID row) (w_store w)")
  case found: (Pair f st)
  have st: "inv st" "users st = users (w_store w)" "tokens st = tokens (w_store w)"
    using find_id_inv [OF inv, of "tk_UserID row"] find_id_frame [of "tk_UserID row" "w_store w"]
      find_id_tokens [of "tk_UserID row" "w_store w"] found by auto
  show ?thesis
  proof (cases f)
    case (Inl e)
    with found st run show ?thesis by (auto simp: rotate_mint on_store_eq fmtError_def)
  next
    case (Inr u)
    with found find_id_found [OF inv, of "tk_UserID row" u st]
    have u: "users (w_store w) (u_Username u) = Some u" "same_id (u_ID u) (tk_UserID row)" by auto
    let ?w1 = "w\<lparr>w_store := st\<rparr>"
    obtain m w2 where minted: "mint lib u ?w1 = (m, w2)" by (cases "mint lib u ?w1")
    note fr = frames_rt [OF mint_spec(1) [OF minted], simplified]
    show ?thesis
    proof (cases m)
      case (Inl e)
      with found \<open>f = Inr u\<close> minted run mint_spec(3) [OF minted, of e] st fr show ?thesis
        by (auto simp: rotate_mint on_store_eq fmtError_def)
    next
      case (Inr ap)
      obtain access plain where ap: "ap = (access, plain)" by (cases ap)
      let ?nt = "newToken (u_ID u) (H plain) (tk_FamilyID row) (time_add now (RefreshTokenTTL (w_rt w2)))"
      obtain c st2 where rot: "rf_RotateAtomically rf (tk_ID row) now ?nt st = (c, st2)"
        by (cases "rf_RotateAtomically rf (tk_ID row) now ?nt st")
      have st2: "inv st2" "users st2 = users (w_store w)"
        using rotate_inv [OF st(1), of "tk_ID row" now ?nt]
          rotate_users [of "tk_ID row" now ?nt st] rot st(2) by auto
      have iss: "issued_by lib w u access \<and> length plain = 43"
        using mint_spec(2) [OF minted, of access plain] Inr ap by (auto simp: issued_by_def)
      show ?thesis
      proof (cases c)
        case (Inr t)
        from rotate_done [OF st(1), of "tk_ID row" now ?nt t st2] rot this
        obtain h' old where old: "tokens st h' = Some old" "same_id (tk_ID old) (tk_ID row)"
            "tk_active old" "tokens st (H plain) = None"
            "core st2 = (core st)(h' \<mapsto> token_core (old\<lparr>tk_ConsumedAt := Some now\<rparr>),
               H plain \<mapsto> token_core t)"
          and t: "tk_active t" "tk_FamilyID t = tk_FamilyID row" "same_id (tk_UserID t) (u_ID u)"
            "tk_ExpiresAt t = now + RefreshTokenTTL (w_rt w)"
          by (auto simp: newToken_def core_def time_add_def fr)
        from tok_id_unique [OF st(1) old(1) _ old(2), of h] row st(3) old(1)
        have "h' = h" "old = row" by auto
        from found \<open>f = Inr u\<close> minted \<open>m = Inr ap\<close> ap rot Inr run fr have res:
          "r = Inr \<lparr>tp_AccessToken = access, tp_RefreshToken = plain,
             tp_ExpiresIn = duration_seconds (AccessTokenTTL (w_rt w2))\<rparr>"
          "w' = w2\<lparr>w_store := st2\<rparr>"
          by (simp_all add: rotate_mint on_store_eq Let_def)
        have "core st2 = (core (w_store w))(h \<mapsto> token_core (row\<lparr>tk_ConsumedAt := Some now\<rparr>),
            H plain \<mapsto> token_core t)" "tokens (w_store w) (H plain) = None"
          using old(4,5) \<open>h' = h\<close> \<open>old = row\<close> core_tokens [OF st(3)] st(3) by simp_all
        with u iss t old(3) \<open>old = row\<close> st2 fr show ?thesis
          unfolding res by (simp, intro exI [where x = t], simp, intro exI [where x = u], simp)
      next
        case (Inl e)
        from rotate_fail [of "tk_ID row" now ?nt st e st2] rot this st(3)
        have same: "tokens st2 = tokens (w_store w)" by simp
        obtain x st3 where rev: "rf_RevokeFamily rf (tk_FamilyID row) now st2 = (x, st3)"
          by (cases "rf_RevokeFamily rf (tk_FamilyID row) now st2")
        note rev' = revoke_result [OF st2(1) rev]
        show ?thesis
        proof (cases "errors_is e ErrRefreshAlreadyConsumed")
          case False
          with found \<open>f = Inr u\<close> minted \<open>m = Inr ap\<close> ap rot Inl run same st2 fr show ?thesis
            by (auto simp: rotate_mint on_store_eq Let_def fmtError_def)
        next
          case True
          with found \<open>f = Inr u\<close> minted \<open>m = Inr ap\<close> ap rot Inl run fr rev
          have res: "r = (case x of Inl e' \<Rightarrow> Inl (fmtError ErrRefreshPersist e')
              | Inr _ \<Rightarrow> Inl (Sentinel ErrRefreshReuse))" "w' = w2\<lparr>w_store := st3\<rparr>"
            by (auto simp: rotate_mint on_store_eq Let_def split: sum.splits)
          show ?thesis
          proof (cases x)
            case (Inl e')
            with res rev'(1,2) rev'(3) [OF Inl] same st2 fr show ?thesis by (simp add: fmtError_def)
          next
            case (Inr y)
            with res rev'(1,2) rev'(4) [OF Inr] st2 fr revoked_tokens [OF same] show ?thesis by simp
          qed
        qed
      qed
    qed
  qed
qed

end

context auth_service begin

text \<open>
  A refresh either leaves the tokens as they are, or answers reuse by revoking the family of
  the presented token, or replaces that token, active and not expired, by a new one of its
  family.
\<close>

lemma Refresh_spec:
  assumes inv: "inv (w_store w)" and run: "Refresh lib svc p w = (r, w')"
    and now: "now = rt_time (w_rt w) (rt_tick (w_rt w))"
  shows "inv (w_store w') \<and> users (w_store w') = users (w_store w) \<and> w_redis w' = w_redis w \<and>
    (case r of
       Inl e \<Rightarrow>
         if e = Sentinel ErrRefreshReuse
         then \<exists>row. tokens (w_store w) (H p) = Some row \<and>
           core (w_store w') = revoked_family (w_store w) (tk_FamilyID row) now
         else tokens (w_store w') = tokens (w_store w)
     | Inr pr \<Rightarrow>
         \<exists>row t u. p \<noteq> '''' \<and> tokens (w_store w) (H p) = Some row \<and> now \<le> tk_ExpiresAt row \<and>
           users (w_store w) (u_Username u) = Some u \<and> same_id (u_ID u) (tk_UserID row) \<and>
           issued_by lib w u (tp_AccessToken pr) \<and> length (tp_RefreshToken pr) = 43 \<and>
           tk_active row \<and> tokens (w_store w) (H (tp_RefreshToken pr)) = None \<and>
           core (w_store w') = (core (w_store w))
             (H p \<mapsto> token_core (row\<lparr>tk_ConsumedAt := Some now\<rparr>),
              H (tp_RefreshToken pr) \<mapsto> token_core t) \<and>
           tk_active t \<and> tk_FamilyID t = tk_FamilyID row \<and> same_id (tk_UserID t) (u_ID u) \<and>
           tk_ExpiresAt t = now + RefreshTokenTTL (w_rt w))"
proof (cases "p = ''''")
  case True
  with run inv show ?thesis by (auto simp: Refresh_def)
next
  case False
  obtain f st where find: "rf_FindByHash rf (H p) (w_store w) = (f, st)"
    by (cases "rf_FindByHash rf (H p) (w_store w)")
  have st: "inv st" "users st = users (w_store w)" "tokens st = tokens (w_store w)"
    using tok_find_inv [OF inv, of "H p"] tok_find_users [of "H p" "w_store w"]
      tok_find_frame [of "H p" "w_store w"] find by auto
  show ?thesis
  proof (cases f)
    case (Inl e)
    with False find run st show ?thesis by (auto simp: Refresh_def on_store_eq fmtError_def)
  next
    case (Inr row)
    with tok_find_found [OF inv] find have row: "tokens (w_store w) (H p) = Some row" by simp
    let ?w = "w\<lparr>w_store := st, w_rt := (w_rt w)\<lparr>rt_tick := Suc (rt_tick (w_rt w))\<rparr>\<rparr>"
    have ttl: "RefreshTokenTTL (w_rt ?w) = RefreshTokenTTL (w_rt w)" by (rule TTL_env) simp
    have iss: "issued_by lib ?w u a \<Longrightarrow> issued_by lib w u a" for u a by (force simp: issued_by_def)
    from False find Inr have step: "Refresh lib svc p w =
       (if tk_RevokedAt row \<noteq> None \<or> tk_ExpiresAt row < now then (Inl (Sentinel ErrInvalidRefresh), ?w)
        else if tk_ConsumedAt row \<noteq> None
          then
            (case on_store (rf_RevokeFamily rf (tk_FamilyID row) now) ?w of
               (Inl e, w) \<Rightarrow> (Inl (fmtError ErrRefreshPersist e), w)
             | (Inr _, w) \<Rightarrow> (Inl (Sentinel ErrRefreshReuse), w))
        else rotateRefresh lib svc rf row now ?w)"
      by (simp add: Refresh_def on_store_eq on_rt_eq time_now_def now time_before_def)
    consider (dead) "tk_RevokedAt row \<noteq> None \<or> tk_ExpiresAt row < now"
      | (reuse) "\<not> (tk_RevokedAt row \<noteq> None \<or> tk_ExpiresAt row < now)" "tk_ConsumedAt row \<noteq> None"
      | (rotate) "\<not> (tk_RevokedAt row \<noteq> None \<or> tk_ExpiresAt row < now)" "tk_ConsumedAt row = None"
      by blast
    then show ?thesis
    proof cases
      case dead
      with step run st show ?thesis by (cases r) auto
    next
      case reuse
      obtain x st2 where rev: "rf_RevokeFamily rf (tk_FamilyID row) now st = (x, st2)"
        by (cases "rf_RevokeFamily rf (tk_FamilyID row) now st")
      note rev' = revoke_result [OF st(1) rev]
      show ?thesis
      proof (cases x)
        case (Inl e)
        with step reuse run rev rev'(1,2) rev'(3) [OF Inl] st show ?thesis
          by (auto simp: on_store_eq fmtError_def)
      next
        case (Inr y)
        with step reuse run rev rev'(1,2) rev'(4) [OF Inr] st row revoked_tokens [OF st(3)]
        show ?thesis by (auto simp: on_store_eq)
      qed
    next
      case rotate
      with step run have "rotateRefresh lib svc rf row now ?w = (r, w')" by simp
      note spec = rotate_spec [OF _ _ this, of "H p", simplified, OF st(1), unfolded st(2,3), OF row]
      show ?thesis
      proof (cases r)
        case (Inl e)
        with spec row revoked_tokens [OF st(3)] st(3) show ?thesis by simp
      next
        case (Inr pr)
        with spec obtain t u where "users (w_store w) (u_Username u) = Some u"
            "same_id (u_ID u) (tk_UserID row)" "issued_by lib ?w u (tp_AccessToken pr)"
            "length (tp_RefreshToken pr) = 43" "tk_active row"
            "tokens (w_store w) (H (tp_RefreshToken pr)) = None"
            "core (w_store w') = (core st)
               (H p \<mapsto> token_core (row\<lparr>tk_ConsumedAt := Some now\<rparr>),
                H (tp_RefreshToken pr) \<mapsto> token_core t)"
            "tk_active t" "tk_FamilyID t = tk_FamilyID row" "same_id (tk_UserID t) (u_ID u)"
            "tk_ExpiresAt t = now + RefreshTokenTTL (w_rt w)"
          using ttl st by auto
        with spec Inr row rotate False iss core_tokens [OF st(3)] show ?thesis
          by (simp, intro exI [of _ t] conjI exI [of _ u]) auto
      qed
    qed
  qed
qed

end

context auth_service begin

text \<open>Whose tokens a logout revokes: one family of the caller's, or all of the caller's.\<close>

definition logout_scope :: "'s \<Rightarrow> uint \<Rightarrow> string \<Rightarrow> RefreshToken \<Rightarrow> bool" where
  "logout_scope s uid p t \<longleftrightarrow>
     (if p = '''' then same_id (tk_UserID t) uid
      else (\<exists>row. tokens s (H p) = Some row \<and> tk_UserID row = uid \<and> tk_FamilyID t = tk_FamilyID row))"

lemma revoke_none: "\<not> p t \<Longrightarrow> revoke_if p at t = t"
  by (simp add: revoke_if_def)

lemma core_noscope:
  "(\<And>t. \<not> p t) \<Longrightarrow> map_option (token_core \<circ> revoke_if p at) \<circ> tokens s = core s"
  by (auto simp: core_def fun_eq_iff revoke_if_def option.map_comp intro!: option.map_cong)

lemma logoutTokens_spec:
  assumes inv: "inv (w_store w)" and run: "logoutTokens lib svc rf uid p now w = (r, w')"
  shows "inv (w_store w') \<and> users (w_store w') = users (w_store w) \<and>
    (case r of
       Inl e \<Rightarrow> tokens (w_store w') = tokens (w_store w)
     | Inr _ \<Rightarrow> core (w_store w') =
         map_option (token_core \<circ> revoke_if (logout_scope (w_store w) uid p) now) \<circ> tokens (w_store w))"
proof (cases "p = ''''")
  case True
  obtain x st where rev: "rf_RevokeAllForUser rf uid now (w_store w) = (x, st)"
    by (cases "rf_RevokeAllForUser rf uid now (w_store w)")
  have st: "inv st" "users st = users (w_store w)"
    using revoke_user_inv [OF inv, of uid now] revoke_user_users [of uid now "w_store w"] rev by auto
  have keep: "w_store (snd (dl_DenyUserBefore dl uid now v)) = w_store v" for v
    using deny_user_frame [of v uid now] by (simp add: redis_only_def)
  have scope: "logout_scope (w_store w) uid p = (\<lambda>t. same_id (tk_UserID t) uid)"
    by (simp add: logout_scope_def True fun_eq_iff)
  show ?thesis
  proof (cases x)
    case (Inl e)
    with True rev run st revoke_user_fail [of uid now "w_store w" e st] show ?thesis
      by (auto simp: logoutTokens_def on_store_eq)
  next
    case (Inr y)
    with revoke_user_done [OF inv, of uid now y st] rev
    have "core st = map_option (token_core \<circ> revoke_if (\<lambda>t. same_id (tk_UserID t) uid) now) \<circ>
        tokens (w_store w)" by (simp add: core_def)
    with True rev run st Inr scope keep show ?thesis by (auto simp: logoutTokens_def on_store_eq)
  qed
next
  case False
  obtain f st where find: "rf_FindByHash rf (H p) (w_store w) = (f, st)"
    by (cases "rf_FindByHash rf (H p) (w_store w)")
  have st: "inv st" "users st = users (w_store w)" "tokens st = tokens (w_store w)"
    using tok_find_inv [OF inv, of "H p"] tok_find_users [of "H p" "w_store w"]
      tok_find_frame [of "H p" "w_store w"] find by auto
  show ?thesis
  proof (cases f)
    case (Inl e)
    show ?thesis
    proof (cases "IsNotFound e")
      case True
      with tok_find_missing [OF inv, of "H p" e st] find Inl have "tokens (w_store w) (H p) = None"
        by (simp add: IsNotFound_def)
      with core_noscope [of "logout_scope (w_store w) uid p"] False
      have "map_option (token_core \<circ> revoke_if (logout_scope (w_store w) uid p) now) \<circ>
          tokens (w_store w) = core (w_store w)"
        by (simp add: logout_scope_def)
      with True False find Inl run st core_tokens [OF st(3)] show ?thesis
        by (auto simp: logoutTokens_def on_store_eq)
    next
      case nf: False
      with False find Inl run st show ?thesis by (auto simp: logoutTokens_def on_store_eq)
    qed
  next
    case (Inr row)
    with tok_find_found [OF inv] find have row: "tokens (w_store w) (H p) = Some row" by simp
    show ?thesis
    proof (cases "tk_UserID row = uid")
      case other: False
      with core_noscope [of "logout_scope (w_store w) uid p"] False row
      have "map_option (token_core \<circ> revoke_if (logout_scope (w_store w) uid p) now) \<circ>
          tokens (w_store w) = core (w_store w)"
        by (simp add: logout_scope_def)
      with other False find Inr run st core_tokens [OF st(3)] show ?thesis
        by (auto simp: logoutTokens_def on_store_eq)
    next
      case own: True
      obtain x st2 where rev: "rf_RevokeFamily rf (tk_FamilyID row) now st = (x, st2)"
        by (cases "rf_RevokeFamily rf (tk_FamilyID row) now st")
      note rev' = revoke_result [OF st(1) rev]
      have scope: "logout_scope (w_store w) uid p = (\<lambda>t. tk_FamilyID t = tk_FamilyID row)"
        using False row own by (simp add: logout_scope_def fun_eq_iff)
      show ?thesis
      proof (cases x)
        case (Inl e)
        with own False find \<open>f = Inr row\<close> run rev rev'(1,2) rev'(3) [OF Inl] st show ?thesis
          by (auto simp: logoutTokens_def on_store_eq)
      next
        case (Inr y)
        with own False find \<open>f = Inr row\<close> run rev rev'(1,2) rev'(4) [OF Inr] st
          revoked_tokens [OF st(3)] scope show ?thesis
          by (auto simp: logoutTokens_def on_store_eq revoked_family_def)
      qed
    qed
  qed
qed

lemma Logout_spec:
  assumes inv: "inv (w_store w)" and run: "Logout lib svc uid p jti exp w = (r, w')"
    and now: "now = rt_time (w_rt w) (rt_tick (w_rt w))"
  shows "inv (w_store w') \<and> users (w_store w') = users (w_store w) \<and>
    (case r of
       Inl e \<Rightarrow> tokens (w_store w') = tokens (w_store w)
     | Inr _ \<Rightarrow> core (w_store w') =
         map_option (token_core \<circ> revoke_if (logout_scope (w_store w) uid p) now) \<circ> tokens (w_store w))"
proof -
  let ?w = "w\<lparr>w_rt := (w_rt w)\<lparr>rt_tick := Suc (rt_tick (w_rt w))\<rparr>\<rparr>"
  obtain r1 w1 where t: "logoutTokens lib svc rf uid p now ?w = (r1, w1)"
    by (cases "logoutTokens lib svc rf uid p now ?w")
  have keep: "w_store (snd (dl_Deny dl jti exp v)) = w_store v" for v
    using deny_frame [of v jti exp] by (simp add: redis_only_def)
  have "(r, w_store w') = (r1, w_store w1)"
    using run t keep
    by (auto simp: Logout_def on_rt_eq time_now_def now split: sum.splits if_splits)
  with logoutTokens_spec [OF _ t] inv show ?thesis by (cases r1) simp_all
qed

text \<open>Registration adds one user, with the role every new account gets.\<close>

lemma Register_spec:
  assumes inv: "inv (w_store w)" and run: "Register lib svc name pw w = (r, w')"
  shows "inv (w_store w') \<and> tokens (w_store w') = tokens (w_store w) \<and>
    (case r of
       Inl e \<Rightarrow> users (w_store w') = users (w_store w) \<and>
         (e = Sentinel ErrRegisterConflict \<longrightarrow> users (w_store w) name \<noteq> None)
     | Inr _ \<Rightarrow>
         \<exists>u. length pw \<le> 72 \<and> users (w_store w) name = None \<and>
           users (w_store w') = (users (w_store w))(name \<mapsto> u) \<and>
           u_Username u = name \<and> u_Role u = RoleUser \<and>
           fst (HashPassword lib pw (w_rt w)) = Inr (u_Password u))"
proof (cases "length pw > 72")
  case True
  with run inv show ?thesis by (auto simp: Register_def)
next
  case False
  obtain h rt where hash: "HashPassword lib pw (w_rt w) = (h, rt)"
    by (cases "HashPassword lib pw (w_rt w)")
  show ?thesis
  proof (cases h)
    case (Inl e)
    with False hash run inv show ?thesis by (auto simp: Register_def on_rt_eq fmtError_def)
  next
    case (Inr hashed)
    obtain c st where create: "us_Create us (newUser name hashed) (w_store w) = (c, st)"
      by (cases "us_Create us (newUser name hashed) (w_store w)")
    have st: "inv st" "tokens st = tokens (w_store w)"
      using user_create_inv [OF inv, of "newUser name hashed"]
        user_create_tokens [of "newUser name hashed" "w_store w"] create by auto
    show ?thesis
    proof (cases c)
      case (Inl e)
      with user_create_fail [of "newUser name hashed" "w_store w" e st]
        user_create_conflict [OF inv, of "newUser name hashed" e st] create
        False hash \<open>h = Inr hashed\<close> run st show ?thesis
        by (auto simp: Register_def on_rt_eq on_store_eq fmtError_def newUser_def split: if_splits)
    next
      case (Inr u)
      with user_create_done [OF inv, of "newUser name hashed" u st] create
        False hash \<open>h = Inr hashed\<close> run st show ?thesis
        by (auto simp: Register_def on_rt_eq on_store_eq newUser_def)
    qed
  qed
qed

end

end
