(* ===== verification/API_Users.thy ===== *)
theory API_Users
  imports API_Books User_Service
begin

text \<open>
  The handlers of the authentication routes and of the admin example, \<open>pkg/api/user.go\<close>.
\<close>

definition tokenPairBody :: "TokenPair \<Rightarrow> LoginTokenBody" where
  "tokenPairBody p =
     \<lparr>lt_Token = tp_AccessToken p, lt_AccessToken = tp_AccessToken p,
      lt_RefreshToken = tp_RefreshToken p, lt_ExpiresIn = tp_ExpiresIn p\<rparr>"

definition NewUserHandler ::
  "'s UserPersistence \<Rightarrow> 's RefreshTokenPersistence option \<Rightarrow> ('s, 'r, 'p) TokenDenylist option \<Rightarrow>
     ('s, 'r, 'p) UserService" where
  "NewUserHandler users refresh denylist = NewUserService users refresh denylist"

definition LoginHandler ::
  "binders \<Rightarrow> crypto_lib \<Rightarrow> ('s, 'r, 'p) UserService \<Rightarrow> ('s, 'r, 'p) handler" where
  "LoginHandler bnd lib svc c w =
     (case bind_LoginUser bnd c of
        Inl err \<Rightarrow> (httperr_Write 400 (error_text err) c, w)
      | Inr incoming \<Rightarrow>
          (case Login lib svc (lu_Username incoming) (lu_Password incoming) w of
             (Inl err, w) \<Rightarrow>
               if errors_is err ErrInvalidLogin
               then (httperr_Write 401 ''Invalid username or password'' c, w)
               else (httperr_Write 500 ''Internal Server Error'' c, w)
           | (Inr pair, w) \<Rightarrow> (httpresp_OK (DataTokens (tokenPairBody pair)) c, w)))"

definition RefreshHandler ::
  "binders \<Rightarrow> crypto_lib \<Rightarrow> ('s, 'r, 'p) UserService \<Rightarrow> ('s, 'r, 'p) handler" where
  "RefreshHandler bnd lib svc c w =
     (case bind_RefreshRequest bnd c of
        Inl err \<Rightarrow> (httperr_Write 400 (error_text err) c, w)
      | Inr incoming \<Rightarrow>
          (case Refresh lib svc (rr_RefreshToken incoming) w of
             (Inl err, w) \<Rightarrow>
               if errors_is err ErrInvalidRefresh \<or> errors_is err ErrRefreshReuse
               then (httperr_Write 401 ''Invalid refresh token'' c, w)
               else (httperr_Write 500 ''Internal Server Error'' c, w)
           | (Inr pair, w) \<Rightarrow> (httpresp_OK (DataTokens (tokenPairBody pair)) c, w)))"

text \<open>
  \<open>v, _ := c.Get(key)\<close> followed by a type assertion whose second result is dropped: the zero
  value of the type when the key is absent or of another type.
\<close>

definition ctx_uint :: "gin_ctx \<Rightarrow> string \<Rightarrow> uint" where
  "ctx_uint c key = (case g_Keys c key of Some (VUint i) \<Rightarrow> i | _ \<Rightarrow> 0)"

definition ctx_string :: "gin_ctx \<Rightarrow> string \<Rightarrow> string" where
  "ctx_string c key = (case g_Keys c key of Some (VStr s) \<Rightarrow> s | _ \<Rightarrow> '''')"

definition ctx_time :: "gin_ctx \<Rightarrow> string \<Rightarrow> time" where
  "ctx_time c key = (case g_Keys c key of Some (VTime t) \<Rightarrow> t | _ \<Rightarrow> time_zero)"

text \<open>An empty body is \<open>io.EOF\<close> and leaves the request at its zero value: a logout of all sessions.\<close>

definition LogoutHandler ::
  "binders \<Rightarrow> crypto_lib \<Rightarrow> ('s, 'r, 'p) UserService \<Rightarrow> ('s, 'r, 'p) handler" where
  "LogoutHandler bnd lib svc c w =
     (let body = bind_LogoutRequest bnd c
      in if (case body of Inl err \<Rightarrow> \<not> errors_is err ErrEOF | Inr _ \<Rightarrow> False)
         then (httperr_Write 400 (case body of Inl err \<Rightarrow> error_text err | Inr _ \<Rightarrow> '''') c, w)
         else
           let refreshToken = (case body of Inl _ \<Rightarrow> '''' | Inr incoming \<Rightarrow> lr_RefreshToken incoming);
               uid = ctx_uint c ContextUserID;
               jti = ctx_string c ContextJTI;
               exp = ctx_time c ContextAccessExp
           in case Logout lib svc uid refreshToken jti exp w of
                (Inl err, w) \<Rightarrow> (httperr_Write 500 ''Internal Server Error'' c, w)
              | (Inr _, w) \<Rightarrow> (httpresp_OK (DataLogout \<lparr>lo_Message = ''Logged out''\<rparr>) c, w))"

definition RegisterHandler ::
  "binders \<Rightarrow> crypto_lib \<Rightarrow> ('s, 'r, 'p) UserService \<Rightarrow> ('s, 'r, 'p) handler" where
  "RegisterHandler bnd lib svc c w =
     (case bind_LoginUser bnd c of
        Inl err \<Rightarrow> (httperr_Write 400 (error_text err) c, w)
      | Inr user \<Rightarrow>
          (case Register lib svc (lu_Username user) (lu_Password user) w of
             (Inl err, w) \<Rightarrow>
               if errors_is err ErrRegisterConflict
               then (httperr_Write 409 ''username already taken'' c, w)
               else if errors_is err ErrPasswordTooLong
               then (httperr_Write 400 ''password must be at most 72 bytes'' c, w)
               else (httperr_Write 500 ''Could not save user'' c, w)
           | (Inr _, w) \<Rightarrow>
               (httpresp_Created (DataRegister \<lparr>rs_Message = ''Registration successful''\<rparr>) c, w)))"

definition AdminMeHandler :: "('s, 'r, 'p) handler" where
  "AdminMeHandler c w =
     (let uid = ctx_uint c ContextUserID;
          uname = ctx_string c ''username'';
          r = ctx_string c ContextRole
      in (httpresp_OK (DataAdmin \<lparr>am_Username = uname, am_UserID = uid, am_Role = r\<rparr>) c, w))"

end
