(* ===== verification/Rate_Limit.thy ===== *)
theory Rate_Limit
  imports Gin Redis_Laws Go_Strings
begin

text \<open>
  Per-client fixed-window rate limiting, \<open>pkg/middleware/rate_limit.go\<close>: the configuration
  from the environment, the two counter stores (in Redis through one atomic script, in process
  memory), and the middleware, which fails closed. The contract \<open>rate_limit_store\<close> says what a
  store counts; both stores meet it, and the bound on the requests let through in a window is
  proved once from it: a store may ask for windows that fit, and need count exactly only up to a number.
\<close>

section \<open>Configuration\<close>

definition DefaultRateLimitRequests :: int where "DefaultRateLimitRequests = 60"
definition DefaultRateLimitWindow :: duration where "DefaultRateLimitWindow = minute"
definition rateLimitKeyPrefix :: string where "rateLimitKeyPrefix = ''v1:ratelimit:''"
definition rateLimitBackendRedis :: string where "rateLimitBackendRedis = ''redis''"
definition rateLimitBackendMemory :: string where "rateLimitBackendMemory = ''memory''"

text \<open>The script, as the text that Redis gets.\<close>

definition rateLimitIncrExpireScript :: string where
  "rateLimitIncrExpireScript = [CHR 0x0A] @
     ''local n = redis.call(\"INCR\", KEYS[1])'' @ [CHR 0x0A] @
     ''if n == 1 then'' @ [CHR 0x0A] @
     ''  redis.call(\"PEXPIRE\", KEYS[1], ARGV[1])'' @ [CHR 0x0A] @
     ''end'' @ [CHR 0x0A] @
     ''return n'' @ [CHR 0x0A]"

record RateLimitConfig =
  rc_Enabled :: bool
  rc_Requests :: int
  rc_Window :: duration
  rc_Backend :: string

definition RateLimitConfigFromEnv :: "go_rt \<Rightarrow> RateLimitConfig" where
  "RateLimitConfigFromEnv rt =
     \<lparr>rc_Enabled =
        (let s = TrimSpace (rt_env rt ''RATE_LIMIT_ENABLED'')
         in if s = '''' then True
            else if ToLower s \<in> {''0'', ''false'', ''no'', ''off'', ''none''} then False
            else if ToLower s \<in> {''1'', ''true'', ''yes'', ''on''} then True
            else True),
      rc_Requests =
        (let s = TrimSpace (rt_env rt ''RATE_LIMIT_REQUESTS'')
         in if s = '''' then DefaultRateLimitRequests
            else case Atoi s of
                   None \<Rightarrow> DefaultRateLimitRequests
                 | Some n \<Rightarrow> if n \<le> 0 then DefaultRateLimitRequests else n),
      rc_Window =
        (let s = TrimSpace (rt_env rt ''RATE_LIMIT_WINDOW'')
         in if s = '''' then DefaultRateLimitWindow
            else case ParseDuration s of
                   None \<Rightarrow> DefaultRateLimitWindow
                 | Some d \<Rightarrow> if d \<le> 0 then DefaultRateLimitWindow else d),
      rc_Backend =
        (let s = TrimSpace (rt_env rt ''RATE_LIMIT_BACKEND'')
         in if s = '''' then rateLimitBackendRedis
            else if ToLower s \<in> {rateLimitBackendRedis, rateLimitBackendMemory} then ToLower s
            else rateLimitBackendRedis)\<rparr>"

section \<open>Stores\<close>

text \<open>
  \<open>Allow ctx clientKey limit window\<close>; the first argument of the model is \<open>ctx.Err()\<close>. An
  error, or whether the request is allowed and how many remain.
\<close>

record ('s, 'r, 'p) RateLimitStore =
  rl_Allow :: "go_error option \<Rightarrow> string \<Rightarrow> int \<Rightarrow> duration \<Rightarrow> ('s, 'r, 'p) world \<Rightarrow>
    (go_error + bool \<times> int) \<times> ('s, 'r, 'p) world"

definition redis_Allow ::
  "'r Cache option \<Rightarrow> go_error option \<Rightarrow> string \<Rightarrow> int \<Rightarrow> duration \<Rightarrow> ('s, 'r, 'p) world \<Rightarrow>
     (go_error + bool \<times> int) \<times> ('s, 'r, 'p) world" where
  "redis_Allow cache ctxErr clientKey limit window w =
     (case cache of
        None \<Rightarrow> (Inl (ErrText ''redis rate limit store: nil cache''), w)
      | Some cache \<Rightarrow>
          let key = rateLimitKeyPrefix @ clientKey;
              ms = window div millisecond;
              ms = (if ms < 1 then 1 else ms)
          in case on_redis (c_Eval cache rateLimitIncrExpireScript [key] [ms]) w of
               (Inl e, w) \<Rightarrow> (Inl (Prefixed (''rate limit incr/expire '' @ key) e), w)
             | (Inr n, w) \<Rightarrow>
                 if n > limit then (Inr (False, 0), w) else (Inr (True, limit - n), w))"

definition NewRedisRateLimitStore :: "'r Cache option \<Rightarrow> ('s, 'r, 'p) RateLimitStore" where
  "NewRedisRateLimitStore c = \<lparr>rl_Allow = redis_Allow c\<rparr>"

definition pruneExpiredLocked ::
  "time \<Rightarrow> (string \<Rightarrow> (int \<times> time) option) \<Rightarrow> string \<Rightarrow> (int \<times> time) option" where
  "pruneExpiredLocked now windows key =
     (case windows key of
        None \<Rightarrow> None
      | Some (count, reset) \<Rightarrow>
          if \<not> time_before now reset then None else Some (count, reset))"

definition memory_Allow ::
  "go_error option \<Rightarrow> string \<Rightarrow> int \<Rightarrow> duration \<Rightarrow> ('s, 'r, 'p) world \<Rightarrow>
     (go_error + bool \<times> int) \<times> ('s, 'r, 'p) world" where
  "memory_Allow ctxErr clientKey limit window w =
     (case ctxErr of
        Some err \<Rightarrow> (Inl err, w)
      | None \<Rightarrow>
          let (now, w) = on_rt time_now w;
              windows = pruneExpiredLocked now (w_windows w);
              (count, reset) =
                (case windows clientKey of
                   None \<Rightarrow> (0, time_add now window)
                 | Some (count, reset) \<Rightarrow>
                     if \<not> time_before now reset then (0, time_add now window) else (count, reset));
              count = count + 1;
              w = w\<lparr>w_windows := windows(clientKey \<mapsto> (count, reset))\<rparr>
          in if count > limit then (Inr (False, 0), w) else (Inr (True, limit - count), w))"

definition NewMemoryRateLimitStore :: "('s, 'r, 'p) RateLimitStore" where
  "NewMemoryRateLimitStore = \<lparr>rl_Allow = memory_Allow\<rparr>"

definition rateLimitStoreFor ::
  "RateLimitConfig \<Rightarrow> 'r Cache option \<Rightarrow> ('s, 'r, 'p) RateLimitStore option" where
  "rateLimitStoreFor cfg redisClient =
     (if \<not> rc_Enabled cfg then None
      else if rc_Backend cfg = rateLimitBackendMemory then Some NewMemoryRateLimitStore
      else if redisClient = None then Some NewMemoryRateLimitStore
      else Some (NewRedisRateLimitStore redisClient))"

section \<open>The middleware\<close>

definition clientRateLimitKey :: "gin_ctx \<Rightarrow> string" where
  "clientRateLimitKey c =
     (let ip = TrimSpace (g_ClientIP c) in if ip = '''' then ''unknown'' else ip)"

definition ClientRateLimiter ::
  "('s, 'r, 'p) RateLimitStore option \<Rightarrow> RateLimitConfig \<Rightarrow> ('s, 'r, 'p) middleware" where
  "ClientRateLimiter store cfg next c w =
     (case store of
        None \<Rightarrow> next c w
      | Some store \<Rightarrow>
          if \<not> rc_Enabled cfg then next c w
          else
            let requests = (if rc_Requests cfg \<le> 0 then DefaultRateLimitRequests else rc_Requests cfg);
                window = (if rc_Window cfg \<le> 0 then DefaultRateLimitWindow else rc_Window cfg);
                key = clientRateLimitKey c
            in case rl_Allow store (g_CtxErr c) key requests window w of
                 (Inl e, w) \<Rightarrow> (httperr_Abort 503 ''rate limit unavailable'' c, w)
               | (Inr (allowed, remaining), w) \<Rightarrow>
                   let c = set_header ''X-RateLimit-Limit'' (show_int requests) c;
                       c = set_header ''X-RateLimit-Remaining'' (show_int remaining) c
                   in if \<not> allowed then
                        let retryAfter = duration_seconds window;
                            retryAfter = (if retryAfter < 1 then 1 else retryAfter);
                            c = set_header ''Retry-After'' (show_int retryAfter) c
                        in (httperr_Abort 429 ''rate limit exceeded'' c, w)
                      else next c w)"

definition RateLimiterFromEnv :: "'r Cache option \<Rightarrow> go_rt \<Rightarrow> ('s, 'r, 'p) middleware" where
  "RateLimiterFromEnv redisClient rt =
     (let cfg = RateLimitConfigFromEnv rt
      in ClientRateLimiter (rateLimitStoreFor cfg redisClient) cfg)"

section \<open>What a store counts\<close>

text \<open>The entry of a client that still runs at a time: the count so far and the reset time.\<close>

definition running :: "time \<Rightarrow> (int \<times> time) option \<Rightarrow> (int \<times> time) option" where
  "running now e = (case e of None \<Rightarrow> None | Some (n, r) \<Rightarrow> if now < r then Some (n, r) else None)"

text \<open>One request in a fixed window that lasts \<open>len\<close>: the entry it leaves.\<close>

definition tick :: "time \<Rightarrow> duration \<Rightarrow> (int \<times> time) option \<Rightarrow> int \<times> time" where
  "tick now len e = (case running now e of None \<Rightarrow> (1, now + len) | Some (n, r) \<Rightarrow> (n + 1, r))"

locale rate_limit_store =
  fixes store :: "('s, 'r, 'p) RateLimitStore"
    and entry :: "('s, 'r, 'p) world \<Rightarrow> string \<Rightarrow> (int \<times> time) option"
    and clock :: "('s, 'r, 'p) world \<Rightarrow> time"
    and len :: "duration \<Rightarrow> duration"
    and inv :: "('s, 'r, 'p) world \<Rightarrow> bool"
    and fits :: "duration \<Rightarrow> bool"
    and exact :: "int \<Rightarrow> bool"
  assumes allow_inv: "fits window \<Longrightarrow> inv w \<Longrightarrow> inv (snd (rl_Allow store ce k limit window w))"
    and allow_counts:
      "fits window \<Longrightarrow> inv w \<Longrightarrow> rl_Allow store ce k limit window w = (Inr (allowed, remaining), w') \<Longrightarrow>
        (\<exists>n r. tick (clock w) (len window) (entry w k) = (n, r) \<and> entry w' k = Some (n, r) \<and>
           (exact n \<longrightarrow> (allowed \<longleftrightarrow> n \<le> limit) \<and> remaining = (if allowed then limit - n else 0)))"
    and allow_error:
      "fits window \<Longrightarrow> inv w \<Longrightarrow> rl_Allow store ce k limit window w = (Inl e, w') \<Longrightarrow> entry w' k = entry w k"
    and allow_others:
      "fits window \<Longrightarrow> inv w \<Longrightarrow> j \<noteq> k \<Longrightarrow> clock w \<le> t \<Longrightarrow>
        running t (entry (snd (rl_Allow store ce k limit window w)) j) = running t (entry w j)"
    and entry_pos: "inv w \<Longrightarrow> entry w k = Some (n, r) \<Longrightarrow> 1 \<le> n"
    and allow_store: "w_store (snd (rl_Allow store ce k limit window w)) = w_store w"
begin

text \<open>Every request within the limit gets through when the store answers, and is told how many are left.\<close>

lemma under_limit_allowed:
  assumes "fits window" and "inv w" and "rl_Allow store ce k limit window w = (Inr (allowed, remaining), w')"
    and "case running (clock w) (entry w k) of None \<Rightarrow> exact 1 \<and> 1 \<le> limit | Some (n, r) \<Rightarrow> exact (n + 1) \<and> n < limit"
  shows "allowed" and "0 \<le> remaining" and "remaining < limit"
  using allow_counts [OF assms(1-3)] assms(4) entry_pos [OF assms(2), of k]
  by (auto simp: tick_def running_def split: option.splits if_splits)

end

section \<open>The memory store\<close>

definition mem_clock :: "('s, 'r, 'p) world \<Rightarrow> time" where
  "mem_clock w = rt_time (w_rt w) (rt_tick (w_rt w))"

definition mem_inv :: "('s, 'r, 'p) world \<Rightarrow> bool" where
  "mem_inv w \<longleftrightarrow> (\<forall>k n r. w_windows w k = Some (n, r) \<longrightarrow> 1 \<le> n)"

lemma prune_running:
  "now \<le> t \<Longrightarrow> running t (pruneExpiredLocked now ws j) = running t (ws j)"
  by (auto simp: running_def pruneExpiredLocked_def time_before_def split: option.splits)

lemma memory_Allow_eq:
  "memory_Allow None k limit window w =
    (let now = mem_clock w; (n, r) = tick now window (w_windows w k);
         w' = (snd (on_rt time_now w))
           \<lparr>w_windows := (pruneExpiredLocked now (w_windows w))(k \<mapsto> (n, r))\<rparr>
     in if n > limit then (Inr (False, 0), w') else (Inr (True, limit - n), w'))"
  by (auto simp: memory_Allow_def mem_clock_def on_rt_eq time_now_def tick_def running_def
      pruneExpiredLocked_def time_before_def time_add_def Let_def split: option.splits)

lemma memory_Allow_err: "memory_Allow (Some e) k limit window w = (Inl e, w)"
  by (simp add: memory_Allow_def)

lemma on_rt_windows [simp]: "w_windows (snd (on_rt f w)) = w_windows w"
  by (simp add: on_rt_eq)

lemma tick_pos: "(\<And>n r. e = Some (n, r) \<Longrightarrow> 1 \<le> n) \<Longrightarrow> tick now d e = (m, q) \<Longrightarrow> 1 \<le> m"
  by (fastforce simp: tick_def running_def split: option.splits if_splits)

lemma memory_step:
  assumes "mem_inv w"
  shows "mem_inv (snd (memory_Allow ce k limit window w))"
    and "memory_Allow ce k limit window w = (Inr (allowed, remaining), w') \<Longrightarrow>
      \<exists>n r. tick (mem_clock w) window (w_windows w k) = (n, r) \<and> w_windows w' k = Some (n, r) \<and>
        (allowed \<longleftrightarrow> n \<le> limit) \<and> remaining = (if allowed then limit - n else 0)"
    and "memory_Allow ce k limit window w = (Inl e, w') \<Longrightarrow> w_windows w' k = w_windows w k"
    and "j \<noteq> k \<Longrightarrow> mem_clock w \<le> t \<Longrightarrow>
      running t (w_windows (snd (memory_Allow ce k limit window w)) j) = running t (w_windows w j)"
proof -
  obtain n r where t: "tick (mem_clock w) window (w_windows w k) = (n, r)"
    by (cases "tick (mem_clock w) window (w_windows w k)")
  have pos: "1 \<le> n" by (rule tick_pos [OF _ t]) (use assms in \<open>auto simp: mem_inv_def\<close>)
  show "mem_inv (snd (memory_Allow ce k limit window w))"
  proof (cases ce)
    case None
    with t pos assms show ?thesis
      by (auto simp: memory_Allow_eq Let_def mem_inv_def pruneExpiredLocked_def
          split: option.splits if_splits)
  qed (use assms in \<open>simp add: memory_Allow_def\<close>)
  show "memory_Allow ce k limit window w = (Inr (allowed, remaining), w') \<Longrightarrow>
      \<exists>n r. tick (mem_clock w) window (w_windows w k) = (n, r) \<and> w_windows w' k = Some (n, r) \<and>
        (allowed \<longleftrightarrow> n \<le> limit) \<and> remaining = (if allowed then limit - n else 0)"
    using t by (cases ce) (auto simp: memory_Allow_eq memory_Allow_err Let_def split: if_splits)
  show "memory_Allow ce k limit window w = (Inl e, w') \<Longrightarrow> w_windows w' k = w_windows w k"
    using t by (cases ce) (auto simp: memory_Allow_eq memory_Allow_err Let_def split: if_splits)
  show "j \<noteq> k \<Longrightarrow> mem_clock w \<le> t \<Longrightarrow>
      running t (w_windows (snd (memory_Allow ce k limit window w)) j) = running t (w_windows w j)"
    for t
    using \<open>tick (mem_clock w) window (w_windows w k) = (n, r)\<close> prune_running [of "mem_clock w" t]
    by (cases ce) (auto simp: memory_Allow_eq memory_Allow_err Let_def)
qed

lemma memory_store: "w_store (snd (memory_Allow ce k limit window w)) = w_store w"
  by (cases ce; cases "tick (mem_clock w) window (w_windows w k)")
    (auto simp: memory_Allow_eq memory_Allow_err Let_def)

interpretation memory_limiter:
  rate_limit_store NewMemoryRateLimitStore w_windows mem_clock "\<lambda>d. d" mem_inv "\<lambda>d. True" "\<lambda>n. True"
  by unfold_locales
    (simp_all only: NewMemoryRateLimitStore_def RateLimitStore.simps True_implies_equals simp_thms,
     (erule memory_step(1,3) | erule (1) memory_step(2) | erule (2) memory_step(4)
      | rule memory_store | force simp: mem_inv_def)+)

section \<open>The Redis store\<close>

text \<open>The window as the store passes it on: whole milliseconds, at least one.\<close>

definition window_ms :: "duration \<Rightarrow> int" where
  "window_ms window = (if window div millisecond < 1 then 1 else window div millisecond)"

text \<open>A \<open>time.Duration\<close> is an \<open>int64\<close>.\<close>

definition window_fits :: "duration \<Rightarrow> bool" where
  "window_fits window \<longleftrightarrow> window \<le> max_int64"

lemma window_ms_range: "window_fits window \<Longrightarrow> 1 \<le> window_ms window \<and> window_ms window \<le> max_int64"
  by (auto simp: window_ms_def window_fits_def millisecond_def max_int64_def)

text \<open>
  The script as Redis reads it, and what it does: one \<open>INCR\<close>, whose key gets its lifetime when the count is 1.
\<close>

definition rate_program :: "lua_stmt list" where
  "rate_program =
     [SLocal ''n'' (ECall ''INCR'' [AKey 1]),
      SIf (EAtom (AVar ''n'')) (EAtom (ALit 1)) [SRun (ECall ''PEXPIRE'' [AKey 1, AArg 1])],
      SReturn (EAtom (AVar ''n''))]"

lemma rate_script_parsed: "parse_script rateLimitIncrExpireScript = Some rate_program"
  by code_simp

lemma lua_integer_1: "lua_integer 1 = VInt 1" "lua_integer n = VInt 1 \<longleftrightarrow> n = 1"
  by (auto simp: lua_integer_def)

lemma incr_live: "incr_entry now None e = Some (e', n) \<Longrightarrow> live now (Some e') = Some (show_int n)"
  by (auto simp: incr_entry_def live_def split: option.splits if_splits)

lemma incr_expire:
  "incr_entry now (Some d) e =
     map_option (\<lambda>((v, dl), n). ((v, if n = 1 then Some (now + d) else dl), n)) (incr_entry now None e)"
  by (auto simp: incr_entry_def split: option.splits)

lemma incr_text: "incr_entry now x e = Some ((v, dl), n) \<Longrightarrow> v = show_int n"
  by (auto simp: incr_entry_def split: option.splits if_splits)

lemma rate_script_run:
  assumes "1 \<le> ms" and "ms \<le> max_int64"
  shows "run_script rate_program [k] [show_int ms] now m =
    (case incr_entry now (Some (ms * millisecond)) (m k) of
       None \<Rightarrow> (Raised, m)
     | Some (e, n) \<Rightarrow> (Returned (lua_integer n), m(k \<mapsto> e)))"
proof (cases "incr_entry now None (m k)")
  case None
  then show ?thesis by (simp add: run_script_def rate_program_def nth_text_def redis_command_def incr_expire)
next
  case (Some en)
  obtain v dl n where en: "incr_entry now None (m k) = Some ((v, dl), n)" using Some by (cases en) auto
  have ms: "ParseInt (show_int ms) = Some ms" using assms by (simp add: ParseInt_show_int min_int64_def)
  have shown: "v = show_int n" "live now (Some (show_int n, dl)) = Some (show_int n)"
    using incr_text [OF en] incr_live [OF en] by simp_all
  show ?thesis
  proof (cases "n = 1")
    case True
    with en shown assms(1) show ?thesis
      by (simp add: run_script_def rate_program_def nth_text_def redis_command_def incr_expire ms lua_integer_1)
  next
    case False
    with en shown show ?thesis
      by (simp add: run_script_def rate_program_def nth_text_def redis_command_def incr_expire lua_integer_1)
  qed
qed

lemma rate_counted:
  assumes laws: "redis_laws cache content clock" and ms: "1 \<le> ms" "ms \<le> max_int64"
    and run: "c_Eval cache rateLimitIncrExpireScript [k] [ms] r = (x, r')"
  shows "case x of
      Inl e \<Rightarrow> content r' = content r
    | Inr n \<Rightarrow> \<exists>e c. incr_entry (clock r) (Some (ms * millisecond)) (content r k) = Some (e, c) \<and>
        content r' = (content r)(k \<mapsto> e) \<and> (\<bar>c\<bar> \<le> 2 ^ 53 \<longrightarrow> n = c)"
proof -
  obtain out m where script: "run_script rate_program [k] [show_int ms] (clock r) (content r) = (out, m)"
    by (cases "run_script rate_program [k] [show_int ms] (clock r) (content r)")
  have law: "case x of
      Inl e \<Rightarrow> content r' = content r \<or> (content r' = m \<and> (\<forall>n. out \<noteq> Returned (VInt n)) \<and> out \<noteq> Returned VBig)
    | Inr n \<Rightarrow> content r' = m \<and> (out = Returned (VInt n) \<or> out = Returned VBig)"
    using script_lawD [OF redis_lawsD(4) [OF laws] rate_script_parsed run, of out m] script by simp
  show ?thesis
  proof (cases "incr_entry (clock r) (Some (ms * millisecond)) (content r k)")
    case None
    with script rate_script_run [OF ms, of k "clock r" "content r"] have "out = Raised" "m = content r" by auto
    with law show ?thesis by (auto split: sum.splits)
  next
    case (Some ec)
    then obtain e c where ec: "incr_entry (clock r) (Some (ms * millisecond)) (content r k) = Some (e, c)" by (cases ec) auto
    with script rate_script_run [OF ms, of k "clock r" "content r"]
    have "out = Returned (lua_integer c)" "m = (content r)(k \<mapsto> e)" by auto
    with law ec show ?thesis by (auto simp: lua_integer_def split: sum.splits if_splits)
  qed
qed

definition redis_entry ::
  "('r \<Rightarrow> redis_content) \<Rightarrow> ('s, 'r, 'p) world \<Rightarrow> string \<Rightarrow> (int \<times> time) option" where
  "redis_entry content w k =
     (case content (w_redis w) (rateLimitKeyPrefix @ k) of
        Some (v, Some d) \<Rightarrow> map_option (\<lambda>n. (n, d)) (ParseInt v)
      | _ \<Rightarrow> None)"

text \<open>Counters always carry a deadline: the script sets both at once.\<close>

definition redis_inv :: "('r \<Rightarrow> redis_content) \<Rightarrow> ('s, 'r, 'p) world \<Rightarrow> bool" where
  "redis_inv content w \<longleftrightarrow>
     (\<forall>k. content (w_redis w) (rateLimitKeyPrefix @ k) = None \<or>
        (\<exists>n d. content (w_redis w) (rateLimitKeyPrefix @ k) = Some (show_int n, Some d) \<and>
           1 \<le> n \<and> n \<le> max_int64))"

lemma ParseInt_pos: "1 \<le> n \<Longrightarrow> n \<le> max_int64 \<Longrightarrow> ParseInt (show_int n) = Some n"
  by (rule ParseInt_show_int) (simp_all add: min_int64_def)

lemma incr_running:
  assumes "e = None \<or> (\<exists>n d. e = Some (show_int n, Some d) \<and> 1 \<le> n \<and> n \<le> max_int64)"
    and "incr_entry now (Some len) e = Some (e', m)"
  shows "\<exists>r. tick now len (case e of Some (v, Some d) \<Rightarrow> map_option (\<lambda>n. (n, d)) (ParseInt v) | _ \<Rightarrow> None)
      = (m, r) \<and> e' = (show_int m, Some r) \<and> 1 \<le> m \<and> m \<le> max_int64"
proof (cases e)
  case None
  with assms(2) show ?thesis
    by (auto simp: incr_entry_def live_def tick_def running_def max_int64_def)
next
  case (Some vd)
  with assms(1) obtain n d where e: "e = Some (show_int n, Some d)" "1 \<le> n" "n \<le> max_int64" by auto
  with assms(2) ParseInt_pos [OF e(2,3)] show ?thesis
    by (auto simp: incr_entry_def live_def tick_def running_def max_int64_def split: if_splits)
qed

locale redis_server =
  fixes cache :: "'r Cache" and content :: "'r \<Rightarrow> redis_content" and srv_clock :: "'r \<Rightarrow> time"
  assumes laws: "redis_laws cache content srv_clock"
begin

lemma redis_Allow_cases:
  fixes w :: "('s, 'r, 'p) world"
  assumes "redis_inv content w" and "window_fits window"
  obtains (error) e r where
      "redis_Allow (Some cache) ce k limit window w = (Inl e, w\<lparr>w_redis := r\<rparr>)"
      "content r = content (w_redis w)"
  | (counted) n d m r where
      "redis_Allow (Some cache) ce k limit window w =
         (Inr (if m > limit then (False, 0) else (True, limit - m)), w\<lparr>w_redis := r\<rparr>)"
      "tick (srv_clock (w_redis w)) (window_ms window * millisecond) (redis_entry content w k) = (n, d)"
      "content r = (content (w_redis w))(rateLimitKeyPrefix @ k \<mapsto> (show_int n, Some d))"
      "1 \<le> n" "n \<le> max_int64" "n \<le> 2 ^ 53 \<Longrightarrow> m = n"
proof -
  let ?key = "rateLimitKeyPrefix @ k"
  obtain x r where run: "c_Eval cache rateLimitIncrExpireScript [?key] [window_ms window] (w_redis w) = (x, r)"
    by (cases "c_Eval cache rateLimitIncrExpireScript [?key] [window_ms window] (w_redis w)")
  note cnt = rate_counted [OF laws conjunct1 [OF window_ms_range] conjunct2 [OF window_ms_range] run, OF assms(2,2)]
  show thesis
  proof (cases x)
    case (Inl e)
    with cnt run show thesis
      by (intro error [of "Prefixed (''rate limit incr/expire '' @ ?key) e" r])
        (simp_all add: redis_Allow_def Let_def on_redis_eq window_ms_def)
  next
    case (Inr m)
    with cnt obtain e n where e: "incr_entry (srv_clock (w_redis w)) (Some (window_ms window * millisecond))
          (content (w_redis w) ?key) = Some (e, n)"
        "content r = (content (w_redis w))(?key \<mapsto> e)" "\<bar>n\<bar> \<le> 2 ^ 53 \<longrightarrow> m = n"
      by auto
    from assms(1) have "content (w_redis w) ?key = None \<or> (\<exists>n d. content (w_redis w) ?key =
        Some (show_int n, Some d) \<and> 1 \<le> n \<and> n \<le> max_int64)"
      by (auto simp: redis_inv_def)
    from incr_running [OF this e(1)] obtain d where
      "tick (srv_clock (w_redis w)) (window_ms window * millisecond) (redis_entry content w k) = (n, d)"
      "e = (show_int n, Some d)" "1 \<le> n" "n \<le> max_int64"
      by (auto simp: redis_entry_def)
    with e(2,3) Inr run show thesis
      by (intro counted [of m r n d])
        (simp_all add: redis_Allow_def Let_def on_redis_eq window_ms_def)
  qed
qed

lemma redis_step:
  fixes w :: "('s, 'r, 'p) world"
  assumes inv: "redis_inv content w" and fits: "window_fits window"
  shows "redis_inv content (snd (redis_Allow (Some cache) ce k limit window w))"
    and "redis_Allow (Some cache) ce k limit window w = (Inr (allowed, remaining), w') \<Longrightarrow>
      \<exists>n r. tick (srv_clock (w_redis w)) (window_ms window * millisecond) (redis_entry content w k) =
          (n, r) \<and> redis_entry content w' k = Some (n, r) \<and>
        (n \<le> 2 ^ 53 \<longrightarrow> (allowed \<longleftrightarrow> n \<le> limit) \<and> remaining = (if allowed then limit - n else 0))"
    and "redis_Allow (Some cache) ce k limit window w = (Inl e, w') \<Longrightarrow>
      redis_entry content w' k = redis_entry content w k"
    and "j \<noteq> k \<Longrightarrow> redis_entry content (snd (redis_Allow (Some cache) ce k limit window w)) j =
      redis_entry content w j"
proof -
  have "redis_inv content (snd (redis_Allow (Some cache) ce k limit window w)) \<and>
      (redis_Allow (Some cache) ce k limit window w = (Inr (allowed, remaining), w') \<longrightarrow>
        (\<exists>n r. tick (srv_clock (w_redis w)) (window_ms window * millisecond) (redis_entry content w k) =
            (n, r) \<and> redis_entry content w' k = Some (n, r) \<and>
          (n \<le> 2 ^ 53 \<longrightarrow> (allowed \<longleftrightarrow> n \<le> limit) \<and> remaining = (if allowed then limit - n else 0)))) \<and>
      (redis_Allow (Some cache) ce k limit window w = (Inl e, w') \<longrightarrow>
        redis_entry content w' k = redis_entry content w k) \<and>
      (j \<noteq> k \<longrightarrow> redis_entry content (snd (redis_Allow (Some cache) ce k limit window w)) j =
        redis_entry content w j)"
  proof (cases rule: redis_Allow_cases [OF inv fits, of ce k limit, case_names error counted])
    case (error e r)
    with inv show ?thesis by (auto simp: redis_inv_def redis_entry_def)
  next
    case (counted n d m r)
    with inv ParseInt_pos [OF counted(4,5)] show ?thesis
      by (auto simp: redis_inv_def redis_entry_def split: if_splits)
  qed
  then show "redis_inv content (snd (redis_Allow (Some cache) ce k limit window w))"
    and "redis_Allow (Some cache) ce k limit window w = (Inr (allowed, remaining), w') \<Longrightarrow>
      \<exists>n r. tick (srv_clock (w_redis w)) (window_ms window * millisecond) (redis_entry content w k) =
          (n, r) \<and> redis_entry content w' k = Some (n, r) \<and>
        (n \<le> 2 ^ 53 \<longrightarrow> (allowed \<longleftrightarrow> n \<le> limit) \<and> remaining = (if allowed then limit - n else 0))"
    and "redis_Allow (Some cache) ce k limit window w = (Inl e, w') \<Longrightarrow>
      redis_entry content w' k = redis_entry content w k"
    and "j \<noteq> k \<Longrightarrow> redis_entry content (snd (redis_Allow (Some cache) ce k limit window w)) j =
      redis_entry content w j"
    by blast+
qed

lemma redis_others:
  fixes w :: "('s, 'r, 'p) world"
  shows "window_fits window \<Longrightarrow> redis_inv content w \<Longrightarrow> j \<noteq> k \<Longrightarrow> srv_clock (w_redis w) \<le> t \<Longrightarrow>
    running t (redis_entry content (snd (redis_Allow (Some cache) ce k limit window w)) j) =
    running t (redis_entry content w j)"
  by (simp only: redis_step(4) not_False_eq_True)

end

lemma redis_Allow_store: "w_store (snd (redis_Allow cache ce k limit window w)) = w_store w"
  by (auto simp: redis_Allow_def Let_def on_redis_eq split: option.splits sum.splits prod.splits)

lemma redis_entry_pos:
  assumes "redis_inv content w" and "redis_entry content w k = Some (n, r)"
  shows "1 \<le> n"
proof -
  have some: "content (w_redis w) (rateLimitKeyPrefix @ k) \<noteq> None"
    using assms(2) by (auto simp: redis_entry_def split: option.splits)
  have "content (w_redis w) (rateLimitKeyPrefix @ k) = None \<or>
      (\<exists>n d. content (w_redis w) (rateLimitKeyPrefix @ k) = Some (show_int n, Some d) \<and>
         1 \<le> n \<and> n \<le> max_int64)"
    using assms(1) unfolding redis_inv_def by blast
  with some obtain m d where
    "content (w_redis w) (rateLimitKeyPrefix @ k) = Some (show_int m, Some d)"
    "1 \<le> m" "m \<le> max_int64"
    by auto
  with assms(2) ParseInt_pos show ?thesis by (auto simp: redis_entry_def)
qed

sublocale redis_server \<subseteq> redis_limiter:
  rate_limit_store "NewRedisRateLimitStore (Some cache)" "redis_entry content"
    "\<lambda>w. srv_clock (w_redis w)" "\<lambda>d. window_ms d * millisecond" "redis_inv content"
    window_fits "\<lambda>n. n \<le> 2 ^ 53"
proof
  fix w :: "('a, 'r, 'b) world" and w' :: "('a, 'r, 'b) world"
    and ce k limit window allowed remaining e j n and t r :: time
  show "window_fits window \<Longrightarrow> redis_inv content w \<Longrightarrow>
      redis_inv content (snd (rl_Allow (NewRedisRateLimitStore (Some cache)) ce k limit window w))"
    unfolding NewRedisRateLimitStore_def RateLimitStore.simps by (rule redis_step(1))
  show "window_fits window \<Longrightarrow> redis_inv content w \<Longrightarrow>
      rl_Allow (NewRedisRateLimitStore (Some cache)) ce k limit window w
        = (Inr (allowed, remaining), w') \<Longrightarrow>
      \<exists>n r. tick (srv_clock (w_redis w)) (window_ms window * millisecond) (redis_entry content w k)
          = (n, r) \<and> redis_entry content w' k = Some (n, r) \<and> (n \<le> 2 ^ 53 \<longrightarrow>
        (allowed \<longleftrightarrow> n \<le> limit) \<and> remaining = (if allowed then limit - n else 0))"
    unfolding NewRedisRateLimitStore_def RateLimitStore.simps by (rule redis_step(2))
  show "window_fits window \<Longrightarrow> redis_inv content w \<Longrightarrow>
      rl_Allow (NewRedisRateLimitStore (Some cache)) ce k limit window w = (Inl e, w') \<Longrightarrow>
      redis_entry content w' k = redis_entry content w k"
    unfolding NewRedisRateLimitStore_def RateLimitStore.simps by (rule redis_step(3))
  show "window_fits window \<Longrightarrow> redis_inv content w \<Longrightarrow> j \<noteq> k \<Longrightarrow> srv_clock (w_redis w) \<le> t \<Longrightarrow>
      running t (redis_entry content
          (snd (rl_Allow (NewRedisRateLimitStore (Some cache)) ce k limit window w)) j)
        = running t (redis_entry content w j)"
    unfolding NewRedisRateLimitStore_def RateLimitStore.simps by (rule redis_others)
  show "redis_inv content w \<Longrightarrow> redis_entry content w k = Some (n, r) \<Longrightarrow> 1 \<le> n"
    by (rule redis_entry_pos)
  show "w_store (snd (rl_Allow (NewRedisRateLimitStore (Some cache)) ce k limit window w)) = w_store w"
    unfolding NewRedisRateLimitStore_def RateLimitStore.simps by (rule redis_Allow_store)
qed

interpretation mem_redis_server: redis_server mem_redis rm_content rm_now
  by unfold_locales (rule mem_redis_laws)

end
