(* ===== verification/Middleware_Misc.thy ===== *)
theory Middleware_Misc
  imports Gin Go_Strconv Go_Strings
begin

text \<open>
  The middlewares around every request that bear on what the handlers see: the cap on the body
  (\<open>max_body.go\<close>), the request identifier (\<open>request_id.go\<close>) and the deadline of the request's
  context (\<open>request_timeout.go\<close>), all of \<open>pkg/middleware\<close>.
\<close>

unbundle bit_operations_syntax

section \<open>max\_body.go\<close>

definition DefaultMaxRequestBodyBytes :: int where "DefaultMaxRequestBodyBytes = 1048576"

text \<open>\<open>http.MaxBytesReader\<close> is recorded as the limit the body may be read up to.\<close>

definition MaxRequestBody :: "int \<Rightarrow> ('s, 'r, 'p) middleware" where
  "MaxRequestBody maxBytes next c w =
     (let maxBytes = (if maxBytes \<le> 0 then DefaultMaxRequestBodyBytes else maxBytes)
      in if g_Method c \<notin> {''POST'', ''PUT'', ''PATCH''} then next c w
         else if g_ContentLength c > maxBytes then (AbortWithStatus 413 c, w)
         else next (c\<lparr>g_MaxBytes := Some maxBytes\<rparr>) w)"

section \<open>request\_id.go\<close>

definition RequestIDHeader :: string where "RequestIDHeader = ''X-Request-Id''"
definition requestIDGinKey :: string where "requestIDGinKey = ''request_id''"

text \<open>The bytes of the array \<open>b\<close> from \<open>i\<close> to \<open>j\<close>, the slice \<open>b[i:j]\<close>.\<close>

definition slice :: "nat \<Rightarrow> nat \<Rightarrow> string \<Rightarrow> string" where
  "slice i j b = take (j - i) (drop i b)"

definition set_version_bits :: "string \<Rightarrow> string" where
  "set_version_bits b =
     (let b = b[6 := char_of (((of_char (b ! 6) :: nat) AND 15) OR 64)]
      in b[8 := char_of (((of_char (b ! 8) :: nat) AND 63) OR 128)])"

definition newRequestID :: "go_rt \<Rightarrow> string \<times> go_rt" where
  "newRequestID rt =
     (case rand_read 16 rt of
        (None, rt) \<Rightarrow> ('''', rt)
      | (Some b, rt) \<Rightarrow>
          let b = set_version_bits b
          in (hex_encode (slice 0 4 b) @ ''-'' @ hex_encode (slice 4 6 b) @ ''-'' @
              hex_encode (slice 6 8 b) @ ''-'' @ hex_encode (slice 8 10 b) @ ''-'' @
              hex_encode (slice 10 16 b), rt))"

definition RequestID :: "('s, 'r, 'p) middleware" where
  "RequestID next c w =
     (let requestID = TrimSpace (g_GetHeader c RequestIDHeader);
          (requestID, w) = (if requestID = '''' then on_rt newRequestID w else (requestID, w));
          requestID = (if requestID = '''' then ''unknown'' else requestID);
          c = set_key requestIDGinKey (VStr requestID) c;
          c = set_header RequestIDHeader requestID c;
          c = c\<lparr>g_CtxRequestID := Some requestID\<rparr>
      in next c w)"

definition GetRequestID :: "gin_ctx option \<Rightarrow> string" where
  "GetRequestID c =
     (case c of
        None \<Rightarrow> ''''
      | Some c \<Rightarrow>
          (case g_Keys c requestIDGinKey of Some (VStr requestID) \<Rightarrow> requestID | _ \<Rightarrow> ''''))"

text \<open>The context is the request's; its value under the private key is a string when it is there.\<close>

definition GetRequestIDFromContext :: "gin_ctx option \<Rightarrow> string" where
  "GetRequestIDFromContext ctx =
     (case ctx of
        None \<Rightarrow> ''''
      | Some c \<Rightarrow> (case g_CtxRequestID c of None \<Rightarrow> '''' | Some requestID \<Rightarrow> requestID))"

section \<open>request\_timeout.go\<close>

definition defaultRequestContextTimeout :: duration where
  "defaultRequestContextTimeout = 60 * second"

text \<open>
  \<open>strings.EqualFold(s, t)\<close> for an ASCII \<open>t\<close> without \<open>k\<close> and \<open>s\<close>, the only letters that
  characters outside ASCII fold to.
\<close>

definition EqualFold :: "string \<Rightarrow> string \<Rightarrow> bool" where
  "EqualFold s t \<longleftrightarrow> map lower_char s = map lower_char t"

definition requestContextTimeoutDurationFromEnv :: "go_rt \<Rightarrow> duration" where
  "requestContextTimeoutDurationFromEnv rt =
     (let s = TrimSpace (rt_env rt ''REQUEST_CONTEXT_TIMEOUT'')
      in if s = '''' then defaultRequestContextTimeout
         else if EqualFold s ''0'' \<or> EqualFold s ''off'' \<or> EqualFold s ''none'' then 0
         else case ParseDuration s of
                None \<Rightarrow> defaultRequestContextTimeout
              | Some d \<Rightarrow> if d \<le> 0 then defaultRequestContextTimeout else d)"

definition RequestContextTimeout :: "duration \<Rightarrow> ('s, 'r, 'p) middleware" where
  "RequestContextTimeout d next c w =
     (if d \<le> 0 then next c w else next (c\<lparr>g_Timeout := Some d\<rparr>) w)"

definition RequestContextTimeoutFromEnv :: "go_rt \<Rightarrow> ('s, 'r, 'p) middleware" where
  "RequestContextTimeoutFromEnv rt = RequestContextTimeout (requestContextTimeoutDurationFromEnv rt)"

section \<open>The shape of an identifier\<close>

lemma set_version_bits_length [simp]: "length (set_version_bits b) = length b"
  by (simp add: set_version_bits_def Let_def)

lemma slice_length: "j \<le> length b \<Longrightarrow> length (slice i j b) = j - i"
  by (simp add: slice_def)

text \<open>Version 4 in the high half of byte 6, the RFC 4122 variant in the top bits of byte 8.\<close>

lemma nibbles:
  fixes n :: nat
  shows "(n AND 15) OR 64 = n mod 16 + 64" and "(n AND 63) OR 128 = n mod 64 + 128"
proof -
  have "n AND 15 = n mod 16" "n AND 63 = n mod 64"
    using take_bit_eq_mask [of 4 n] take_bit_eq_mask [of 6 n]
    by (simp_all add: take_bit_eq_mod mask_eq_exp_minus_1)
  moreover have "(n AND 15) AND 64 = 0" "(n AND 63) AND 128 = 0"
    by (simp_all add: and.assoc)
  then have "(n AND 15) OR 64 = (n AND 15) + 64" "(n AND 63) OR 128 = (n AND 63) + 128"
    by (simp_all add: disjunctive_add_eq_or)
  ultimately show "(n AND 15) OR 64 = n mod 16 + 64" and "(n AND 63) OR 128 = n mod 64 + 128"
    by simp_all
qed

text \<open>
  An identifier is five groups of hexadecimal digits, the third opening with the version digit
  4 and the fourth with a variant digit among \<open>89ab\<close>.
\<close>

definition uuid_v4 :: "string \<Rightarrow> bool" where
  "uuid_v4 s \<longleftrightarrow>
     (\<exists>a b c d e. s = a @ ''-'' @ b @ ''-'' @ c @ ''-'' @ d @ ''-'' @ e \<and>
        map length [a, b, c, d, e] = [8, 4, 4, 4, 12] \<and>
        set (concat [a, b, c, d, e]) \<subseteq> hex_alphabet \<and> hd c = CHR ''4'' \<and> hd d \<in> set ''89ab'')"

lemma hd_hex_encode: "s \<noteq> [] \<Longrightarrow> hd (hex_encode s) = hex_digit (of_char (hd s) div 16)"
  by (cases s) (simp_all add: hex_encode_def hex_byte_def Let_def)

lemma hd_slice: "i < j \<Longrightarrow> i < length b \<Longrightarrow> hd (slice i j b) = b ! i \<and> slice i j b \<noteq> []"
  by (auto simp: slice_def hd_drop_conv_nth)

lemma set_version_bits_at:
  assumes "length b = 16"
  shows "(of_char (set_version_bits b ! 6) :: nat) = of_char (b ! 6) mod 16 + 64"
    and "(of_char (set_version_bits b ! 8) :: nat) = of_char (b ! 8) mod 64 + 128"
proof -
  have "(of_char (b ! 6) mod 16 + 64 :: nat) < 256" "(of_char (b ! 8) mod 64 + 128 :: nat) < 256"
    using mod_less_divisor [of 16 "of_char (b ! 6)"] mod_less_divisor [of 64 "of_char (b ! 8)"]
    by simp_all
  then show "(of_char (set_version_bits b ! 6) :: nat) = of_char (b ! 6) mod 16 + 64"
    and "(of_char (set_version_bits b ! 8) :: nat) = of_char (b ! 8) mod 64 + 128"
    using assms by (simp_all add: set_version_bits_def Let_def nibbles)
qed

lemma variant_digit: "(n :: nat) < 64 \<Longrightarrow> hex_digit ((n + 128) div 16) \<in> set ''89ab''"
proof -
  assume "n < 64"
  then have "(n + 128) div 16 \<in> {8, 9, 10, 11}" by auto
  then show ?thesis by (auto simp: hex_digit_def)
qed

lemma newRequestID_shape:
  assumes "fst (rand_read 16 rt) = Some b"
  shows "uuid_v4 (fst (newRequestID rt))"
proof -
  have len: "length b = 16" by (rule rand_read_length [OF assms])
  let ?v = "set_version_bits b"
  have lv: "length ?v = 16" using len by simp
  obtain rt' where run: "rand_read 16 rt = (Some b, rt')"
    using assms by (cases "rand_read 16 rt") simp
  have id: "fst (newRequestID rt) = hex_encode (slice 0 4 ?v) @ ''-'' @ hex_encode (slice 4 6 ?v) @
      ''-'' @ hex_encode (slice 6 8 ?v) @ ''-'' @ hex_encode (slice 8 10 ?v) @ ''-'' @
      hex_encode (slice 10 16 ?v)"
    by (simp add: newRequestID_def run Let_def)
  have c: "hd (hex_encode (slice 6 8 ?v)) = CHR ''4''"
    using hd_slice [of 6 8 ?v] lv set_version_bits_at(1) [OF len]
    by (simp add: hd_hex_encode hex_digit_def)
  have d: "hd (hex_encode (slice 8 10 ?v)) \<in> set ''89ab''"
    using hd_slice [of 8 10 ?v] lv set_version_bits_at(2) [OF len]
      variant_digit [of "of_char (b ! 8) mod 64"]
    by (simp add: hd_hex_encode)
  show ?thesis
    unfolding uuid_v4_def
    by (rule exI [where x = "hex_encode (slice 0 4 ?v)"],
        rule exI [where x = "hex_encode (slice 4 6 ?v)"],
        rule exI [where x = "hex_encode (slice 6 8 ?v)"],
        rule exI [where x = "hex_encode (slice 8 10 ?v)"],
        rule exI [where x = "hex_encode (slice 10 16 ?v)"])
      (use id c d lv set_hex_encode in \<open>simp add: length_hex_encode slice_length\<close>)
qed

section \<open>What the handlers see\<close>

text \<open>The identifier of a request is never empty, and both readers of it agree.\<close>

lemma RequestID_cases:
  obtains c' w' rid where "RequestID next c w = next c' w'" "rid \<noteq> ''''"
    "g_Keys c' = (g_Keys c)(requestIDGinKey \<mapsto> VStr rid)" "g_CtxRequestID c' = Some rid"
    "g_Headers c' RequestIDHeader = Some rid" "g_Aborted c' = g_Aborted c"
    "w_store w' = w_store w" "w_redis w' = w_redis w" "w_pub w' = w_pub w"
    "TrimSpace (g_GetHeader c RequestIDHeader) \<noteq> '''' \<Longrightarrow> rid = TrimSpace (g_GetHeader c RequestIDHeader)"
proof -
  let ?h = "TrimSpace (g_GetHeader c RequestIDHeader)"
  let ?rw = "if ?h = '''' then on_rt newRequestID w else (?h, w)"
  let ?rid = "if fst ?rw = '''' then ''unknown'' else fst ?rw"
  let ?c = "(set_header RequestIDHeader ?rid (set_key requestIDGinKey (VStr ?rid) c))
    \<lparr>g_CtxRequestID := Some ?rid\<rparr>"
  show thesis
    by (rule that [of ?c "snd ?rw" ?rid])
      (simp_all add: RequestID_def Let_def set_header_def set_key_def on_rt_eq split: prod.splits)
qed

lemma requestContextTimeout_nonneg: "0 \<le> requestContextTimeoutDurationFromEnv rt"
  by (auto simp: requestContextTimeoutDurationFromEnv_def defaultRequestContextTimeout_def
      second_def Let_def split: option.splits)

end
