(* ===== verification/Observability.thy ===== *)
theory Observability
  imports Middleware_Misc "HOL-Library.Sublist"
begin

text \<open>
  What the service records of its requests (\<open>pkg/middleware\<close>): the Prometheus metrics
  (\<open>metrics.go\<close>), the access log with its bounded queue to MongoDB (\<open>logger.go\<close>) and the
  tracing spans (\<open>tracing.go\<close>). The Prometheus, zap and OpenTelemetry libraries are
  represented by what they are handed: the increments of a counter, the observations of a
  histogram, the lines and the ended spans, in the record \<open>observability\<close>.
\<close>

definition on_obs :: "(observability \<Rightarrow> observability) \<Rightarrow> ('s, 'r, 'p) world \<Rightarrow> ('s, 'r, 'p) world" where
  "on_obs f w = w\<lparr>w_obs := f (w_obs w)\<rparr>"

lemma on_obs_frame [simp]:
  "w_store (on_obs f w) = w_store w" "w_redis (on_obs f w) = w_redis w" "w_pub (on_obs f w) = w_pub w"
  "w_rt (on_obs f w) = w_rt w" "w_jwtkey (on_obs f w) = w_jwtkey w" "w_apikey (on_obs f w) = w_apikey w"
  "w_windows (on_obs f w) = w_windows w" "w_published (on_obs f w) = w_published w"
  "w_obs (on_obs f w) = f (w_obs w)"
  by (simp_all add: on_obs_def)

section \<open>metrics.go\<close>

definition DefaultMetricsPath :: string where "DefaultMetricsPath = ''/metrics''"
definition unmatchedRouteLabel :: string where "unmatchedRouteLabel = ''unmatched''"

record MetricsConfig =
  mc_Enabled :: bool
  mc_Path :: string

text \<open>
  The collectors the code builds, as it describes them to the Prometheus library: name, help text
  and the names of the labels. The first two are the library's own, for the run-time and the process.
\<close>

datatype collector =
    GoCollector
  | ProcessCollector
  | CounterVec string string "string list"
  | HistogramVec string string "string list"
  | Gauge string string

definition http_requests_total :: collector where
  "http_requests_total =
     CounterVec ''http_requests_total'' ''Total number of HTTP requests processed.'' [''method'', ''path'', ''status'']"

definition http_request_duration_seconds :: collector where
  "http_request_duration_seconds =
     HistogramVec ''http_request_duration_seconds'' ''HTTP request duration in seconds.'' [''method'', ''path'']"

definition http_requests_in_flight :: collector where
  "http_requests_in_flight =
     Gauge ''http_requests_in_flight'' ''Number of HTTP requests currently being processed.''"

text \<open>The counter of \<open>pkg/events/metrics.go\<close>; its increments are the world's \<open>w_published\<close>.\<close>

definition PublishTotal :: collector where
  "PublishTotal =
     CounterVec ''domain_events_published_total''
       ''Domain event publish attempts, labeled by event type and result (success|error).'' [''type'', ''result'']"

text \<open>\<open>Metrics\<close>; without a registry the collectors are nil too.\<close>

record Metrics =
  ms_cfg :: MetricsConfig
  ms_registry :: "collector list option"

definition MetricsConfigFromEnv :: "go_rt \<Rightarrow> MetricsConfig" where
  "MetricsConfigFromEnv rt =
     \<lparr>mc_Enabled =
        (let s = TrimSpace (rt_env rt ''METRICS_ENABLED'')
         in if s \<noteq> '''' then
              if ToLower s \<in> {''0'', ''false'', ''no'', ''off'', ''none''} then False
              else True
            else True),
      mc_Path =
        (let s = TrimSpace (rt_env rt ''METRICS_PATH'')
         in if s \<noteq> '''' then
              if \<not> starts_with ''/'' s \<or> contains s '' '' then DefaultMetricsPath else s
            else DefaultMetricsPath)\<rparr>"

definition NewMetrics :: "MetricsConfig \<Rightarrow> Metrics" where
  "NewMetrics cfg =
     (let cfg = (if mc_Path cfg = '''' then cfg\<lparr>mc_Path := DefaultMetricsPath\<rparr> else cfg)
      in if \<not> mc_Enabled cfg then \<lparr>ms_cfg = cfg, ms_registry = None\<rparr>
         else \<lparr>ms_cfg = cfg, ms_registry =
           Some [GoCollector, ProcessCollector, http_requests_total, http_request_duration_seconds,
                 http_requests_in_flight, PublishTotal]\<rparr>)"

text \<open>
  \<open>MustRegister\<close> panics on a name it knows, and \<open>WithLabelValues\<close> on a number of values that is not
  the number of labels. The names differ, and each counter is kept under as many labels as it has.
\<close>

fun collector_name :: "collector \<Rightarrow> string option" where
  "collector_name (CounterVec n h ls) = Some n"
| "collector_name (HistogramVec n h ls) = Some n"
| "collector_name (Gauge n h) = Some n"
| "collector_name GoCollector = None"
| "collector_name ProcessCollector = None"

fun collector_labels :: "collector \<Rightarrow> string list" where
  "collector_labels (CounterVec n h ls) = ls"
| "collector_labels (HistogramVec n h ls) = ls"
| "collector_labels _ = []"

lemma registry_names_distinct:
  "ms_registry (NewMetrics cfg) = Some reg \<Longrightarrow> distinct (filter (\<lambda>n. n \<noteq> None) (map collector_name reg))"
  by (auto simp: NewMetrics_def Let_def http_requests_total_def http_request_duration_seconds_def
      http_requests_in_flight_def PublishTotal_def split: if_splits)

lemma registry_iff_enabled: "ms_registry (NewMetrics cfg) \<noteq> None \<longleftrightarrow> mc_Enabled cfg"
  by (simp add: NewMetrics_def Let_def)

lemma label_values:
  "length [method, route, status] = length (collector_labels http_requests_total)"
  "length [method, route] = length (collector_labels http_request_duration_seconds)"
  "length [eventType, result] = length (collector_labels PublishTotal)"
  by (simp_all add: http_requests_total_def http_request_duration_seconds_def PublishTotal_def)

definition MetricsFromEnv :: "go_rt \<Rightarrow> Metrics" where
  "MetricsFromEnv rt = NewMetrics (MetricsConfigFromEnv rt)"

definition shouldSkip :: "Metrics \<Rightarrow> gin_ctx \<Rightarrow> bool" where
  "shouldSkip m c =
     (let path = g_URLPath c
      in if path = mc_Path (ms_cfg m) then True
         else if starts_with ''/swagger'' path then True
         else False)"

definition inc_inFlight :: "int \<Rightarrow> observability \<Rightarrow> observability" where
  "inc_inFlight n ob = ob\<lparr>ob_inFlight := ob_inFlight ob + n\<rparr>"

definition inc_requests :: "string \<times> string \<times> string \<Rightarrow> observability \<Rightarrow> observability" where
  "inc_requests l ob = ob\<lparr>ob_requests := (ob_requests ob)(l := Suc (ob_requests ob l))\<rparr>"

definition observe_duration :: "string \<times> string \<Rightarrow> duration \<Rightarrow> observability \<Rightarrow> observability" where
  "observe_duration l d ob = ob\<lparr>ob_duration := (ob_duration ob)(l := d # ob_duration ob l)\<rparr>"

definition metrics_Middleware :: "Metrics option \<Rightarrow> ('s, 'r, 'p) middleware" where
  "metrics_Middleware m next c w =
     (case m of
        None \<Rightarrow> next c w
      | Some m \<Rightarrow>
          if \<not> mc_Enabled (ms_cfg m) then next c w
          else if shouldSkip m c then next c w
          else
            let w = on_obs (inc_inFlight 1) w;
                (start, w) = on_rt time_now w;
                (c, w) = next c w;
                route = g_FullPath c;
                route = (if route = '''' then unmatchedRouteLabel else route);
                status = show_int (g_Status c);
                method = g_Method c;
                w = on_obs (inc_requests (method, route, status)) w;
                (end_time, w) = on_rt time_now w;
                w = on_obs (observe_duration (method, route) (time_sub end_time start)) w;
                w = on_obs (inc_inFlight (- 1)) w
            in (c, w))"

text \<open>The scrape handler: 404 when nothing is registered, else the library's exposition.\<close>

definition metrics_Handler :: "('s, 'r, 'p) handler \<Rightarrow> Metrics option \<Rightarrow> ('s, 'r, 'p) handler" where
  "metrics_Handler promhttp m c w =
     (case m of
        None \<Rightarrow> (set_status 404 c, w)
      | Some m \<Rightarrow>
          if \<not> mc_Enabled (ms_cfg m) \<or> ms_registry m = None then (set_status 404 c, w)
          else promhttp c w)"

definition metrics_Enabled :: "Metrics option \<Rightarrow> bool" where
  "metrics_Enabled m = (case m of None \<Rightarrow> False | Some m \<Rightarrow> mc_Enabled (ms_cfg m))"

definition metrics_Path :: "Metrics option \<Rightarrow> string" where
  "metrics_Path m =
     (case m of
        None \<Rightarrow> DefaultMetricsPath
      | Some m \<Rightarrow> if mc_Path (ms_cfg m) = '''' then DefaultMetricsPath else mc_Path (ms_cfg m))"


section \<open>logger.go\<close>

definition mongoAccessLogQueueSize :: nat where "mongoAccessLogQueueSize = 256"
definition mongoAccessLogDropLogEvery :: uint where "mongoAccessLogDropLogEvery = 100"

definition log_line_out :: "log_line \<Rightarrow> observability \<Rightarrow> observability" where
  "log_line_out l ob = ob\<lparr>ob_log := ob_log ob @ [l]\<rparr>"

text \<open>
  The queue of a configured collection, \<open>True\<close>, is the channel and the drop counter of the world, which
  start empty; without a collection it is nil, \<open>False\<close>, and nothing is enqueued.
  The worker is a goroutine: one step takes the oldest document, if there is one, and inserts
  it; \<open>InsertOne\<close> is MongoDB's, its outcome is an argument.
\<close>

definition newMongoAccessLogQueue :: "bool \<Rightarrow> bool" where
  "newMongoAccessLogQueue collection = (if \<not> collection then False else True)"

lemma newMongoAccessLogQueue_simp [simp]: "newMongoAccessLogQueue collection = collection"
  by (simp add: newMongoAccessLogQueue_def)

definition enqueue :: "bool \<Rightarrow> log_entry \<Rightarrow> observability \<Rightarrow> observability" where
  "enqueue q doc ob =
     (if \<not> q then ob
      else if length (ob_ch ob) < mongoAccessLogQueueSize then ob\<lparr>ob_ch := ob_ch ob @ [doc]\<rparr>
      else
        let n = ob_dropped ob + 1;
            ob = ob\<lparr>ob_dropped := n\<rparr>
        in if n = 1 \<or> n mod mongoAccessLogDropLogEvery = 0 then log_line_out (DropWarning n) ob
           else ob)"

definition worker_step :: "(log_entry \<Rightarrow> go_error + unit) \<Rightarrow> observability \<Rightarrow> observability" where
  "worker_step InsertOne ob =
     (case ob_ch ob of
        [] \<Rightarrow> ob
      | doc # ch \<Rightarrow>
          let ob = ob\<lparr>ob_ch := ch\<rparr>
          in case InsertOne doc of
               Inl err \<Rightarrow> log_line_out InsertFailed ob
             | Inr _ \<Rightarrow> ob)"

definition Logger :: "bool \<Rightarrow> ('s, 'r, 'p) middleware" where
  "Logger collection next c w =
     (let mongoQ = newMongoAccessLogQueue collection;
          (start, w) = on_rt time_now w;
          (c, w) = next c w;
          (end_time, w) = on_rt time_now w;
          duration = time_sub end_time start;
          requestID = GetRequestID (Some c);
          logEntry = \<lparr>le_Method = g_Method c, le_Path = g_URLPath c, le_Status = g_Status c,
            le_Duration = duration, le_IP = g_ClientIP c, le_UserAgent = g_UserAgent c,
            le_RequestID = requestID, le_Trace = g_CtxSpan c\<rparr>;
          w = on_obs (log_line_out (RequestLine logEntry)) w;
          w = on_obs (enqueue mongoQ logEntry) w
      in (c, w))"

section \<open>tracing.go\<close>

definition requestIDSpanAttrKey :: string where "requestIDSpanAttrKey = ''http.request_id''"

definition requestScheme :: "gin_ctx \<Rightarrow> string" where
  "requestScheme c =
     (if g_TLS c then ''https''
      else if g_GetHeader c ''X-Forwarded-Proto'' \<noteq> '''' then g_GetHeader c ''X-Forwarded-Proto''
      else ''http'')"

definition httpStatusText :: "int \<Rightarrow> string" where
  "httpStatusText code = (if code \<ge> 500 then ''HTTP '' @ show_int code else '''')"

text \<open>
  \<open>otel\<close> is the tracer with the propagator: the identifiers of the span it starts for the
  request, when they are valid. The attribute keys are the ones of the semantic conventions.
  No handler of the service adds to \<open>c.Errors\<close>.
\<close>

definition span_attrs :: "gin_ctx \<Rightarrow> (string \<times> string) list" where
  "span_attrs c =
     [(''http.request.method'', g_Method c), (''url.path'', g_URLPath c),
      (''url.scheme'', requestScheme c)] @
     (if g_Host c \<noteq> '''' then [(''server.address'', g_Host c)] else []) @
     (if GetRequestID (Some c) \<noteq> '''' then [(requestIDSpanAttrKey, GetRequestID (Some c))] else []) @
     (if g_FullPath c \<noteq> '''' then [(''http.route'', g_FullPath c)] else [])"

definition Tracing :: "(gin_ctx \<Rightarrow> (string \<times> string) option) \<Rightarrow> ('s, 'r, 'p) middleware" where
  "Tracing otel next c w =
     (let route = g_FullPath c;
          spanName = (if route = '''' then g_Method c @ '' unmatched'' else route);
          attrs = span_attrs c;
          c = c\<lparr>g_CtxSpan := otel c\<rparr>;
          (c, w) = next c w;
          status = g_Status c;
          sp = \<lparr>sp_Name = spanName, sp_Attrs = attrs, sp_StatusCode = status,
                sp_Error = (if status \<ge> 500 then Some (httpStatusText status) else None)\<rparr>;
          w = on_obs (\<lambda>ob. ob\<lparr>ob_spans := ob_spans ob @ [sp]\<rparr>) w
      in (c, w))"

section \<open>The access-log queue\<close>

text \<open>
  The life of the queue: requests enqueue, the worker takes. It never holds more than its
  capacity, and every document is either waiting, taken, or counted as dropped.
\<close>

datatype queue_event = Enqueue log_entry | Worker "log_entry \<Rightarrow> go_error + unit"

fun queue_run :: "queue_event list \<Rightarrow> observability \<Rightarrow> observability" where
  "queue_run [] ob = ob"
| "queue_run (Enqueue doc # es) ob = queue_run es (enqueue True doc ob)"
| "queue_run (Worker ins # es) ob = queue_run es (worker_step ins ob)"

fun taken :: "queue_event list \<Rightarrow> observability \<Rightarrow> log_entry list" where
  "taken [] ob = []"
| "taken (Enqueue doc # es) ob = taken es (enqueue True doc ob)"
| "taken (Worker ins # es) ob = take 1 (ob_ch ob) @ taken es (worker_step ins ob)"

fun offered :: "queue_event list \<Rightarrow> log_entry list" where
  "offered [] = []"
| "offered (Enqueue doc # es) = doc # offered es"
| "offered (Worker ins # es) = offered es"

lemma log_line_out_simps [simp]:
  "ob_ch (log_line_out l ob) = ob_ch ob" "ob_dropped (log_line_out l ob) = ob_dropped ob"
  by (simp_all add: log_line_out_def)

lemma enqueue_ch:
  "ob_ch (enqueue True doc ob) =
     (if length (ob_ch ob) < mongoAccessLogQueueSize then ob_ch ob @ [doc] else ob_ch ob)"
  by (simp add: enqueue_def Let_def)

lemma enqueue_dropped:
  "ob_dropped (enqueue True doc ob) =
     (if length (ob_ch ob) < mongoAccessLogQueueSize then ob_dropped ob else ob_dropped ob + 1)"
  by (simp add: enqueue_def Let_def)

lemma worker_step_simps:
  "ob_ch (worker_step ins ob) = tl (ob_ch ob)" "ob_dropped (worker_step ins ob) = ob_dropped ob"
  by (auto simp: worker_step_def Let_def split: list.splits sum.splits)

lemma queue_bounded:
  "length (ob_ch ob) \<le> mongoAccessLogQueueSize \<Longrightarrow>
    length (ob_ch (queue_run es ob)) \<le> mongoAccessLogQueueSize"
  by (induction es ob rule: queue_run.induct) (simp_all add: enqueue_ch worker_step_simps)

text \<open>
  First in, first out: what was waiting, followed by a subsequence of what was offered, is what
  the worker took followed by what still waits. The documents missing are the dropped ones.
\<close>

lemma queue_accounting:
  "\<exists>kept. subseq kept (offered es) \<and>
     ob_ch ob @ kept = taken es ob @ ob_ch (queue_run es ob) \<and>
     ob_dropped (queue_run es ob) = ob_dropped ob + of_nat (length (offered es) - length kept)"
proof (induction es ob rule: queue_run.induct)
  case (1 ob)
  show ?case by simp
next
  case (2 doc es ob)
  then obtain kept where k: "subseq kept (offered es)"
    "ob_ch (enqueue True doc ob) @ kept =
       taken es (enqueue True doc ob) @ ob_ch (queue_run es (enqueue True doc ob))"
    "ob_dropped (queue_run es (enqueue True doc ob)) =
       ob_dropped (enqueue True doc ob) + of_nat (length (offered es) - length kept)" by blast
  have le: "length kept \<le> length (offered es)" by (rule list_emb_length [OF k(1)])
  show ?case
  proof (cases "length (ob_ch ob) < mongoAccessLogQueueSize")
    case True
    with k show ?thesis
      by (intro exI [where x = "doc # kept"]) (simp add: enqueue_ch enqueue_dropped)
  next
    case False
    with k le show ?thesis
      by (intro exI [where x = kept]) (simp add: enqueue_ch enqueue_dropped Suc_diff_le list_emb_Cons)
  qed
next
  case (3 ins es ob)
  then obtain kept where "subseq kept (offered es)"
    "tl (ob_ch ob) @ kept = taken es (worker_step ins ob) @ ob_ch (queue_run es (worker_step ins ob))"
    "ob_dropped (queue_run es (worker_step ins ob)) =
       ob_dropped ob + of_nat (length (offered es) - length kept)"
    by (auto simp: worker_step_simps)
  then show ?case by (cases "ob_ch ob") (auto simp: intro!: exI [where x = kept])
qed

end

