(* ===== verification/Token_Store.thy ===== *)
theory Token_Store
  imports Repo_Base Contracts Pg_Laws
begin

text \<open>
  \<open>SQLCUserStore\<close> (\<open>pkg/repository/user_sqlc.go\<close>) and \<open>SQLCRefreshTokenStore\<close>
  (\<open>pkg/repository/refresh_sqlc.go\<close>), with the rotation of a refresh token in one
  transaction, and the proofs that they keep the contracts of theory Contracts.
\<close>

section \<open>Users\<close>

definition userFromDB :: "user_row \<Rightarrow> User" where
  "userFromDB u =
     \<lparr>u_ID = uint_of_int64 (ur_ID u), u_Username = ur_Username u, u_Password = ur_Password u,
      u_Role = ur_Role u, u_CreatedAt = ur_CreatedAt u, u_UpdatedAt = ur_UpdatedAt u\<rparr>"

definition store_FindByUsername :: "string \<Rightarrow> pg \<Rightarrow> (go_error + User) \<times> pg" where
  "store_FindByUsername username s =
     (case q_GetUserByUsername Pool username s of
        (Inl e, s) \<Rightarrow> (Inl (mapNotFound e), s)
      | (Inr row, s) \<Rightarrow> (Inr (userFromDB row), s))"

definition store_FindByID :: "uint \<Rightarrow> pg \<Rightarrow> (go_error + User) \<times> pg" where
  "store_FindByID i s =
     (case q_GetUserByID Pool (toInt64 i) s of
        (Inl e, s) \<Rightarrow> (Inl (mapNotFound e), s)
      | (Inr row, s) \<Rightarrow> (Inr (userFromDB row), s))"

definition store_CreateUser :: "User \<Rightarrow> pg \<Rightarrow> (go_error + User) \<times> pg" where
  "store_CreateUser user s =
     (case q_CreateUser Pool
             \<lparr>cup_Username = u_Username user, cup_Password = u_Password user,
              cup_Role = u_Role user\<rparr> s of
        (Inl e, s) \<Rightarrow>
          (Inl (if isUsernameUniqueConstraintError e then fmtError ErrUserUsernameConflict e else e), s)
      | (Inr row, s) \<Rightarrow> (Inr (userFromDB row), s))"

definition SQLCUserStore :: "pg UserPersistence" where
  "SQLCUserStore =
     \<lparr>us_FindByUsername = store_FindByUsername, us_FindByID = store_FindByID,
      us_Create = store_CreateUser\<rparr>"

section \<open>Refresh tokens\<close>

definition refreshFromDB :: "token_row \<Rightarrow> RefreshToken" where
  "refreshFromDB t =
     \<lparr>tk_ID = uint_of_int64 (tr_ID t), tk_UserID = uint_of_int64 (tr_UserID t),
      tk_TokenHash = tr_TokenHash t, tk_FamilyID = tr_FamilyID t, tk_ExpiresAt = tr_ExpiresAt t,
      tk_ConsumedAt = tr_ConsumedAt t, tk_RevokedAt = tr_RevokedAt t,
      tk_CreatedAt = tr_CreatedAt t, tk_UpdatedAt = tr_UpdatedAt t\<rparr>"

definition tokenParams :: "RefreshToken \<Rightarrow> CreateRefreshTokenParams" where
  "tokenParams token =
     \<lparr>crp_UserID = toInt64 (tk_UserID token), crp_TokenHash = tk_TokenHash token,
      crp_FamilyID = tk_FamilyID token, crp_ExpiresAt = tk_ExpiresAt token\<rparr>"

definition store_CreateToken :: "RefreshToken \<Rightarrow> pg \<Rightarrow> (go_error + RefreshToken) \<times> pg" where
  "store_CreateToken token s =
     (case q_CreateRefreshToken Pool (tokenParams token) s of
        (Inl e, s) \<Rightarrow> (Inl e, s)
      | (Inr row, s) \<Rightarrow> (Inr (refreshFromDB row), s))"

definition store_FindByHash :: "string \<Rightarrow> pg \<Rightarrow> (go_error + RefreshToken) \<times> pg" where
  "store_FindByHash tokenHash s =
     (case q_GetRefreshTokenByHash Pool tokenHash s of
        (Inl e, s) \<Rightarrow> (Inl (mapNotFound e), s)
      | (Inr row, s) \<Rightarrow> (Inr (refreshFromDB row), s))"

text \<open>
  The deferred rollback runs on every path; after a commit it has no effect. \<open>s0\<close> is the
  database at the beginning of the transaction.
\<close>

definition store_RotateAtomically ::
  "uint \<Rightarrow> time \<Rightarrow> RefreshToken \<Rightarrow> pg \<Rightarrow> (go_error + RefreshToken) \<times> pg" where
  "store_RotateAtomically oldID at token s =
     (case pg_begin s of
        (Inl e, s) \<Rightarrow> (Inl e, s)
      | (Inr tx, s0) \<Rightarrow>
          (case q_ConsumeRefreshTokenIfActive tx (toInt64 oldID) at s0 of
             (Inl e, s) \<Rightarrow> (Inl e, pg_rollback s0 s)
           | (Inr n, s) \<Rightarrow>
               if n \<noteq> 1 then (Inl (Sentinel ErrRefreshAlreadyConsumed), pg_rollback s0 s)
               else
                 (case q_CreateRefreshToken tx (tokenParams token) s of
                    (Inl e, s) \<Rightarrow> (Inl e, pg_rollback s0 s)
                  | (Inr row, s) \<Rightarrow>
                      (case pg_commit s of
                         (Inl e, s) \<Rightarrow> (Inl e, pg_rollback s0 s)
                       | (Inr _, s) \<Rightarrow> (Inr (refreshFromDB row), s)))))"

definition store_RevokeFamily :: "string \<Rightarrow> time \<Rightarrow> pg \<Rightarrow> (go_error + unit) \<times> pg" where
  "store_RevokeFamily familyID at = q_RevokeRefreshFamily Pool familyID at"

definition store_RevokeAllForUser :: "uint \<Rightarrow> time \<Rightarrow> pg \<Rightarrow> (go_error + unit) \<times> pg" where
  "store_RevokeAllForUser userID at = q_RevokeAllRefreshForUser Pool (toInt64 userID) at"

definition SQLCRefreshTokenStore :: "pg RefreshTokenPersistence" where
  "SQLCRefreshTokenStore =
     \<lparr>rf_Create = store_CreateToken, rf_FindByHash = store_FindByHash,
      rf_RotateAtomically = store_RotateAtomically, rf_RevokeFamily = store_RevokeFamily,
      rf_RevokeAllForUser = store_RevokeAllForUser\<rparr>"

section \<open>The contract of the users\<close>

lemmas op_splits = prod.splits sum.splits if_splits

definition users_of :: "pg \<Rightarrow> string \<Rightarrow> User option" where
  "users_of s n = map_option userFromDB (user_table s n)"

lemma users_of_table: "user_table s' = user_table s \<Longrightarrow> users_of s' = users_of s"
  by (rule ext) (simp add: users_of_def)

lemma users_of_same: "same_tables s s' \<Longrightarrow> users_of s' = users_of s"
  by (rule users_of_table) (simp add: same_tables_def)

lemma users_of_upd:
  "user_table s' = (user_table s)(n \<mapsto> row) \<Longrightarrow> users_of s' = (users_of s)(n \<mapsto> userFromDB row)"
  by (rule ext) (simp add: users_of_def)

lemma store_user_reads:
  "same_tables s (snd (store_FindByUsername n s))" "same_tables s (snd (store_FindByID i s))"
  using q_selects_tables(2) [of s Pool "toInt64 i"] q_selects_tables(3) [of s Pool n]
  by (auto simp: store_FindByUsername_def store_FindByID_def split: op_splits)

lemma store_user_found:
  "store_FindByUsername n s = (Inr u, s') \<Longrightarrow> users_of s n = Some u \<and> u_Username u = n"
  by (auto simp: store_FindByUsername_def users_of_def userFromDB_def
      dest!: q_GetUserByUsername_done split: op_splits)

text \<open>Two identifiers the database cannot tell apart.\<close>

definition same_key :: "uint \<Rightarrow> uint \<Rightarrow> bool" where
  "same_key i j \<longleftrightarrow> toInt64 i = toInt64 j"

lemma store_user_by_id:
  assumes "pg_ok s" and "store_FindByID i s = (Inr u, s')"
  shows "users_of s (u_Username u) = Some u \<and> same_key (u_ID u) i"
  using assms(2) q_GetUserByID_done [OF assms(1)] toInt64_range [of i]
  by (auto simp: store_FindByID_def users_of_def userFromDB_def same_key_def toInt64_of_row
      split: op_splits)

lemma store_user_create:
  assumes "store_CreateUser u s = (Inr u', s')"
  shows "users_of s (u_Username u) = None \<and> users_of s' = (users_of s)(u_Username u \<mapsto> u') \<and>
    u_Username u' = u_Username u \<and> u_Password u' = u_Password u \<and> u_Role u' = u_Role u"
proof -
  obtain row where row: "u' = userFromDB row"
      "q_CreateUser Pool \<lparr>cup_Username = u_Username u, cup_Password = u_Password u,
         cup_Role = u_Role u\<rparr> s = (Inr row, s')"
    using assms by (auto simp: store_CreateUser_def split: op_splits)
  note created = q_CreateUser_done [OF row(2)]
  from created users_of_upd [OF created(2)] show ?thesis
    by (simp add: row(1) users_of_def userFromDB_def)
qed

lemma store_user_create_fail: "store_CreateUser u s = (Inl e, s') \<Longrightarrow> users_of s' = users_of s"
  by (auto simp: store_CreateUser_def split: op_splits dest!: q_CreateUser_fail users_of_same)

lemma store_user_ok:
  assumes "pg_ok s"
  shows "pg_ok (snd (store_FindByUsername n s))" "pg_ok (snd (store_FindByID i s))"
    "pg_ok (snd (store_CreateUser u s))"
proof -
  show "pg_ok (snd (store_FindByUsername n s))"
    using q_selects_ok(3) [OF assms, of Pool n]
    by (auto simp: store_FindByUsername_def split: op_splits)
  show "pg_ok (snd (store_FindByID i s))"
    using q_selects_ok(2) [OF assms, of Pool "toInt64 i"]
    by (auto simp: store_FindByID_def split: op_splits)
  show "pg_ok (snd (store_CreateUser u s))"
    using q_CreateUser_ok [OF assms, of Pool "\<lparr>cup_Username = u_Username u,
        cup_Password = u_Password u, cup_Role = u_Role u\<rparr>"]
    by (auto simp: store_CreateUser_def split: op_splits)
qed

lemma store_user_missing:
  assumes "pg_ok s" and "store_FindByUsername n s = (Inl e, s')" and "errors_is e ErrNotFound"
  shows "users_of s n = None"
  using assms(2,3) q_GetUserByUsername_missing [OF assms(1)]
  by (auto simp: store_FindByUsername_def users_of_def IsNotFound_def split: op_splits)

lemma store_user_conflict:
  assumes "pg_ok s" and "store_CreateUser u s = (Inl e, s')"
    and "errors_is e ErrUserUsernameConflict"
  shows "users_of s (u_Username u) \<noteq> None"
proof -
  obtain e' where q: "q_CreateUser Pool \<lparr>cup_Username = u_Username u, cup_Password = u_Password u,
         cup_Role = u_Role u\<rparr> s = (Inl e', s')"
      "e = (if isUsernameUniqueConstraintError e' then fmtError ErrUserUsernameConflict e' else e')"
    using assms(2) by (auto simp: store_CreateUser_def split: prod.splits sum.splits)
  have "isUsernameUniqueConstraintError e'"
  proof (rule ccontr)
    assume no: "\<not> isUsernameUniqueConstraintError e'"
    with assms(3) q(2) have "errors_is e' ErrUserUsernameConflict" by simp
    with pg_exec_error [OF assms(1) q(1) [unfolded q_CreateUser_def]] no show False
      by (auto simp: Let_def fault_ok_def seq_exhausted_def value_too_long_def
          unique_violation_def split: if_splits)
  qed
  with q_CreateUser_conflict [OF assms(1) q(1)] show ?thesis by (simp add: users_of_def)
qed

interpretation sqlc_users: user_persistence SQLCUserStore users_of same_key pg_ok
  by unfold_locales
    (simp_all only: SQLCUserStore_def UserPersistence.simps,
     (erule store_user_ok store_user_create_fail store_user_create store_user_found
      | rule users_of_same [OF store_user_reads(1)] users_of_same [OF store_user_reads(2)]
      | erule (1) store_user_by_id
      | erule (2) store_user_missing store_user_conflict)+)

section \<open>The contract of the refresh tokens\<close>

definition tokens_of :: "pg \<Rightarrow> string \<Rightarrow> RefreshToken option" where
  "tokens_of s h = map_option refreshFromDB (token_table s h)"

lemma tokens_of_table: "token_table s' = token_table s \<Longrightarrow> tokens_of s' = tokens_of s"
  by (rule ext) (simp add: tokens_of_def)

lemma tokens_of_same: "same_tables s s' \<Longrightarrow> tokens_of s' = tokens_of s"
  by (rule tokens_of_table) (simp add: same_tables_def)

lemma tokens_of_upd:
  "token_table s' = (token_table s)(h \<mapsto> row) \<Longrightarrow>
    tokens_of s' = (tokens_of s)(h \<mapsto> refreshFromDB row)"
  by (rule ext) (simp add: tokens_of_def)

lemma tokenParams_range: "crp_UserID (tokenParams t) \<in> {0..max_int64}"
  using toInt64_range by (simp add: tokenParams_def)

lemma store_find_same: "same_tables s (snd (store_FindByHash h s))"
  using q_selects_tables(4) [of s Pool h] by (auto simp: store_FindByHash_def split: op_splits)

lemma store_find_found:
  "store_FindByHash h s = (Inr t, s') \<Longrightarrow> tokens_of s h = Some t \<and> tk_TokenHash t = h"
  by (auto simp: store_FindByHash_def tokens_of_def refreshFromDB_def
      dest!: q_GetRefreshTokenByHash_done split: op_splits)

text \<open>The token a new row is read back as.\<close>

lemma refreshFromDB_new:
  "tk_active (refreshFromDB (new_token_row i (tokenParams t) now)) \<and>
   tk_TokenHash (refreshFromDB (new_token_row i (tokenParams t) now)) = tk_TokenHash t \<and>
   tk_FamilyID (refreshFromDB (new_token_row i (tokenParams t) now)) = tk_FamilyID t \<and>
   tk_ExpiresAt (refreshFromDB (new_token_row i (tokenParams t) now)) = tk_ExpiresAt t \<and>
   same_key (tk_UserID (refreshFromDB (new_token_row i (tokenParams t) now))) (tk_UserID t)"
  using toInt64_range [of "tk_UserID t"]
  by (simp add: refreshFromDB_def new_token_row_def tokenParams_def tk_active_def same_key_def
      toInt64_of_row)

lemma store_token_create:
  assumes "store_CreateToken t s = (Inr t', s')"
  shows "tokens_of s (tk_TokenHash t) = None \<and> tokens_of s' = (tokens_of s)(tk_TokenHash t \<mapsto> t') \<and>
    tk_active t' \<and> tk_TokenHash t' = tk_TokenHash t \<and> tk_FamilyID t' = tk_FamilyID t \<and>
    tk_ExpiresAt t' = tk_ExpiresAt t \<and> same_key (tk_UserID t') (tk_UserID t)"
proof -
  obtain row where row: "t' = refreshFromDB row"
      "q_CreateRefreshToken Pool (tokenParams t) s = (Inr row, s')"
    using assms by (auto simp: store_CreateToken_def split: op_splits)
  note created = q_CreateRefreshToken_done [OF row(2)]
  from created(3) obtain now where new: "row = new_token_row (tr_ID row) (tokenParams t) now" ..
  then have hash: "tr_TokenHash row = tk_TokenHash t"
    by (metis new_token_row_def tokenParams_def token_row.select_convs(3)
        CreateRefreshTokenParams.select_convs(2))
  from refreshFromDB_new [of "tr_ID row" t now] show ?thesis
    unfolding new [symmetric] row(1) [symmetric]
    using created(1) tokens_of_upd [OF created(2)] by (simp add: hash row(1) tokens_of_def)
qed

text \<open>A rollback restores the tables; the sequences only ever grow, so the invariant is kept.\<close>

definition seq_le :: "pg \<Rightarrow> pg \<Rightarrow> bool" where
  "seq_le s t \<longleftrightarrow>
     pg_books_seq s \<le> pg_books_seq t \<and> pg_users_seq s \<le> pg_users_seq t \<and>
     pg_tokens_seq s \<le> pg_tokens_seq t"

lemma seq_le_trans: "seq_le s t \<Longrightarrow> seq_le t u \<Longrightarrow> seq_le s u"
  by (auto simp: seq_le_def)

lemma pg_rollback_ok: "pg_ok s0 \<Longrightarrow> pg_ok s \<Longrightarrow> seq_le s0 s \<Longrightarrow> pg_ok (pg_rollback s0 s)"
  unfolding pg_ok_def pg_rollback_def seq_le_def key_ok_def by fastforce

lemma rollback_same [simp]: "same_tables s0 (pg_rollback s0 s)"
  by (simp add: same_tables_def pg_rollback_def)

lemma rotate_seq_le:
  "seq_le s (snd (q_ConsumeRefreshTokenIfActive db i at s))"
  "seq_le s (snd (q_CreateRefreshToken db arg s))"
  "seq_le s (snd (pg_commit s))"
  unfolding q_ConsumeRefreshTokenIfActive_def q_CreateRefreshToken_def pg_commit_def
  by (rule pg_exec_rule; auto simp: seq_le_def Let_def)+

lemma same_tables_trans: "same_tables s t \<Longrightarrow> same_tables t u \<Longrightarrow> same_tables s u"
  by (simp add: same_tables_def)

lemma pg_begin_same: "same_tables s (snd (pg_begin s))"
  and pg_commit_same: "same_tables s (snd (pg_commit s))"
  unfolding pg_begin_def pg_commit_def by (rule pg_exec_rule; simp add: same_tables_def)+

text \<open>The ways a rotation can end: with the tables as they were, or committed.\<close>

lemma store_rotate_cases:
  obtains (failed) e s0 s1 where "store_RotateAtomically i at t s = (Inl e, s1)"
      "s1 = s0 \<or> (\<exists>s2. s1 = pg_rollback s0 s2 \<and> seq_le s0 s2 \<and> (pg_ok s0 \<longrightarrow> pg_ok s2))"
      "s0 = snd (pg_begin s)"
  | (committed) tx s0 s1 row s2 s3 where
      "store_RotateAtomically i at t s = (Inr (refreshFromDB row), s3)"
      "s0 = snd (pg_begin s)"
      "q_ConsumeRefreshTokenIfActive tx (toInt64 i) at s0 = (Inr 1, s1)"
      "q_CreateRefreshToken tx (tokenParams t) s1 = (Inr row, s2)"
      "s3 = snd (pg_commit s2)"
proof (cases "pg_begin s")
  case begun: (Pair b s0)
  show thesis
  proof (cases b)
    case (Inl e)
    then show thesis using begun by (intro failed [of e s0 s0]) (simp_all add: store_RotateAtomically_def)
  next
    case tx: (Inr tx)
    let ?c = "q_ConsumeRefreshTokenIfActive tx (toInt64 i) at s0"
    let ?n = "q_CreateRefreshToken tx (tokenParams t) (snd ?c)"
    let ?k = "pg_commit (snd ?n)"
    have le: "seq_le s0 (snd ?c)" "seq_le s0 (snd ?n)" "seq_le s0 (snd ?k)"
    proof -
      show c: "seq_le s0 (snd ?c)" by (rule rotate_seq_le)
      show n: "seq_le s0 (snd ?n)" by (rule seq_le_trans [OF c rotate_seq_le(2)])
      show "seq_le s0 (snd ?k)" by (rule seq_le_trans [OF n rotate_seq_le(3)])
    qed
    have ok: "pg_ok s0 \<longrightarrow> pg_ok (snd ?c)" "pg_ok s0 \<longrightarrow> pg_ok (snd ?n)" "pg_ok s0 \<longrightarrow> pg_ok (snd ?k)"
      using tokenParams_range by (simp_all add: q_Consume_ok q_CreateRefreshToken_ok q_selects_ok(6))
    show thesis
    proof (cases "fst ?c = Inr 1 \<and> is_ok (fst ?n) \<and> is_ok (fst ?k)")
      case True
      then obtain s1 row s2 s3 where c: "?c = (Inr 1, s1)" and n: "?n = (Inr row, s2)"
          and k: "?k = (Inr (), s3)"
        by (cases ?c; cases ?n; cases ?k) (auto simp: is_ok_def split: sum.splits)
      from begun tx c n k show thesis
        by (intro committed [of row s3 s0 tx s1 s2]) (simp_all add: store_RotateAtomically_def)
    next
      case False
      then have "\<exists>e s2. store_RotateAtomically i at t s = (Inl e, pg_rollback s0 s2) \<and>
          s2 \<in> {snd ?c, snd ?n, snd ?k}"
        using begun tx
        by (cases ?c; cases "fst ?c"; cases ?n; cases "fst ?n"; cases ?k; cases "fst ?k")
          (auto simp: store_RotateAtomically_def)
      with le ok begun show thesis by (metis failed insertE singletonD snd_conv)
    qed
  qed
qed

lemma store_rotate_ok:
  assumes "pg_ok s"
  shows "pg_ok (snd (store_RotateAtomically i at t s))"
proof -
  have ok0: "pg_ok (snd (pg_begin s))" using q_selects_ok(5) [OF assms] .
  show ?thesis
  proof (cases rule: store_rotate_cases [of i at t s])
    case (failed e s0 s1)
    then show ?thesis using ok0 pg_rollback_ok by auto
  next
    case (committed tx s0 s1 row s2 s3)
    have "pg_ok s1" using q_Consume_ok [OF ok0] committed(2,3) by (metis snd_conv)
    then have "pg_ok s2" using q_CreateRefreshToken_ok [OF _ tokenParams_range] committed(4)
      by (metis snd_conv)
    then show ?thesis using q_selects_ok(6) committed(1,5) by auto
  qed
qed

lemma store_rotate_fail:
  assumes "store_RotateAtomically i at t s = (Inl e, s')"
  shows "same_tables s s'"
proof (cases rule: store_rotate_cases [of i at t s])
  case (failed e' s0 s1)
  then have "same_tables s s0" "same_tables s0 s1"
    using pg_begin_same [of s] by (auto simp: same_tables_def pg_rollback_def)
  with failed(1) assms show ?thesis by (auto intro: same_tables_trans)
next
  case (committed tx s0 s1 row s2 s3)
  with assms show ?thesis by simp
qed

text \<open>
  A committed rotation found the old token active under its own hash, spent it, and added
  the new one under a hash that was free; no other token changed but for \<open>UpdatedAt\<close>.
\<close>

lemma refreshFromDB_simps [simp]:
  "tk_RevokedAt (refreshFromDB r) = tr_RevokedAt r" "tk_ConsumedAt (refreshFromDB r) = tr_ConsumedAt r"
  "tk_FamilyID (refreshFromDB r) = tr_FamilyID r" "tk_TokenHash (refreshFromDB r) = tr_TokenHash r"
  "tk_ID (refreshFromDB r) = uint_of_int64 (tr_ID r)"
  "tk_UserID (refreshFromDB r) = uint_of_int64 (tr_UserID r)"
  by (simp_all add: refreshFromDB_def)

lemma token_core_eq:
  "token_core (refreshFromDB (r\<lparr>tr_ConsumedAt := Some at, tr_UpdatedAt := now\<rparr>)) =
     token_core ((refreshFromDB r)\<lparr>tk_ConsumedAt := Some at\<rparr>)"
  "token_core (refreshFromDB (r\<lparr>tr_RevokedAt := Some at, tr_UpdatedAt := now\<rparr>)) =
     token_core ((refreshFromDB r)\<lparr>tk_RevokedAt := Some at\<rparr>)"
  by (simp_all add: token_core_def refreshFromDB_def)

lemma consume_table:
  assumes "pg_ok s" and "r \<in> set (pg_tokens s)" and "tr_ID r = i" and "token_active r"
    and "pg_tokens s' = sql_update (\<lambda>r. tr_ID r = i \<and> token_active r)
       (\<lambda>r. r\<lparr>tr_ConsumedAt := Some at, tr_UpdatedAt := now\<rparr>) (pg_tokens s)"
  shows "token_table s' =
    (token_table s)(tr_TokenHash r \<mapsto> r\<lparr>tr_ConsumedAt := Some at, tr_UpdatedAt := now\<rparr>)"
proof
  fix h
  have ids: "distinct (map tr_ID (pg_tokens s))"
    using pg_okD(3) [OF assms(1)] by (simp add: key_ok_def)
  have hashes: "distinct (map tr_TokenHash (pg_tokens s))" by (rule pg_okD(5) [OF assms(1)])
  have only: "x = r" if "x \<in> set (pg_tokens s)" "tr_ID x = i" for x
    using ids assms(2,3) that by (auto simp: distinct_map inj_on_def)
  have upd: "token_table s' h = map_option
      (\<lambda>r. if tr_ID r = i \<and> token_active r then r\<lparr>tr_ConsumedAt := Some at, tr_UpdatedAt := now\<rparr>
           else r) (token_table s h)"
    unfolding assms(5) using hashes by (intro table_of_update_pred) simp_all
  show "token_table s' h =
    ((token_table s)(tr_TokenHash r \<mapsto> r\<lparr>tr_ConsumedAt := Some at, tr_UpdatedAt := now\<rparr>)) h"
  proof (cases "h = tr_TokenHash r")
    case True
    then show ?thesis using upd table_of_in [OF hashes assms(2)] assms(3,4) by simp
  next
    case False
    then have "tr_ID x \<noteq> i" if "token_table s h = Some x" for x
      using table_of_Some [OF that] only by blast
    with False upd show ?thesis by (cases "token_table s h") simp_all
  qed
qed

lemma store_rotate_done:
  assumes "pg_ok s" and "store_RotateAtomically i at t s = (Inr t', s')"
  shows "(\<exists>h old. tokens_of s h = Some old \<and> same_key (tk_ID old) i \<and> tk_active old \<and>
       tokens_of s (tk_TokenHash t) = None \<and>
       map_option token_core \<circ> tokens_of s' = (map_option token_core \<circ> tokens_of s)
         (h \<mapsto> token_core (old\<lparr>tk_ConsumedAt := Some at\<rparr>), tk_TokenHash t \<mapsto> token_core t')) \<and>
    tk_active t' \<and> tk_TokenHash t' = tk_TokenHash t \<and> tk_FamilyID t' = tk_FamilyID t \<and>
    tk_ExpiresAt t' = tk_ExpiresAt t \<and> same_key (tk_UserID t') (tk_UserID t)"
proof (cases rule: store_rotate_cases [of i at t s])
  case (failed e s0 s1)
  with assms(2) show ?thesis by simp
next
  case (committed tx s0 s1 row s2 s3)
  have s0: "pg_ok s0" "same_tables s s0"
    using q_selects_ok(5) [OF assms(1)] pg_begin_same committed(2) by auto
  from q_Consume_done(4) [OF s0(1) committed(3)] obtain r
    where r: "r \<in> set (pg_tokens s0)" "tr_ID r = toInt64 i" "token_active r" by auto
  from q_Consume_done(5) [OF s0(1) committed(3)] consume_table [OF s0(1) r] obtain now
    where s1: "token_table s1 =
        (token_table s0)(tr_TokenHash r \<mapsto> r\<lparr>tr_ConsumedAt := Some at, tr_UpdatedAt := now\<rparr>)"
    by blast
  note created = q_CreateRefreshToken_done [OF committed(4)]
  from created(3) obtain now' where new: "row = new_token_row (tr_ID row) (tokenParams t) now'" ..
  then have hash: "tr_TokenHash row = tk_TokenHash t"
    by (metis new_token_row_def tokenParams_def token_row.select_convs(3)
        CreateRefreshTokenParams.select_convs(2))
  have t': "t' = refreshFromDB row" "tokens_of s' = tokens_of s2" "tokens_of s0 = tokens_of s"
    using assms(2) committed(1,5) tokens_of_same [OF pg_commit_same] tokens_of_same [OF s0(2)]
    by auto
  have old: "tokens_of s (tr_TokenHash r) = Some (refreshFromDB r)"
    using table_of_in [OF pg_okD(5) [OF s0(1)] r(1)] by (simp add: t'(3) [symmetric] tokens_of_def)
  have act: "tk_active (refreshFromDB r)" "same_key (tk_ID (refreshFromDB r)) i"
    using r token_row_range [OF s0(1) r(1)] toInt64_of_row
    by (auto simp: tk_active_def token_active_def refreshFromDB_def same_key_def)
  have free: "tokens_of s (tk_TokenHash t) = None"
    using created(1) s1 hash by (auto simp: t'(3) [symmetric] tokens_of_def split: if_splits)
  have "map_option token_core \<circ> tokens_of s' = (map_option token_core \<circ> tokens_of s)
      (tr_TokenHash r \<mapsto> token_core ((refreshFromDB r)\<lparr>tk_ConsumedAt := Some at\<rparr>),
       tk_TokenHash t \<mapsto> token_core t')"
    using tokens_of_upd [OF created(2)] tokens_of_upd [OF s1]
    by (auto simp: fun_eq_iff t' hash token_core_eq)
  with old act free refreshFromDB_new [of "tr_ID row" t now', folded new t'(1)] show ?thesis
    by blast
qed

lemma store_revoke_core:
  assumes "token_table s' = (\<lambda>h. map_option
      (\<lambda>r. if p r \<and> tr_RevokedAt r = None then r\<lparr>tr_RevokedAt := Some at, tr_UpdatedAt := now\<rparr> else r)
      (token_table s h))"
    and "\<And>h r. token_table s h = Some r \<Longrightarrow> p r = q (refreshFromDB r)"
  shows "map_option token_core \<circ> tokens_of s' =
    map_option (token_core \<circ> revoke_if q at) \<circ> tokens_of s"
proof
  fix h
  show "(map_option token_core \<circ> tokens_of s') h =
      (map_option (token_core \<circ> revoke_if q at) \<circ> tokens_of s) h"
  proof (cases "token_table s h")
    case (Some r)
    with assms(2) [OF this] assms(1) show ?thesis
      by (simp add: tokens_of_def revoke_if_def token_core_eq)
  qed (simp add: tokens_of_def assms(1))
qed

lemma store_revoke_family_done:
  assumes "pg_ok s" and "store_RevokeFamily f at s = (Inr x, s')"
  shows "map_option token_core \<circ> tokens_of s' =
    map_option (token_core \<circ> revoke_if (\<lambda>t. tk_FamilyID t = f) at) \<circ> tokens_of s"
  using q_RevokeFamily_done [OF assms(1) assms(2) [unfolded store_RevokeFamily_def]]
  by (elim exE) (rule store_revoke_core, assumption, simp)

lemma store_revoke_user_done:
  assumes "pg_ok s" and "store_RevokeAllForUser u at s = (Inr x, s')"
  shows "map_option token_core \<circ> tokens_of s' =
    map_option (token_core \<circ> revoke_if (\<lambda>t. same_key (tk_UserID t) u) at) \<circ> tokens_of s"
proof -
  have "tr_UserID r = toInt64 u \<longleftrightarrow> same_key (tk_UserID (refreshFromDB r)) u"
    if "token_table s h = Some r" for h r
    using table_of_Some [OF that] pg_okD(7) [OF assms(1)] by (simp add: same_key_def toInt64_of_row)
  with q_RevokeAll_done [OF assms(1) assms(2) [unfolded store_RevokeAllForUser_def]]
  show ?thesis by (elim exE) (rule store_revoke_core, assumption, blast)
qed

lemma store_token_fails:
  "store_CreateToken t s = (Inl e, s') \<Longrightarrow> tokens_of s' = tokens_of s"
  "store_RevokeFamily f at s = (Inl e, s') \<Longrightarrow> tokens_of s' = tokens_of s"
  "store_RevokeAllForUser u at s = (Inl e, s') \<Longrightarrow> tokens_of s' = tokens_of s"
proof -
  show "store_CreateToken t s = (Inl e, s') \<Longrightarrow> tokens_of s' = tokens_of s"
    by (auto simp: store_CreateToken_def split: op_splits
        dest!: q_CreateRefreshToken_fail tokens_of_same)
  show "store_RevokeFamily f at s = (Inl e, s') \<Longrightarrow> tokens_of s' = tokens_of s"
    unfolding store_RevokeFamily_def by (rule tokens_of_same [OF q_Revoke_fail(1)])
  show "store_RevokeAllForUser u at s = (Inl e, s') \<Longrightarrow> tokens_of s' = tokens_of s"
    unfolding store_RevokeAllForUser_def by (rule tokens_of_same [OF q_Revoke_fail(2)])
qed

lemma store_token_ok:
  assumes "pg_ok s"
  shows "pg_ok (snd (store_CreateToken t s))" "pg_ok (snd (store_FindByHash h s))"
    "pg_ok (snd (store_RevokeFamily f at s))" "pg_ok (snd (store_RevokeAllForUser u at s))"
proof -
  show "pg_ok (snd (store_CreateToken t s))"
    using q_CreateRefreshToken_ok [OF assms tokenParams_range [of t], of Pool]
    by (auto simp: store_CreateToken_def split: op_splits)
  show "pg_ok (snd (store_FindByHash h s))"
    using q_selects_ok(4) [OF assms, of Pool h]
    by (auto simp: store_FindByHash_def split: op_splits)
  show "pg_ok (snd (store_RevokeFamily f at s))" "pg_ok (snd (store_RevokeAllForUser u at s))"
    unfolding store_RevokeFamily_def store_RevokeAllForUser_def
    by (rule q_RevokeFamily_ok [OF assms], rule q_RevokeAll_ok [OF assms])
qed

lemma tokens_of_id_unique:
  assumes "pg_ok s" and "tokens_of s h = Some t" and "tokens_of s h' = Some t'"
    and "same_key (tk_ID t) (tk_ID t')"
  shows "h = h'"
proof -
  obtain r r' where r: "token_table s h = Some r" "token_table s h' = Some r'"
      "t = refreshFromDB r" "t' = refreshFromDB r'"
    using assms(2,3) by (auto simp: tokens_of_def)
  have "tr_ID r = tr_ID r'"
    using assms(4) token_row_range [OF assms(1)] table_of_Some [OF r(1)] table_of_Some [OF r(2)]
    by (simp add: r(3,4) same_key_def toInt64_of_row)
  moreover have "inj_on tr_ID (set (pg_tokens s))"
    using pg_okD(3) [OF assms(1)] by (simp add: key_ok_def distinct_map)
  ultimately have "r = r'"
    using table_of_Some [OF r(1)] table_of_Some [OF r(2)] by (auto dest: inj_onD)
  then show ?thesis using table_of_Some [OF r(1)] table_of_Some [OF r(2)] by simp
qed

lemma same_key_equiv:
  "same_key i i" "same_key i j \<Longrightarrow> same_key j i" "same_key i j \<Longrightarrow> same_key j k \<Longrightarrow> same_key i k"
  by (simp_all add: same_key_def)

lemma store_find_missing:
  assumes "pg_ok s" and "store_FindByHash h s = (Inl e, s')" and "errors_is e ErrNotFound"
  shows "tokens_of s h = None"
  using assms(2,3) q_GetRefreshTokenByHash_missing [OF assms(1)]
  by (auto simp: store_FindByHash_def tokens_of_def IsNotFound_def split: op_splits)

text \<open>A rotation reports a lost race only when the old token is indeed no longer active.\<close>

lemma store_rotate_lost:
  assumes "pg_ok s" and "store_RotateAtomically i at t s = (Inl e, s')"
    and "errors_is e ErrRefreshAlreadyConsumed"
    and "tokens_of s h = Some t'" and "same_key (tk_ID t') i"
  shows "\<not> tk_active t'"
proof -
  have nofault: "\<not> fault_ok e" using assms(3) by (auto simp: fault_ok_def)
  obtain b s0 where b: "pg_begin s = (b, s0)" by (cases "pg_begin s")
  with nofault rotation_error(1) [OF assms(1)] assms(2) obtain tx where tx: "b = Inr tx"
    by (cases b) (auto simp: store_RotateAtomically_def)
  have s0: "pg_ok s0" "same_tables s s0"
    using q_selects_ok(5) [OF assms(1)] pg_begin_same [of s] b by auto
  obtain c s1 where c: "q_ConsumeRefreshTokenIfActive tx (toInt64 i) at s0 = (c, s1)"
    by (cases "q_ConsumeRefreshTokenIfActive tx (toInt64 i) at s0")
  with nofault rotation_error(3) [OF s0(1)] assms(2) b tx obtain n where n: "c = Inr n"
    by (cases c) (auto simp: store_RotateAtomically_def)
  have s1: "pg_ok s1" using q_Consume_ok [OF s0(1), of tx "toInt64 i" at] c by simp
  have "n \<noteq> 1"
  proof
    assume "n = 1"
    obtain r s2 where r: "q_CreateRefreshToken tx (tokenParams t) s1 = (r, s2)"
      by (cases "q_CreateRefreshToken tx (tokenParams t) s1")
    obtain k s3 where k: "pg_commit s2 = (k, s3)" by (cases "pg_commit s2")
    have "pg_ok s2" using q_CreateRefreshToken_ok [OF s1 tokenParams_range, of tx t] r by simp
    with \<open>n = 1\<close> nofault rotation_error(2) q_CreateRefreshToken_error [OF s1] assms(2,3) b tx c n r k
    show False by (cases r; cases k) (auto simp: store_RotateAtomically_def)
  qed
  then have inactive: "\<not> token_active r"
    if "r \<in> set (pg_tokens s0)" "tr_ID r = toInt64 i" for r
    using q_Consume_done(4) [OF s0(1)] c n that by auto
  obtain r where r: "token_table s h = Some r" "t' = refreshFromDB r"
    using assms(4) by (auto simp: tokens_of_def)
  then have "r \<in> set (pg_tokens s0)" "tr_ID r = toInt64 i"
    using table_of_Some [OF r(1)] s0(2) assms(5) token_row_range [OF assms(1)]
    by (auto simp: same_tables_def same_key_def toInt64_of_row)
  with inactive show ?thesis by (auto simp: r(2) tk_active_def token_active_def)
qed

interpretation sqlc_tokens: refresh_persistence SQLCRefreshTokenStore tokens_of same_key pg_ok
  by unfold_locales
    (simp_all only: SQLCRefreshTokenStore_def RefreshTokenPersistence.simps,
     (erule store_token_ok store_rotate_ok store_token_fails store_token_create store_find_found
        tokens_of_same [OF store_rotate_fail] same_key_equiv(2)
      | rule tokens_of_same [OF store_find_same] same_key_equiv(1)
      | erule (1) store_rotate_done store_revoke_family_done store_revoke_user_done
          same_key_equiv(3)
      | erule (2) store_find_missing
      | erule (4) store_rotate_lost
      | erule (3) tokens_of_id_unique)+)

section \<open>Users and tokens together\<close>

lemma q_keep_tokens: "pg_tokens (snd (q_CreateUser db arg s)) = pg_tokens s"
  unfolding q_CreateUser_def by (rule pg_exec_rule) (simp_all add: Let_def)

lemma q_keep_users:
  "pg_users (snd (q_CreateRefreshToken db t s)) = pg_users s"
  "pg_users (snd (q_ConsumeRefreshTokenIfActive db i at s)) = pg_users s"
  "pg_users (snd (q_RevokeRefreshFamily db f at s)) = pg_users s"
  "pg_users (snd (q_RevokeAllRefreshForUser db u at s)) = pg_users s"
  unfolding q_CreateRefreshToken_def q_ConsumeRefreshTokenIfActive_def q_RevokeRefreshFamily_def
    q_RevokeAllRefreshForUser_def
  by (rule pg_exec_rule; simp add: Let_def)+

lemma store_CreateUser_tokens: "tokens_of (snd (store_CreateUser u s)) = tokens_of s"
  using q_keep_tokens [of Pool "\<lparr>cup_Username = u_Username u, cup_Password = u_Password u,
      cup_Role = u_Role u\<rparr>" s]
  by (intro tokens_of_table) (auto simp: store_CreateUser_def split: op_splits)

lemma store_tokens_users:
  "users_of (snd (store_CreateToken t s)) = users_of s"
  "users_of (snd (store_RevokeFamily f at s)) = users_of s"
  "users_of (snd (store_RevokeAllForUser u at s)) = users_of s"
  using q_keep_users(1) [of Pool "tokenParams t" s] q_keep_users(3,4)
  by (auto intro!: users_of_table simp: store_CreateToken_def store_RevokeFamily_def
      store_RevokeAllForUser_def split: op_splits)

lemma store_rotate_users: "users_of (snd (store_RotateAtomically i at t s)) = users_of s"
proof (cases rule: store_rotate_cases [of i at t s])
  case (failed e s0 s1)
  then have "same_tables s s1"
    using pg_begin_same [of s] by (auto simp: same_tables_def pg_rollback_def)
  with failed(1) show ?thesis by (simp add: users_of_same)
next
  case (committed tx s0 s1 row s2 s3)
  have "pg_users s1 = pg_users s0" "pg_users s2 = pg_users s1"
    using q_keep_users(2) [of tx "toInt64 i" at s0] committed(3)
      q_keep_users(1) [of tx "tokenParams t" s1] committed(4) by auto
  moreover have "pg_users s3 = pg_users s2" "pg_users s0 = pg_users s"
    using pg_commit_same [of s2] pg_begin_same [of s] committed(2,5) by (auto simp: same_tables_def)
  ultimately show ?thesis using committed(1) by (intro users_of_table) simp
qed

interpretation sqlc_auth:
  auth_persistence SQLCUserStore users_of pg_ok SQLCRefreshTokenStore tokens_of same_key
  by unfold_locales
    (simp_all add: SQLCRefreshTokenStore_def SQLCUserStore_def store_CreateUser_tokens
      store_tokens_users store_rotate_users tokens_of_same [OF store_user_reads(1)]
      tokens_of_same [OF store_user_reads(2)] users_of_same [OF store_find_same])

end
