(* ===== verification/Router.thy ===== *)
theory Router
  imports API_Users Rate_Limit Observability Book_Store Token_Store
begin

text \<open>
  The composition root of the HTTP layer (\<open>pkg/api/router.go\<close>, \<open>pkg/api/probes.go\<close>): which
  middlewares wrap which handler, the trusted proxies, the probes. \<open>NewRouter\<close> builds an
  \<open>engine\<close> from the environment at start-up, or panics; \<open>ServeHTTP\<close> dispatches a request by
  its method and the path pattern gin matched, as gin does. The libraries behind it are the
  fields of \<open>libs\<close>.
\<close>

record ('r, 'p) libs =
  lb_crypto :: crypto_lib
  lb_json :: json_lib
  lb_binders :: binders
  lb_lower :: "string \<Rightarrow> string"
  lb_otel :: "gin_ctx \<Rightarrow> (string \<times> string) option"
  lb_SetTrustedProxies :: "string list \<Rightarrow> go_error option"
  lb_ReleaseMode :: bool
  lb_Security :: "(pg, 'r, 'p) middleware"
  lb_Xss :: "(pg, 'r, 'p) middleware"
  lb_Cors :: "(pg, 'r, 'p) middleware"
  lb_Swagger :: "(pg, 'r, 'p) handler"
  lb_promhttp :: "(pg, 'r, 'p) handler"

record ('r, 'p) route =
  ro_Method :: string
  ro_Path :: string
  ro_Handler :: "(pg, 'r, 'p) handler"

record ('r, 'p) engine =
  en_TrustedProxies :: "string list"
  en_Use :: "(pg, 'r, 'p) middleware list"
  en_Routes :: "('r, 'p) route list"

section \<open>Configuration\<close>

text \<open>The proxies to trust; the empty list is \<open>SetTrustedProxies(nil)\<close>.\<close>

definition trustedProxyList :: "go_rt \<Rightarrow> string list" where
  "trustedProxyList rt =
     (let raw = TrimSpace (rt_env rt ''GIN_TRUSTED_PROXIES'')
      in if raw = '''' then []
         else filter (\<lambda>s. s \<noteq> '''') (map TrimSpace (split_on (CHR '','') raw)))"

definition configureTrustedProxies ::
  "('r, 'p) libs \<Rightarrow> go_rt \<Rightarrow> ('r, 'p) engine \<Rightarrow> go_error + ('r, 'p) engine" where
  "configureTrustedProxies lb rt r =
     (case lb_SetTrustedProxies lb (trustedProxyList rt) of
        Some e \<Rightarrow> Inl e
      | None \<Rightarrow> Inr (r\<lparr>en_TrustedProxies := trustedProxyList rt\<rparr>))"

definition maxRequestBodyBytesFromEnv :: "go_rt \<Rightarrow> go_error + int" where
  "maxRequestBodyBytesFromEnv rt =
     (let s = TrimSpace (rt_env rt ''REQUEST_MAX_BODY_BYTES'')
      in if s = '''' then Inr DefaultMaxRequestBodyBytes
         else case ParseInt s of
                None \<Rightarrow> Inl (ErrText (''api: REQUEST_MAX_BODY_BYTES must be a positive integer (bytes): '' @ s))
              | Some n \<Rightarrow>
                  if n \<le> 0
                  then Inl (ErrText (''api: REQUEST_MAX_BODY_BYTES must be a positive integer (bytes): '' @ s))
                  else Inr n)"

section \<open>Probes\<close>

text \<open>
  The dependencies as the probe sees them: not configured, or the answer to a ping. A cache
  client may be of a type that has no \<open>Ping\<close>; a collection's client may be nil.
\<close>

definition pingPostgres :: "go_error option option \<Rightarrow> go_error option" where
  "pingPostgres db = (case db of None \<Rightarrow> Some (ErrText ''database not configured'') | Some ping \<Rightarrow> ping)"

definition pingRedis :: "go_error option option option \<Rightarrow> go_error option" where
  "pingRedis c =
     (case c of
        None \<Rightarrow> Some (ErrText ''redis not configured'')
      | Some p \<Rightarrow>
          (case p of
             None \<Rightarrow> Some (ErrText ''redis client type does not support ping'')
           | Some ping \<Rightarrow> ping))"

definition pingMongo :: "go_error option option option \<Rightarrow> go_error option" where
  "pingMongo col =
     (case col of
        None \<Rightarrow> Some (ErrText ''mongo collection not configured'')
      | Some client \<Rightarrow>
          (case client of
             None \<Rightarrow> Some (ErrText ''mongo client nil'')
           | Some ping \<Rightarrow> ping))"

record pings =
  pi_db :: "go_error option option"
  pi_redis :: "go_error option option option"
  pi_mongo :: "go_error option option option"

definition livez :: "('s, 'r, 'p) handler" where
  "livez c w = (set_status 200 c, w)"

definition readyzHandler :: "pings \<Rightarrow> ('s, 'r, 'p) handler" where
  "readyzHandler pi c w =
     (case pingPostgres (pi_db pi) of
        Some err \<Rightarrow> (respond 503 (TextBody (''postgres: '' @ error_text err)) c, w)
      | None \<Rightarrow>
          (case pingRedis (pi_redis pi) of
             Some err \<Rightarrow> (respond 503 (TextBody (''redis: '' @ error_text err)) c, w)
           | None \<Rightarrow>
               (case pingMongo (pi_mongo pi) of
                  Some err \<Rightarrow> (respond 503 (TextBody (''mongo: '' @ error_text err)) c, w)
                | None \<Rightarrow> (set_status 200 c, w))))"

text \<open>A handler registered on the engine runs inside the middlewares in use at that point.\<close>

definition handle ::
  "string \<Rightarrow> string \<Rightarrow> (pg, 'r, 'p) middleware list \<Rightarrow> (pg, 'r, 'p) handler \<Rightarrow>
     ('r, 'p) engine \<Rightarrow> ('r, 'p) engine" where
  "handle method path mws h r =
     r\<lparr>en_Routes := en_Routes r @
         [\<lparr>ro_Method = method, ro_Path = path, ro_Handler = chain (en_Use r @ mws) h\<rparr>]\<rparr>"

definition registerProbeRoutes :: "pings \<Rightarrow> ('r, 'p) engine \<Rightarrow> ('r, 'p) engine" where
  "registerProbeRoutes pi r =
     (let r = handle ''GET'' ''/livez'' [] livez r
      in handle ''GET'' ''/readyz'' [] (readyzHandler pi) r)"

definition metrics_Mount :: "('r, 'p) libs \<Rightarrow> Metrics option \<Rightarrow> ('r, 'p) engine \<Rightarrow> ('r, 'p) engine" where
  "metrics_Mount lb m r =
     (case m of
        None \<Rightarrow> r
      | Some ms \<Rightarrow>
          if \<not> mc_Enabled (ms_cfg ms) then r
          else handle ''GET'' (mc_Path (ms_cfg ms)) [] (metrics_Handler (lb_promhttp lb) m) r)"

definition use_middleware :: "(pg, 'r, 'p) middleware \<Rightarrow> ('r, 'p) engine \<Rightarrow> ('r, 'p) engine" where
  "use_middleware m r = r\<lparr>en_Use := en_Use r @ [m]\<rparr>"

section \<open>Routes\<close>

definition api_routes ::
  "('r, 'p) libs \<Rightarrow> (pg, 'r, 'p) TokenDenylist \<Rightarrow> (pg, 'r, 'p) BookService \<Rightarrow>
     (pg, 'r, 'p) UserService \<Rightarrow>
     (string \<times> string \<times> (pg, 'r, 'p) middleware list \<times> (pg, 'r, 'p) handler) list" where
  "api_routes lb denylist books users =
     (let jwtAuth = JWTAuth (lb_crypto lb) denylist;
          bnd = lb_binders lb;
          lib = lb_crypto lb
      in [(''GET'', ''/'', [], Healthcheck),
          (''GET'', ''/books'', [APIKeyAuth], FindBooks (lb_json lb) books),
          (''POST'', ''/books'', [APIKeyAuth, jwtAuth], h_CreateBook bnd books),
          (''GET'', ''/books/:id'', [APIKeyAuth], FindBook books),
          (''PUT'', ''/books/:id'', [APIKeyAuth, jwtAuth], UpdateBook bnd books),
          (''PATCH'', ''/books/:id'', [APIKeyAuth, jwtAuth], PatchBook bnd books),
          (''DELETE'', ''/books/:id'', [APIKeyAuth, jwtAuth], DeleteBook books),
          (''POST'', ''/login'', [APIKeyAuth], LoginHandler bnd lib users),
          (''POST'', ''/register'', [APIKeyAuth], RegisterHandler bnd lib users),
          (''POST'', ''/refresh'', [APIKeyAuth], RefreshHandler bnd lib users),
          (''POST'', ''/logout'', [APIKeyAuth, jwtAuth], LogoutHandler bnd lib users),
          (''GET'', ''/admin/me'', [APIKeyAuth, jwtAuth, RequireRole [RoleAdmin]], AdminMeHandler)])"

text \<open>
  gin panics when a method and path are registered twice, which a \<open>METRICS_PATH\<close> equal to
  another route's path leads to; the test stands at the end of the construction.
\<close>

definition NewRouter ::
  "('r, 'p) libs \<Rightarrow> pings \<Rightarrow> bool \<Rightarrow> 'r Cache option \<Rightarrow> 'p Publisher option \<Rightarrow> go_rt \<Rightarrow>
     go_error + ('r, 'p) engine" where
  "NewRouter lb pi mongoCollection redisClient publisher rt =
     (let denylist = NewTokenDenylistFromEnv redisClient rt;
          bookService = NewBookService (SQLCBookStore (lb_lower lb)) redisClient publisher;
          users = NewUserHandler SQLCUserStore (Some SQLCRefreshTokenStore) (Some denylist);
          r = \<lparr>en_TrustedProxies = [], en_Use = [], en_Routes = []\<rparr>
      in case configureTrustedProxies lb rt r of
           Inl err \<Rightarrow> Inl (Prefixed ''api: trusted proxies'' err)
         | Inr r \<Rightarrow>
             let r = registerProbeRoutes pi r;
                 metrics = Some (MetricsFromEnv rt);
                 r = metrics_Mount lb metrics r;
                 r = use_middleware (metrics_Middleware metrics) r
             in case maxRequestBodyBytesFromEnv rt of
                  Inl err \<Rightarrow> Inl err
                | Inr n \<Rightarrow>
                    let r = use_middleware (MaxRequestBody n) r;
                        r = use_middleware RequestID r;
                        r = use_middleware (Tracing (lb_otel lb)) r;
                        r = use_middleware (Logger mongoCollection) r;
                        r = (if lb_ReleaseMode lb
                             then use_middleware (lb_Xss lb) (use_middleware (lb_Security lb) r) else r);
                        r = use_middleware (lb_Cors lb) r;
                        r = use_middleware (RateLimiterFromEnv redisClient rt) r;
                        r = foldl (\<lambda>r (method, path, mws, h).
                              handle method (''/api/v1'' @ path)
                                (RequestContextTimeoutFromEnv rt # mws) h r)
                            r (api_routes lb denylist bookService users);
                        r = handle ''GET'' ''/swagger/*any'' [] (lb_Swagger lb) r
                    in if distinct (map (\<lambda>ro. (ro_Method ro, ro_Path ro)) (en_Routes r)) then Inr r
                       else Inl (ErrText ''handlers are already registered for path''))"

text \<open>
  gin's dispatch: the handlers of the route that matched, or the middlewares in use around the
  404 answer when none did (\<open>c.FullPath()\<close> is empty then).
\<close>

definition ServeHTTP :: "('r, 'p) engine \<Rightarrow> (pg, 'r, 'p) handler" where
  "ServeHTTP r c w =
     (case find (\<lambda>ro. ro_Method ro = g_Method c \<and> ro_Path ro = g_FullPath c) (en_Routes r) of
        Some ro \<Rightarrow> ro_Handler ro c w
      | None \<Rightarrow> chain (en_Use r) (\<lambda>c w. (respond 404 (TextBody ''404 page not found'') c, w)) c w)"

end
