(* ===== verification/Auth_Frame.thy ===== *)
theory Auth_Frame
  imports User_Service Token_Store
begin

text \<open>
  What the authentication service leaves alone. A relation between states of the database that
  every operation of the two persistence interfaces respects is respected by every call of the
  service; on the SQL stores it is used for the table of books, which no such call touches.
\<close>

locale auth_frame =
  fixes R :: "'s \<Rightarrow> 's \<Rightarrow> bool" and us :: "'s UserPersistence" and rf :: "'s RefreshTokenPersistence"
  assumes R_refl: "R s s" and R_trans: "R s s1 \<Longrightarrow> R s1 s2 \<Longrightarrow> R s s2"
    and R_find_name: "R s (snd (us_FindByUsername us n s))"
    and R_find_id: "R s (snd (us_FindByID us i s))"
    and R_user_create: "R s (snd (us_Create us u s))"
    and R_token_create: "R s (snd (rf_Create rf t s))"
    and R_find_hash: "R s (snd (rf_FindByHash rf h s))"
    and R_rotate: "R s (snd (rf_RotateAtomically rf i at t s))"
    and R_revoke_family: "R s (snd (rf_RevokeFamily rf f at s))"
    and R_revoke_user: "R s (snd (rf_RevokeAllForUser rf i at s))"
begin

definition reach :: "('s, 'r, 'p) world \<Rightarrow> ('s, 'r, 'p) world \<Rightarrow> bool" where
  "reach w w' \<longleftrightarrow> R (w_store w) (w_store w')"

lemma reach_refl [simp]: "reach w w"
  by (simp add: reach_def R_refl)

lemma reach_trans: "reach u v \<Longrightarrow> reach v w \<Longrightarrow> reach u w"
  using R_trans by (auto simp: reach_def)

lemma reach_only: "redis_only w w' \<Longrightarrow> reach w w'"
  by (simp add: redis_only_def reach_def R_refl)

lemma reach_rt: "rt_only w w' \<Longrightarrow> reach w w'"
  by (rule reach_only [OF rt_redis_only])

lemma reach_store:
  assumes "\<And>s. R s (snd (f s))" and "on_store f w = (x, w')" shows "reach w w'"
  using assms(1) [of "w_store w"] assms(2) by (auto simp: reach_def on_store_eq)

lemmas reach_ops = reach_store [OF R_find_name] reach_store [OF R_find_id]
  reach_store [OF R_user_create] reach_store [OF R_token_create] reach_store [OF R_find_hash]
  reach_store [OF R_rotate] reach_store [OF R_revoke_family] reach_store [OF R_revoke_user]

lemma reach_on_rt: "on_rt f w = (x, w') \<Longrightarrow> reach w w'"
  by (auto simp: reach_def R_refl on_rt_eq)

lemmas reach_steps = reach_ops reach_on_rt GenerateToken_frame [THEN reach_rt]

text \<open>Every call of a service over these stores.\<close>

definition serves :: "('s, 'r, 'p) UserService \<Rightarrow> bool" where
  "serves svc \<longleftrightarrow> uv_users svc = us \<and> uv_refresh svc = Some rf \<and> token_denylist (uv_denylist svc)"

lemma serves_simps:
  "serves svc \<Longrightarrow> uv_users svc = us" "serves svc \<Longrightarrow> uv_refresh svc = Some rf"
  by (simp_all add: serves_def)

lemma issueFamily_reach:
  assumes "serves svc" and "issueTokenPairWithFamily lib svc u fam w = (r, w')"
  shows "reach w w'"
  using assms
  by (auto simp: issueTokenPairWithFamily_def serves_simps Let_def split: prod.splits sum.splits
      dest!: reach_steps intro: reach_trans)

lemma Login_reach:
  assumes "serves svc" and "Login lib svc n pw w = (r, w')"
  shows "reach w w'"
  using assms
  by (auto simp: Login_def issueTokenPair_def serves_simps split: prod.splits sum.splits if_splits
      dest!: reach_steps issueFamily_reach [OF assms(1)] intro: reach_trans)

lemma rotate_reach:
  assumes "serves svc" and "rotateRefresh lib svc rf row now w = (r, w')"
  shows "reach w w'"
  using assms
  by (auto simp: rotateRefresh_def serves_simps Let_def split: prod.splits sum.splits if_splits
      dest!: reach_steps; meson reach_trans)

lemma Refresh_reach:
  assumes "serves svc" and "Refresh lib svc p w = (r, w')"
  shows "reach w w'"
  using assms
  by (auto simp: Refresh_def serves_simps Let_def split: prod.splits sum.splits if_splits
      dest!: reach_steps rotate_reach [OF assms(1)] intro: reach_trans)

lemma Register_reach:
  assumes "serves svc" and "Register lib svc n pw w = (r, w')"
  shows "reach w w'"
  using assms
  by (auto simp: Register_def serves_simps split: prod.splits sum.splits if_splits
      dest!: reach_steps intro: reach_trans)

lemma deny_reach:
  assumes "serves svc"
  shows "reach w (snd (dl_Deny (uv_denylist svc) jti until w))"
    and "reach w (snd (dl_DenyUserBefore (uv_denylist svc) uid before w))"
  using assms token_denylist.deny_frame token_denylist.deny_user_frame reach_only
  unfolding serves_def by blast+

lemma logoutTokens_reach:
  assumes "serves svc" and "logoutTokens lib svc rf uid p now w = (r, w')"
  shows "reach w w'"
  using assms
  by (auto simp: logoutTokens_def serves_simps split: prod.splits sum.splits if_splits
      dest!: reach_steps intro: reach_trans [OF _ deny_reach(2) [OF assms(1)]] reach_trans)

lemma Logout_reach:
  assumes "serves svc" and "Logout lib svc uid p jti exp w = (r, w')"
  shows "reach w w'"
  using assms
  by (auto simp: Logout_def serves_simps Let_def split: prod.splits sum.splits if_splits
      dest!: reach_on_rt logoutTokens_reach [OF assms(1)]
      intro: reach_trans [OF reach_trans deny_reach(1) [OF assms(1)]] reach_trans)

end

section \<open>The SQL stores keep the books\<close>

lemma pg_exec_books:
  assumes "\<And>t s. pg_books (snd (f t s)) = pg_books s"
  shows "pg_books (snd (pg_exec db f s)) = pg_books s"
  using assms by (auto simp: pg_exec_def Let_def split: option.splits)

lemma q_books:
  "pg_books (snd (q_GetUserByUsername db n s)) = pg_books s"
  "pg_books (snd (q_GetUserByID db i s)) = pg_books s"
  "pg_books (snd (q_CreateUser db arg s)) = pg_books s"
  "pg_books (snd (q_CreateRefreshToken db targ s)) = pg_books s"
  "pg_books (snd (q_GetRefreshTokenByHash db h s)) = pg_books s"
  "pg_books (snd (q_ConsumeRefreshTokenIfActive db i at s)) = pg_books s"
  "pg_books (snd (q_RevokeRefreshFamily db f at s)) = pg_books s"
  "pg_books (snd (q_RevokeAllRefreshForUser db i at s)) = pg_books s"
  "pg_books (snd (pg_begin s)) = pg_books s"
  "pg_books (snd (pg_commit s)) = pg_books s"
  by (auto simp: q_GetUserByUsername_def q_GetUserByID_def q_CreateUser_def q_CreateRefreshToken_def
      q_GetRefreshTokenByHash_def q_ConsumeRefreshTokenIfActive_def q_RevokeRefreshFamily_def
      q_RevokeAllRefreshForUser_def pg_begin_def pg_commit_def Let_def intro!: pg_exec_books)

lemma read_books:
  "q_GetUserByUsername db n s = (x, s') \<Longrightarrow> pg_books s' = pg_books s"
  "q_GetUserByID db i s = (x, s') \<Longrightarrow> pg_books s' = pg_books s"
  "q_CreateUser db arg s = (x, s') \<Longrightarrow> pg_books s' = pg_books s"
  using q_books(1-3) by (metis snd_conv)+

lemma token_books:
  "q_CreateRefreshToken db targ s = (y, s') \<Longrightarrow> pg_books s' = pg_books s"
  "q_GetRefreshTokenByHash db h s = (y, s') \<Longrightarrow> pg_books s' = pg_books s"
  using q_books(4,5) by (metis snd_conv)+

lemma tx_books:
  "q_ConsumeRefreshTokenIfActive db i at s = (z, s') \<Longrightarrow> pg_books s' = pg_books s"
  "pg_begin s = (b, s') \<Longrightarrow> pg_books s' = pg_books s"
  "pg_commit s = (u, s') \<Longrightarrow> pg_books s' = pg_books s"
  using q_books(6,9,10) by (metis snd_conv)+

lemma rollback_books: "pg_books (pg_rollback s0 s) = pg_books s0"
  by (simp add: pg_rollback_def)

lemma store_books:
  "pg_books (snd (store_FindByUsername n s)) = pg_books s"
  "pg_books (snd (store_FindByID i s)) = pg_books s"
  "pg_books (snd (store_CreateUser u s)) = pg_books s"
  "pg_books (snd (store_CreateToken t s)) = pg_books s"
  "pg_books (snd (store_FindByHash h s)) = pg_books s"
  "pg_books (snd (store_RotateAtomically i at t s)) = pg_books s"
  by (auto simp: store_FindByUsername_def store_FindByID_def store_CreateUser_def
      store_CreateToken_def store_FindByHash_def store_RotateAtomically_def rollback_books
      split: prod.splits sum.splits if_splits dest!: read_books token_books tx_books)

text \<open>The relation: the same books, and a well-formed database stays so.\<close>

definition same_books :: "pg \<Rightarrow> pg \<Rightarrow> bool" where
  "same_books s s' \<longleftrightarrow> pg_books s' = pg_books s \<and> (pg_ok s \<longrightarrow> pg_ok s')"

interpretation sqlc_frame: auth_frame same_books SQLCUserStore SQLCRefreshTokenStore
proof
  note tok = sqlc_tokens.tok_create_inv sqlc_tokens.tok_find_inv sqlc_tokens.rotate_inv
    sqlc_tokens.revoke_family_inv sqlc_tokens.revoke_user_inv
  note usr = sqlc_users.find_name_inv sqlc_users.find_id_inv sqlc_users.user_create_inv
  note defs = same_books_def SQLCUserStore_def SQLCRefreshTokenStore_def store_books
    store_RevokeFamily_def store_RevokeAllForUser_def q_books
  fix s s1 s2 :: pg and n h f :: string and i :: uint and u :: User and t :: RefreshToken and at :: time
  show "same_books s s" by (simp add: same_books_def)
  show "same_books s s1 \<Longrightarrow> same_books s1 s2 \<Longrightarrow> same_books s s2" by (simp add: same_books_def)
  show "same_books s (snd (us_FindByUsername SQLCUserStore n s))"
    using usr(1) [of s n] by (simp add: defs)
  show "same_books s (snd (us_FindByID SQLCUserStore i s))"
    using usr(2) [of s i] by (simp add: defs)
  show "same_books s (snd (us_Create SQLCUserStore u s))"
    using usr(3) [of s u] by (simp add: defs)
  show "same_books s (snd (rf_Create SQLCRefreshTokenStore t s))"
    using tok(1) [of s t] by (simp add: defs)
  show "same_books s (snd (rf_FindByHash SQLCRefreshTokenStore h s))"
    using tok(2) [of s h] by (simp add: defs)
  show "same_books s (snd (rf_RotateAtomically SQLCRefreshTokenStore i at t s))"
    using tok(3) [of s i at t] by (simp add: defs)
  show "same_books s (snd (rf_RevokeFamily SQLCRefreshTokenStore f at s))"
    using tok(4) [of s f at] by (simp add: defs)
  show "same_books s (snd (rf_RevokeAllForUser SQLCRefreshTokenStore i at s))"
    using tok(5) [of s i at] by (simp add: defs)
qed

end
