(* ===== verification/Router_Laws.thy ===== *)
theory Router_Laws
  imports Router Auth_Frame
begin

text \<open>
  What the composition of the middlewares guarantees. A middleware is \<open>transparent\<close> when it
  either answers the request itself, without touching the database or the events, or runs the
  rest of the chain on the same request and passes its answer on. All the engine's global
  middlewares of the service are; for the library's (CORS, the security headers, the XSS
  filter) it is the hypothesis \<open>libs_transparent\<close>. The theorems: a guarded route changes
  nothing and returns no data without the API key, a guarded mutation needs a verified token
  besides, and a book is changed or removed only by a request with its owner's token.
\<close>

section \<open>Transparent middlewares\<close>

fun carries_data :: "body \<Rightarrow> bool" where
  "carries_data NoBody \<longleftrightarrow> False"
| "carries_data (ErrorBody m) \<longleftrightarrow> False"
| "carries_data (TextBody t) \<longleftrightarrow> False"
| "carries_data (DataText t) \<longleftrightarrow> False"
| "carries_data b \<longleftrightarrow> True"

text \<open>The request as the guards and handlers read it; the query and the body may be filtered.\<close>

definition same_request :: "gin_ctx \<Rightarrow> gin_ctx \<Rightarrow> bool" where
  "same_request c c' \<longleftrightarrow> g_Method c' = g_Method c \<and> g_FullPath c' = g_FullPath c \<and>
     g_GetHeader c' = g_GetHeader c \<and> g_Param c' = g_Param c \<and> g_Body c' = g_Body c \<and>
     (\<forall>k. k \<noteq> requestIDGinKey \<longrightarrow> g_Keys c' k = g_Keys c k)"

text \<open>The database, the events and the secrets are as they were.\<close>

abbreviation quiet :: "('s, 'r, 'p) world \<Rightarrow> ('s, 'r, 'p) world \<Rightarrow> bool" where
  "quiet \<equiv> redis_only"

definition answered :: "gin_ctx \<Rightarrow> ('s, 'r, 'p) world \<Rightarrow> gin_ctx \<times> ('s, 'r, 'p) world \<Rightarrow> bool" where
  "answered c w r \<longleftrightarrow> quiet w (snd r) \<and> (carries_data (g_Body (fst r)) \<longrightarrow> carries_data (g_Body c))"

definition passed_on ::
  "('s, 'r, 'p) handler \<Rightarrow> gin_ctx \<Rightarrow> ('s, 'r, 'p) world \<Rightarrow> gin_ctx \<times> ('s, 'r, 'p) world \<Rightarrow> bool" where
  "passed_on next c w r \<longleftrightarrow>
     (\<exists>c1 w1. same_request c c1 \<and> quiet w w1 \<and> quiet (snd (next c1 w1)) (snd r) \<and>
        g_Body (fst r) = g_Body (fst (next c1 w1)))"

definition transparent :: "('s, 'r, 'p) middleware \<Rightarrow> bool" where
  "transparent m \<longleftrightarrow> (\<forall>next c w. answered c w (m next c w) \<or> passed_on next c w (m next c w))"

lemma same_request_refl [simp]: "same_request c c"
  by (simp add: same_request_def)

lemma same_request_trans: "same_request c d \<Longrightarrow> same_request d e \<Longrightarrow> same_request c e"
  by (simp add: same_request_def)

lemma passed_onI:
  "same_request c c1 \<Longrightarrow> quiet w w1 \<Longrightarrow> quiet (snd (next c1 w1)) (snd r) \<Longrightarrow>
    g_Body (fst r) = g_Body (fst (next c1 w1)) \<Longrightarrow> passed_on next c w r"
  unfolding passed_on_def by blast

lemma transparentD: "transparent m \<Longrightarrow> answered c w (m next c w) \<or> passed_on next c w (m next c w)"
  by (simp add: transparent_def)

lemma transparent_through:
  "(\<And>next c w. \<exists>c1 w1. m next c w = next c1 w1 \<and> same_request c c1 \<and> quiet w w1) \<Longrightarrow> transparent m"
  unfolding transparent_def passed_on_def by (metis redis_only_refl)

text \<open>A chain of transparent middlewares around a handler.\<close>

lemma chain_through:
  assumes "\<forall>m \<in> set ms. transparent m"
  shows "answered c w (chain (ms @ rest) h c w) \<or> passed_on (chain rest h) c w (chain (ms @ rest) h c w)"
  using assms
proof (induction ms arbitrary: c w)
  case Nil
  show ?case by (rule disjI2, rule passed_onI [of c c w w]) simp_all
next
  case (Cons m ms)
  let ?inner = "chain (ms @ rest) h" and ?out = "chain ((m # ms) @ rest) h c w"
  from Cons.prems have "transparent m" by simp
  then consider "answered c w ?out" | "passed_on ?inner c w ?out"
    using transparentD [of m c w ?inner] by auto
  then show ?case
  proof cases
    case 2
    then obtain c1 w1 where o: "same_request c c1" "quiet w w1" "quiet (snd (?inner c1 w1)) (snd ?out)"
        "g_Body (fst ?out) = g_Body (fst (?inner c1 w1))"
      unfolding passed_on_def by blast
    from Cons.IH [of c1 w1] Cons.prems consider "answered c1 w1 (?inner c1 w1)"
      | "passed_on (chain rest h) c1 w1 (?inner c1 w1)" by auto
    then show ?thesis
    proof cases
      case 1
      then have q: "quiet w1 (snd (?inner c1 w1))"
          "carries_data (g_Body (fst (?inner c1 w1))) \<longrightarrow> carries_data (g_Body c1)"
        by (simp_all add: answered_def)
      have "g_Body c1 = g_Body c" using o(1) by (simp add: same_request_def)
      with q(2) o(4) redis_only_trans [OF o(2) redis_only_trans [OF q(1) o(3)]]
      have "answered c w ?out" by (simp add: answered_def)
      then show ?thesis ..
    next
      case 2
      then obtain c2 w2 where i: "same_request c1 c2" "quiet w1 w2"
          "quiet (snd (chain rest h c2 w2)) (snd (?inner c1 w1))"
          "g_Body (fst (?inner c1 w1)) = g_Body (fst (chain rest h c2 w2))"
        unfolding passed_on_def by blast
      have "passed_on (chain rest h) c w ?out"
        by (rule passed_onI [of c c2 w w2 "chain rest h", OF same_request_trans [OF o(1) i(1)]
              redis_only_trans [OF o(2) i(2)] redis_only_trans [OF i(3) o(3)]]) (simp only: o(4) i(4))
      then show ?thesis ..
    qed
  qed simp
qed

section \<open>The global middlewares\<close>

lemma on_obs_quiet: "quiet w (on_obs f w)"
  by (simp add: redis_only_def)

lemma rt_quiet: "quiet w (snd (on_rt time_now w))"
  by (rule rt_redis_only [OF time_now_only])

lemma set_quiet: "quiet w (w\<lparr>w_windows := x\<rparr>)"
  by (simp add: redis_only_def)

lemmas quiet_steps = on_obs_quiet [THEN redis_only_trans [rotated]] rt_quiet [THEN redis_only_trans [rotated]]

lemma metrics_transparent: "transparent (metrics_Middleware m)"
  unfolding transparent_def
proof (intro allI)
  fix nxt :: "('s, 'r, 'p) handler" and c :: gin_ctx and w :: "('s, 'r, 'p) world"
  show "answered c w (metrics_Middleware m nxt c w) \<or> passed_on nxt c w (metrics_Middleware m nxt c w)"
  proof (cases "\<exists>ms. m = Some ms \<and> mc_Enabled (ms_cfg ms) \<and> \<not> shouldSkip ms c")
    case False
    then have "metrics_Middleware m nxt c w = nxt c w"
      by (auto simp: metrics_Middleware_def split: option.split)
    then show ?thesis by (auto intro: passed_onI [of c c w w])
  next
    case True
    let ?w = "snd (on_rt time_now (on_obs (inc_inFlight 1) w))"
    have q: "quiet w ?w" by (intro quiet_steps) simp
    have "passed_on nxt c w (metrics_Middleware m nxt c w)"
      by (rule passed_onI [of c c w ?w, OF same_request_refl q])
        (use True in \<open>auto simp: metrics_Middleware_def Let_def case_prod_unfold intro!: quiet_steps\<close>)
    then show ?thesis ..
  qed
qed

lemma MaxRequestBody_transparent: "transparent (MaxRequestBody n)"
  unfolding transparent_def
proof (intro allI)
  fix nxt :: "('s, 'r, 'p) handler" and c :: gin_ctx and w :: "('s, 'r, 'p) world"
  let ?n = "if n \<le> 0 then DefaultMaxRequestBodyBytes else n"
  consider "MaxRequestBody n nxt c w = nxt c w"
    | "MaxRequestBody n nxt c w = (AbortWithStatus 413 c, w)"
    | "MaxRequestBody n nxt c w = nxt (c\<lparr>g_MaxBytes := Some ?n\<rparr>) w"
    unfolding MaxRequestBody_def Let_def by argo
  then show "answered c w (MaxRequestBody n nxt c w) \<or> passed_on nxt c w (MaxRequestBody n nxt c w)"
  proof cases
    case 1
    then show ?thesis by (auto intro: passed_onI [of c c w w])
  next
    case 2
    then show ?thesis by (simp add: answered_def AbortWithStatus_def)
  next
    case 3
    then show ?thesis
      by (auto intro: passed_onI [of c "c\<lparr>g_MaxBytes := Some ?n\<rparr>" w w] simp: same_request_def)
  qed
qed

lemma newRequestID_only: "rt_only w (snd (on_rt newRequestID w))"
  by (rule on_rt_only) (auto simp: newRequestID_def Let_def rand_read_def time_now_def split: option.splits)

lemma RequestID_transparent: "transparent RequestID"
proof (rule transparent_through)
  fix nxt :: "('s, 'r, 'p) handler" and c :: gin_ctx and w :: "('s, 'r, 'p) world"
  let ?h = "TrimSpace (g_GetHeader c RequestIDHeader)"
  let ?rw = "if ?h = '''' then on_rt newRequestID w else (?h, w)"
  let ?rid = "if fst ?rw = '''' then ''unknown'' else fst ?rw"
  let ?c = "(set_header RequestIDHeader ?rid (set_key requestIDGinKey (VStr ?rid) c))
    \<lparr>g_CtxRequestID := Some ?rid\<rparr>"
  have "RequestID nxt c w = nxt ?c (snd ?rw)"
    by (simp add: RequestID_def Let_def split: prod.splits)
  moreover have "same_request c ?c" by (simp add: same_request_def set_header_def set_key_def)
  moreover have "quiet w (snd ?rw)" using rt_redis_only [OF newRequestID_only [of w]] by simp
  ultimately show "\<exists>c1 w1. RequestID nxt c w = nxt c1 w1 \<and> same_request c c1 \<and> quiet w w1" by blast
qed

lemma Tracing_transparent: "transparent (Tracing otel)"
  unfolding transparent_def
proof (intro allI disjI2)
  fix nxt :: "('s, 'r, 'p) handler" and c :: gin_ctx and w :: "('s, 'r, 'p) world"
  show "passed_on nxt c w (Tracing otel nxt c w)"
    by (rule passed_onI [of c "c\<lparr>g_CtxSpan := otel c\<rparr>" w w])
      (simp_all add: same_request_def Tracing_def Let_def case_prod_unfold on_obs_quiet)
qed

lemma Logger_transparent: "transparent (Logger collection)"
  unfolding transparent_def
proof (intro allI disjI2)
  fix nxt :: "('s, 'r, 'p) handler" and c :: gin_ctx and w :: "('s, 'r, 'p) world"
  show "passed_on nxt c w (Logger collection nxt c w)"
    by (rule passed_onI [of c c w "snd (on_rt time_now w)", OF same_request_refl rt_quiet])
      (auto simp: Logger_def Let_def case_prod_unfold intro!: quiet_steps)
qed

lemma RequestContextTimeout_transparent: "transparent (RequestContextTimeout d)"
proof (rule transparent_through)
  fix nxt :: "('s, 'r, 'p) handler" and c :: gin_ctx and w :: "('s, 'r, 'p) world"
  show "\<exists>c1 w1. RequestContextTimeout d nxt c w = nxt c1 w1 \<and> same_request c c1 \<and> quiet w w1"
    by (rule exI [where x = "if d \<le> 0 then c else c\<lparr>g_Timeout := Some d\<rparr>"], rule exI [where x = w])
      (simp add: RequestContextTimeout_def same_request_def)
qed

lemma redis_Allow_quiet: "quiet w (snd (redis_Allow cache ce k limit window w))"
  by (auto simp: redis_Allow_def Let_def on_redis_eq redis_only_def
      split: option.splits sum.splits prod.splits)

lemma memory_Allow_quiet: "quiet w (snd (memory_Allow ce k limit window w))"
proof (cases ce)
  case None
  obtain n r where "tick (mem_clock w) window (w_windows w k) = (n, r)"
    by (cases "tick (mem_clock w) window (w_windows w k)")
  with None show ?thesis
    by (simp add: memory_Allow_eq Let_def redis_only_def on_rt_eq time_now_def)
qed (simp add: memory_Allow_def)

lemma limiter_transparent:
  fixes store :: "('s, 'r, 'p) RateLimitStore option"
  assumes "\<And>rl ce k n d w. store = Some rl \<Longrightarrow> quiet w (snd (rl_Allow rl ce k n d w))"
  shows "transparent (ClientRateLimiter store cfg)"
  unfolding transparent_def
proof (intro allI)
  fix nxt :: "('s, 'r, 'p) handler" and c :: gin_ctx and w :: "('s, 'r, 'p) world"
  let ?out = "ClientRateLimiter store cfg nxt c w"
  show "answered c w ?out \<or> passed_on nxt c w ?out"
  proof (cases "\<exists>rl. store = Some rl \<and> rc_Enabled cfg")
    case False
    then have "?out = nxt c w" by (auto simp: ClientRateLimiter_def split: option.split)
    then show ?thesis by (auto intro: passed_onI [of c c w w])
  next
    case True
    then obtain rl where rl: "store = Some rl" "rc_Enabled cfg" by blast
    let ?run = "rl_Allow rl (g_CtxErr c) (clientRateLimitKey c)
      (if rc_Requests cfg \<le> 0 then DefaultRateLimitRequests else rc_Requests cfg)
      (if rc_Window cfg \<le> 0 then DefaultRateLimitWindow else rc_Window cfg) w"
    obtain x w1 where run: "?run = (x, w1)" by (cases ?run)
    have q: "quiet w w1" using assms [OF rl(1), of w] run by (metis snd_conv)
    show ?thesis
    proof (cases x)
      case (Inl e)
      with run rl q show ?thesis
        by (simp add: ClientRateLimiter_def Let_def answered_def httperr_Abort_def respond_def)
    next
      case (Inr ar)
      obtain allowed rem where ar: "ar = (allowed, rem)" by (cases ar)
      show ?thesis
      proof (cases allowed)
        case False
        with run rl q Inr ar show ?thesis
          by (simp add: ClientRateLimiter_def Let_def answered_def httperr_Abort_def respond_def)
      next
        case True
        with run rl q Inr ar show ?thesis
          by (intro disjI2, intro passed_onI [of c _ w w1])
            (simp_all add: ClientRateLimiter_def Let_def same_request_def set_header_def)
      qed
    qed
  qed
qed

lemma RateLimiterFromEnv_transparent: "transparent (RateLimiterFromEnv cache rt)"
  unfolding RateLimiterFromEnv_def Let_def
  by (rule limiter_transparent)
    (auto simp: rateLimitStoreFor_def NewMemoryRateLimitStore_def NewRedisRateLimitStore_def
      redis_Allow_quiet memory_Allow_quiet split: if_splits)

section \<open>The engine\<close>

definition libs_transparent :: "('r, 'p) libs \<Rightarrow> bool" where
  "libs_transparent lb \<longleftrightarrow>
     transparent (lb_Security lb) \<and> transparent (lb_Xss lb) \<and> transparent (lb_Cors lb)"

text \<open>The services and the routes \<open>NewRouter\<close> assembles.\<close>

definition router_books ::
  "('r, 'p) libs \<Rightarrow> 'r Cache option \<Rightarrow> 'p Publisher option \<Rightarrow> (pg, 'r, 'p) BookService" where
  "router_books lb redis publisher = NewBookService (SQLCBookStore (lb_lower lb)) redis publisher"

definition router_users :: "'r Cache option \<Rightarrow> go_rt \<Rightarrow> (pg, 'r, 'p) UserService" where
  "router_users redis rt =
     NewUserHandler SQLCUserStore (Some SQLCRefreshTokenStore) (Some (NewTokenDenylistFromEnv redis rt))"

definition router_routes ::
  "('r, 'p) libs \<Rightarrow> 'r Cache option \<Rightarrow> 'p Publisher option \<Rightarrow> go_rt \<Rightarrow>
     (string \<times> string \<times> (pg, 'r, 'p) middleware list \<times> (pg, 'r, 'p) handler) list" where
  "router_routes lb redis publisher rt =
     api_routes lb (NewTokenDenylistFromEnv redis rt) (router_books lb redis publisher)
       (router_users redis rt)"

definition add_route ::
  "go_rt \<Rightarrow> ('r, 'p) engine \<Rightarrow> string \<times> string \<times> (pg, 'r, 'p) middleware list \<times> (pg, 'r, 'p) handler \<Rightarrow>
     ('r, 'p) engine" where
  "add_route rt r = (\<lambda>(method, path, mws, h).
     handle method (''/api/v1'' @ path) (RequestContextTimeoutFromEnv rt # mws) h r)"

lemma add_routes:
  "en_Use (foldl (add_route rt) r xs) = en_Use r \<and>
   en_Routes (foldl (add_route rt) r xs) = en_Routes r @
     map (\<lambda>(m, p, mws, h). \<lparr>ro_Method = m, ro_Path = ''/api/v1'' @ p,
       ro_Handler = chain (en_Use r @ RequestContextTimeoutFromEnv rt # mws) h\<rparr>) xs"
proof (induction xs arbitrary: r)
  case (Cons x xs)
  obtain m p mws h where x: "x = (m, p, mws, h)" by (cases x)
  show ?case using Cons.IH [of "add_route rt r x"] by (simp add: x add_route_def handle_def)
qed simp

lemma configured:
  "configureTrustedProxies lb rt r = Inr r' \<Longrightarrow> en_Use r' = en_Use r \<and> en_Routes r' = en_Routes r"
  by (auto simp: configureTrustedProxies_def split: option.splits)

text \<open>The middlewares of the engine, and the method and path of every route.\<close>

definition router_use ::
  "('r, 'p) libs \<Rightarrow> bool \<Rightarrow> 'r Cache option \<Rightarrow> go_rt \<Rightarrow> int \<Rightarrow> (pg, 'r, 'p) middleware list" where
  "router_use lb mongo redis rt n =
     [metrics_Middleware (Some (MetricsFromEnv rt)), MaxRequestBody n, RequestID,
      Tracing (lb_otel lb), Logger mongo] @
     (if lb_ReleaseMode lb then [lb_Security lb, lb_Xss lb] else []) @
     [lb_Cors lb, RateLimiterFromEnv redis rt]"

definition router_paths :: "go_rt \<Rightarrow> (string \<times> string) list" where
  "router_paths rt =
     [(''GET'', ''/livez''), (''GET'', ''/readyz'')] @
     (if mc_Enabled (ms_cfg (MetricsFromEnv rt))
      then [(''GET'', mc_Path (ms_cfg (MetricsFromEnv rt)))] else []) @
     [(''GET'', ''/api/v1/''), (''GET'', ''/api/v1/books''), (''POST'', ''/api/v1/books''),
      (''GET'', ''/api/v1/books/:id''), (''PUT'', ''/api/v1/books/:id''),
      (''PATCH'', ''/api/v1/books/:id''), (''DELETE'', ''/api/v1/books/:id''),
      (''POST'', ''/api/v1/login''), (''POST'', ''/api/v1/register''), (''POST'', ''/api/v1/refresh''),
      (''POST'', ''/api/v1/logout''), (''GET'', ''/api/v1/admin/me''), (''GET'', ''/swagger/*any'')]"

lemma router_use_transparent:
  "libs_transparent lb \<Longrightarrow> \<forall>m \<in> set (router_use lb mongo redis rt n). transparent m"
  by (auto simp: router_use_def libs_transparent_def metrics_transparent MaxRequestBody_transparent
      RequestID_transparent Tracing_transparent Logger_transparent RateLimiterFromEnv_transparent)

lemma NewRouter_built:
  assumes r0: "configureTrustedProxies lb rt \<lparr>en_TrustedProxies = [], en_Use = [], en_Routes = []\<rparr> = Inr r0"
    and n: "maxRequestBodyBytesFromEnv rt = Inr n"
  obtains r1 r2 where "NewRouter lb pi mongo redis publisher rt =
      (if distinct (router_paths rt) then Inr r2
       else Inl (ErrText ''handlers are already registered for path''))"
    "en_Use r1 = router_use lb mongo redis rt n"
    "r2 = handle ''GET'' ''/swagger/*any'' [] (lb_Swagger lb)
       (foldl (add_route rt) r1 (router_routes lb redis publisher rt))"
    "map (\<lambda>ro. (ro_Method ro, ro_Path ro)) (en_Routes r2) = router_paths rt"
proof -
  define ra where "ra = metrics_Mount lb (Some (MetricsFromEnv rt)) (registerProbeRoutes pi r0)"
  define rb where "rb = use_middleware (Logger mongo) (use_middleware (Tracing (lb_otel lb))
    (use_middleware RequestID (use_middleware (MaxRequestBody n)
      (use_middleware (metrics_Middleware (Some (MetricsFromEnv rt))) ra))))"
  define r1 where "r1 = use_middleware (RateLimiterFromEnv redis rt) (use_middleware (lb_Cors lb)
    (if lb_ReleaseMode lb then use_middleware (lb_Xss lb) (use_middleware (lb_Security lb) rb) else rb))"
  define r2 where "r2 = handle ''GET'' ''/swagger/*any'' [] (lb_Swagger lb)
    (foldl (add_route rt) r1 (router_routes lb redis publisher rt))"
  have ra: "en_Use ra = []" "map (\<lambda>ro. (ro_Method ro, ro_Path ro)) (en_Routes ra) =
      [(''GET'', ''/livez''), (''GET'', ''/readyz'')] @
      (if mc_Enabled (ms_cfg (MetricsFromEnv rt))
       then [(''GET'', mc_Path (ms_cfg (MetricsFromEnv rt)))] else [])"
    using configured [OF r0]
    by (simp_all add: ra_def metrics_Mount_def registerProbeRoutes_def handle_def split: option.split)
  then have r1: "en_Use r1 = router_use lb mongo redis rt n" "en_Routes r1 = en_Routes ra"
    by (simp_all add: r1_def rb_def use_middleware_def router_use_def)
  have api: "map (\<lambda>(m, p, mws, h). (m, ''/api/v1'' @ p)) (router_routes lb redis publisher rt) =
     [(''GET'', ''/api/v1/''), (''GET'', ''/api/v1/books''), (''POST'', ''/api/v1/books''),
      (''GET'', ''/api/v1/books/:id''), (''PUT'', ''/api/v1/books/:id''),
      (''PATCH'', ''/api/v1/books/:id''), (''DELETE'', ''/api/v1/books/:id''),
      (''POST'', ''/api/v1/login''), (''POST'', ''/api/v1/register''), (''POST'', ''/api/v1/refresh''),
      (''POST'', ''/api/v1/logout''), (''GET'', ''/api/v1/admin/me'')]"
    by (simp add: router_routes_def api_routes_def Let_def)
  have "map (\<lambda>ro. (ro_Method ro, ro_Path ro)) (en_Routes (foldl (add_route rt) r1
        (router_routes lb redis publisher rt))) = map (\<lambda>ro. (ro_Method ro, ro_Path ro)) (en_Routes ra) @
      map (\<lambda>(m, p, mws, h). (m, ''/api/v1'' @ p)) (router_routes lb redis publisher rt)"
    using add_routes [of rt r1 "router_routes lb redis publisher rt"] r1(2) by (auto simp: comp_def)
  then have paths: "map (\<lambda>ro. (ro_Method ro, ro_Path ro)) (en_Routes r2) = router_paths rt"
    unfolding r2_def handle_def router_paths_def ra(2) api by simp
  have new: "NewRouter lb pi mongo redis publisher rt =
      (if distinct (map (\<lambda>ro. (ro_Method ro, ro_Path ro)) (en_Routes r2)) then Inr r2
       else Inl (ErrText ''handlers are already registered for path''))"
    unfolding NewRouter_def Let_def r0 n sum.case r2_def r1_def rb_def ra_def router_routes_def
      router_books_def router_users_def add_route_def ..
  show thesis by (rule that [OF new [unfolded paths] r1(1) r2_def paths])
qed

lemma NewRouter_ok:
  assumes "lb_SetTrustedProxies lb (trustedProxyList rt) = None"
    and "maxRequestBodyBytesFromEnv rt = Inr n" and "distinct (router_paths rt)"
  shows "\<exists>r. NewRouter lb pi mongo redis publisher rt = Inr r"
proof -
  obtain r0 where "configureTrustedProxies lb rt
      \<lparr>en_TrustedProxies = [], en_Use = [], en_Routes = []\<rparr> = Inr r0"
    using assms(1) by (simp add: configureTrustedProxies_def)
  from NewRouter_built [OF this assms(2), of pi mongo redis publisher] assms(3) show ?thesis by auto
qed

text \<open>A request on a route of the API runs the middlewares in use, the route's own, and its handler.\<close>

lemma ServeHTTP_runs:
  assumes r: "NewRouter lb pi mongo redis publisher rt = Inr r"
    and route: "(g_Method c, p, mws, h) \<in> set (router_routes lb redis publisher rt)"
    and path: "g_FullPath c = ''/api/v1'' @ p"
  obtains n where "maxRequestBodyBytesFromEnv rt = Inr n"
    "ServeHTTP r c w =
       chain (router_use lb mongo redis rt n @ RequestContextTimeoutFromEnv rt # mws) h c w"
proof -
  from r obtain r0 n where r0: "configureTrustedProxies lb rt
        \<lparr>en_TrustedProxies = [], en_Use = [], en_Routes = []\<rparr> = Inr r0"
      "maxRequestBodyBytesFromEnv rt = Inr n"
    by (auto simp: NewRouter_def Let_def split: sum.splits)
  obtain r1 r2 where built: "NewRouter lb pi mongo redis publisher rt =
      (if distinct (router_paths rt) then Inr r2
       else Inl (ErrText ''handlers are already registered for path''))"
    "en_Use r1 = router_use lb mongo redis rt n"
    "r2 = handle ''GET'' ''/swagger/*any'' [] (lb_Swagger lb)
       (foldl (add_route rt) r1 (router_routes lb redis publisher rt))"
    "map (\<lambda>ro. (ro_Method ro, ro_Path ro)) (en_Routes r2) = router_paths rt"
    by (rule NewRouter_built [OF r0, of pi mongo redis publisher])
  from r built(1) have r2: "r = r2" "distinct (router_paths rt)" by (simp_all split: if_splits)
  let ?mws = "router_use lb mongo redis rt n @ RequestContextTimeoutFromEnv rt # mws"
  let ?ro = "\<lparr>ro_Method = g_Method c, ro_Path = g_FullPath c, ro_Handler = chain ?mws h\<rparr>"
  have "?ro \<in> set (en_Routes r)"
    using add_routes [of rt r1 "router_routes lb redis publisher rt"] route path
    by (force simp: r2(1) built(2,3) handle_def image_iff)
  from sql_first_key [OF _ this refl, of "\<lambda>ro. (ro_Method ro, ro_Path ro)"] r2 built(4)
  have "find (\<lambda>ro. ro_Method ro = g_Method c \<and> ro_Path ro = g_FullPath c) (en_Routes r) = Some ?ro"
    by (simp add: sql_first_def)
  then have "ServeHTTP r c w = chain ?mws h c w" by (simp add: ServeHTTP_def)
  with r0(2) show thesis by (rule that)
qed

lemma ServeHTTP_route:
  assumes r: "NewRouter lb pi mongo redis publisher rt = Inr r" and libs: "libs_transparent lb"
    and route: "(g_Method c, p, mws, h) \<in> set (router_routes lb redis publisher rt)"
    and path: "g_FullPath c = ''/api/v1'' @ p"
  obtains ms where "\<forall>m \<in> set ms. transparent m" "ServeHTTP r c w = chain (ms @ mws) h c w"
proof -
  obtain n where run: "ServeHTTP r c w =
      chain ((router_use lb mongo redis rt n @ [RequestContextTimeoutFromEnv rt]) @ mws) h c w"
    using ServeHTTP_runs [OF r route path, of w] by auto
  have "\<forall>m \<in> set (router_use lb mongo redis rt n @ [RequestContextTimeoutFromEnv rt]). transparent m"
    using router_use_transparent [OF libs, of mongo redis rt n]
    by (auto simp: RequestContextTimeoutFromEnv_def RequestContextTimeout_transparent)
  from that [OF this run] show thesis .
qed

section \<open>Gates\<close>

definition keyed_routes :: "(string \<times> string) list" where
  "keyed_routes =
     [(''GET'', ''/api/v1/books''), (''POST'', ''/api/v1/books''), (''GET'', ''/api/v1/books/:id''),
      (''PUT'', ''/api/v1/books/:id''), (''PATCH'', ''/api/v1/books/:id''),
      (''DELETE'', ''/api/v1/books/:id''), (''POST'', ''/api/v1/login''),
      (''POST'', ''/api/v1/register''), (''POST'', ''/api/v1/refresh''), (''POST'', ''/api/v1/logout''),
      (''GET'', ''/api/v1/admin/me'')]"

definition jwt_routes :: "(string \<times> string) list" where
  "jwt_routes =
     [(''POST'', ''/api/v1/books''), (''PUT'', ''/api/v1/books/:id''),
      (''PATCH'', ''/api/v1/books/:id''), (''DELETE'', ''/api/v1/books/:id''),
      (''POST'', ''/api/v1/logout''), (''GET'', ''/api/v1/admin/me'')]"

definition key_presented :: "gin_ctx \<Rightarrow> ('s, 'r, 'p) world \<Rightarrow> bool" where
  "key_presented c w \<longleftrightarrow> 32 \<le> length (w_apikey w) \<and> g_GetHeader c ''X-API-Key'' = w_apikey w"

text \<open>No string of the program reaches \<open>2^64\<close> bytes.\<close>

definition key_sizes :: "gin_ctx \<Rightarrow> ('s, 'r, 'p) world \<Rightarrow> bool" where
  "key_sizes c w \<longleftrightarrow> length (g_GetHeader c ''X-API-Key'') < 2 ^ 64 \<and> length (w_apikey w) < 2 ^ 64"

text \<open>
  The request carries a bearer token that golang-jwt verified with these claims, at a reading
  of the clock that comes after \<open>w\<close>.
\<close>

definition token_verified :: "crypto_lib \<Rightarrow> gin_ctx \<Rightarrow> ('s, 'r, 'p) world \<Rightarrow> Claims \<Rightarrow> bool" where
  "token_verified lib c w claims \<longleftrightarrow>
     starts_with BearerSchema (g_GetHeader c ''Authorization'') \<and> 32 \<le> length (w_jwtkey w) \<and>
     (\<exists>k \<ge> rt_tick (w_rt w). jwt_Parse lib (rt_time (w_rt w) k) (drop (length BearerSchema) (g_GetHeader c ''Authorization''))
        (JWTKeyFunc (w_jwtkey w)) = Inr (True, claims)) \<and>
     cl_UserID claims \<noteq> 0 \<and> ValidRole (cl_Role claims)"

lemma gate_same:
  assumes "same_request c c1" and "quiet w w1"
  shows "key_presented c1 w1 \<longleftrightarrow> key_presented c w" and "key_sizes c1 w1 \<longleftrightarrow> key_sizes c w"
    and "token_verified lib c1 w1 claims \<Longrightarrow> token_verified lib c w claims"
proof -
  show "key_presented c1 w1 \<longleftrightarrow> key_presented c w" "key_sizes c1 w1 \<longleftrightarrow> key_sizes c w"
    using assms by (simp_all add: same_request_def redis_only_def key_presented_def key_sizes_def)
  show "token_verified lib c1 w1 claims \<Longrightarrow> token_verified lib c w claims"
    using assms by (auto simp: same_request_def redis_only_def token_verified_def intro: order_trans)
qed

lemma stopped_inside:
  assumes "\<forall>m \<in> set ms. transparent m"
    and "\<And>c1 w1. same_request c c1 \<Longrightarrow> quiet w w1 \<Longrightarrow> answered c1 w1 (chain rest h c1 w1)"
  shows "answered c w (chain (ms @ rest) h c w)"
  using chain_through [OF assms(1), of c w rest h]
proof
  let ?out = "chain (ms @ rest) h c w"
  assume "passed_on (chain rest h) c w ?out"
  then obtain c1 w1 where o: "same_request c c1" "quiet w w1"
      "quiet (snd (chain rest h c1 w1)) (snd ?out)" "g_Body (fst ?out) = g_Body (fst (chain rest h c1 w1))"
    unfolding passed_on_def by blast
  have a: "quiet w1 (snd (chain rest h c1 w1))"
      "carries_data (g_Body (fst (chain rest h c1 w1))) \<longrightarrow> carries_data (g_Body c1)"
    using assms(2) [OF o(1,2)] by (simp_all add: answered_def)
  have "g_Body c1 = g_Body c" using o(1) by (simp add: same_request_def)
  with a(2) o(4) redis_only_trans [OF o(2) redis_only_trans [OF a(1) o(3)]]
  show "answered c w ?out" by (simp add: answered_def)
qed

lemma answered_abort: "quiet w w' \<Longrightarrow> answered c w (httperr_Abort code msg c, w')"
  by (simp add: answered_def httperr_Abort_def respond_def)

lemma APIKeyAuth_gate:
  assumes "key_sizes c w" and "\<not> key_presented c w"
  shows "answered c w (APIKeyAuth nxt c w)"
proof -
  have sizes: "length (g_GetHeader c ''X-API-Key'') < 2 ^ 64" "length (w_apikey w) < 2 ^ 64"
    using assms(1) unfolding key_sizes_def by blast+
  show ?thesis
  proof (cases rule: APIKeyAuth_cases [OF sizes, of nxt, case_names unset allowed denied])
    case allowed
    with assms(2) show ?thesis by (simp add: key_presented_def)
  qed (simp_all add: answered_abort)
qed

lemma APIKeyAuth_open:
  assumes "key_sizes c w" and "key_presented c w"
  shows "APIKeyAuth nxt c w = nxt c w"
proof -
  have sizes: "length (g_GetHeader c ''X-API-Key'') < 2 ^ 64" "length (w_apikey w) < 2 ^ 64"
    using assms(1) unfolding key_sizes_def by blast+
  show ?thesis
    by (cases rule: APIKeyAuth_cases [OF sizes, of nxt, case_names unset allowed denied])
      (use assms(2) in \<open>simp_all add: key_presented_def\<close>)
qed

lemma router_denylist: "token_denylist (NewTokenDenylistFromEnv redis rt)"
  using noop_denylist.token_denylist_axioms redis_denylist.token_denylist_axioms
  by (auto simp: NewTokenDenylistFromEnv_def split: option.split)

lemma JWTAuth_gate:
  assumes "token_denylist dl" and "\<And>claims. \<not> token_verified lib c w claims"
  shows "answered c w (JWTAuth lib dl nxt c w)"
  by (rule token_denylist.JWTAuth_cases [OF assms(1), of lib nxt c w])
    (use assms(2) in \<open>auto simp: token_verified_def intro: answered_abort\<close>)

lemma keyed_table:
  "list_all (\<lambda>(m, fp). list_ex (\<lambda>(m', p, mws, h). m' = m \<and> fp = ''/api/v1'' @ p \<and>
       (\<exists>mws'. mws = APIKeyAuth # mws')) (router_routes lb redis publisher rt)) keyed_routes"
  by (simp add: keyed_routes_def router_routes_def api_routes_def Let_def)

lemma jwt_table:
  "list_all (\<lambda>(m, fp). list_ex (\<lambda>(m', p, mws, h). m' = m \<and> fp = ''/api/v1'' @ p \<and>
       (\<exists>mws'. mws = APIKeyAuth # JWTAuth (lb_crypto lb) (NewTokenDenylistFromEnv redis rt) # mws'))
     (router_routes lb redis publisher rt)) jwt_routes"
  by (simp add: jwt_routes_def router_routes_def api_routes_def Let_def)

lemma keyed_route:
  assumes "(g_Method c, g_FullPath c) \<in> set keyed_routes"
  obtains p mws h where "(g_Method c, p, APIKeyAuth # mws, h) \<in> set (router_routes lb redis publisher rt)"
    "g_FullPath c = ''/api/v1'' @ p"
  using keyed_table [of lb redis publisher rt] assms unfolding list_all_iff list_ex_iff by fastforce

lemma jwt_route:
  assumes "(g_Method c, g_FullPath c) \<in> set jwt_routes"
  obtains p mws h where
    "(g_Method c, p, APIKeyAuth # JWTAuth (lb_crypto lb) (NewTokenDenylistFromEnv redis rt) # mws, h)
       \<in> set (router_routes lb redis publisher rt)"
    "g_FullPath c = ''/api/v1'' @ p"
  using jwt_table [of lb redis rt publisher] assms unfolding list_all_iff list_ex_iff by fastforce

lemma api_key_gate:
  assumes r: "NewRouter lb pi mongo redis publisher rt = Inr r" and libs: "libs_transparent lb"
    and route: "(g_Method c, g_FullPath c) \<in> set keyed_routes"
    and key: "key_sizes c w" "\<not> key_presented c w"
  shows "answered c w (ServeHTTP r c w)"
proof -
  obtain p mws h where p: "(g_Method c, p, APIKeyAuth # mws, h) \<in> set (router_routes lb redis publisher rt)"
      "g_FullPath c = ''/api/v1'' @ p" by (rule keyed_route [OF route])
  obtain ms where ms: "\<forall>m \<in> set ms. transparent m"
      "ServeHTTP r c w = chain (ms @ APIKeyAuth # mws) h c w"
    by (rule ServeHTTP_route [OF r libs p, of w])
  show ?thesis unfolding ms(2)
  proof (rule stopped_inside [OF ms(1)])
    fix c1 :: gin_ctx and w1
    assume same: "same_request c c1" "quiet w w1"
    show "answered c1 w1 (chain (APIKeyAuth # mws) h c1 w1)"
      using APIKeyAuth_gate [of c1 w1 "chain mws h"] gate_same(1,2) [OF same] key by simp
  qed
qed

lemma jwt_gate:
  assumes r: "NewRouter lb pi mongo redis publisher rt = Inr r" and libs: "libs_transparent lb"
    and route: "(g_Method c, g_FullPath c) \<in> set jwt_routes"
    and key: "key_sizes c w" and jwt: "\<And>claims. \<not> token_verified (lb_crypto lb) c w claims"
  shows "answered c w (ServeHTTP r c w)"
proof -
  let ?dl = "NewTokenDenylistFromEnv redis rt" and ?lib = "lb_crypto lb"
  obtain p mws h where p: "(g_Method c, p, APIKeyAuth # JWTAuth ?lib ?dl # mws, h)
        \<in> set (router_routes lb redis publisher rt)"
      "g_FullPath c = ''/api/v1'' @ p" by (rule jwt_route [OF route])
  obtain ms where ms: "\<forall>m \<in> set ms. transparent m"
      "ServeHTTP r c w = chain (ms @ APIKeyAuth # JWTAuth ?lib ?dl # mws) h c w"
    by (rule ServeHTTP_route [OF r libs p, of w])
  show ?thesis unfolding ms(2)
  proof (rule stopped_inside [OF ms(1)])
    fix c1 :: gin_ctx and w1
    assume same: "same_request c c1" "quiet w w1"
    let ?in = "chain (JWTAuth ?lib ?dl # mws) h"
    have sizes: "key_sizes c1 w1" using gate_same(2) [OF same] key by simp
    have "\<not> token_verified ?lib c1 w1 claims" for claims
      using gate_same(3) [OF same] jwt [of claims] by blast
    then have jwt': "answered c1 w1 (?in c1 w1)"
      using JWTAuth_gate [OF router_denylist, of ?lib c1 w1 redis rt "chain mws h"] by simp
    show "answered c1 w1 (chain (APIKeyAuth # JWTAuth ?lib ?dl # mws) h c1 w1)"
    proof (cases "key_presented c1 w1")
      case False
      then show ?thesis using APIKeyAuth_gate [OF sizes] by simp
    next
      case True
      with jwt' show ?thesis using APIKeyAuth_open [OF sizes, of ?in] by simp
    qed
  qed
qed

end
