(* ===== verification/Router_Authority.thy ===== *)
theory Router_Authority
  imports Router_Laws
begin

text \<open>
  Whose request can change what, over the whole HTTP stack: a stored book is changed or removed
  only by a \<open>PUT\<close>, \<open>PATCH\<close> or \<open>DELETE\<close> that presents the API key and a verified token of the
  book's owner, and the admin answer is only given for a verified token with the admin role.
\<close>

section \<open>What reaches a handler\<close>

lemma set_claims_keys:
  "g_Keys (set_claims claims c) ContextUserID = Some (VUint (cl_UserID claims))"
  "g_Keys (set_claims claims c) ContextRole = Some (VStr (cl_Role claims))"
  "g_Body (set_claims claims c) = g_Body c"
  "g_Keys (set_claims claims c) ''username'' = Some (VStr (cl_Username claims))"
  by (simp_all add: set_claims_def Let_def set_key_def context_keys split: option.split)

text \<open>The handler of a route behind both guards sees the identity of the verified token.\<close>

lemma jwt_reached:
  assumes r: "NewRouter lb pi mongo redis publisher rt = Inr r" and libs: "libs_transparent lb"
    and p: "(g_Method c, p, [APIKeyAuth, JWTAuth (lb_crypto lb) (NewTokenDenylistFromEnv redis rt)] @ mws, h)
      \<in> set (router_routes lb redis publisher rt)" "g_FullPath c = ''/api/v1'' @ p"
    and key: "key_sizes c w"
  obtains (stopped) "answered c w (ServeHTTP r c w)"
  | (reached) claims c2 w2 where "key_presented c w" "token_verified (lb_crypto lb) c w claims"
      "g_Keys c2 ContextUserID = Some (VUint (cl_UserID claims))"
      "g_Keys c2 ContextRole = Some (VStr (cl_Role claims))" "quiet w w2" "g_Body c2 = g_Body c"
      "quiet (snd (chain mws h c2 w2)) (snd (ServeHTTP r c w))"
      "g_Body (fst (ServeHTTP r c w)) = g_Body (fst (chain mws h c2 w2))"
      "g_Keys c2 ''username'' = Some (VStr (cl_Username claims))"
proof -
  let ?dl = "NewTokenDenylistFromEnv redis rt" and ?lib = "lb_crypto lb"
  let ?in = "chain (JWTAuth ?lib ?dl # mws) h"
  obtain ms where ms: "\<forall>m \<in> set ms. transparent m"
      "ServeHTTP r c w = chain (ms @ [APIKeyAuth, JWTAuth ?lib ?dl] @ mws) h c w"
    by (rule ServeHTTP_route [OF r libs p, of w])
  let ?out = "ServeHTTP r c w" and ?rest = "chain ([APIKeyAuth, JWTAuth ?lib ?dl] @ mws) h"
  from chain_through [OF ms(1), of c w "[APIKeyAuth, JWTAuth ?lib ?dl] @ mws" h]
  consider "answered c w ?out" | "passed_on ?rest c w ?out" unfolding ms(2) by blast
  then show thesis
  proof cases
    case 1
    then show thesis by (rule stopped)
  next
    case 2
    then obtain c1 w1 where o: "same_request c c1" "quiet w w1" "quiet (snd (?rest c1 w1)) (snd ?out)"
        "g_Body (fst ?out) = g_Body (fst (?rest c1 w1))"
      unfolding passed_on_def by blast
    have sizes: "key_sizes c1 w1" using gate_same(2) [OF o(1,2)] key by simp
    have body: "g_Body c1 = g_Body c" using o(1) by (simp add: same_request_def)
    have stop: thesis if "answered c1 w1 (?rest c1 w1)"
    proof (rule stopped)
      have "quiet w1 (snd (?rest c1 w1))" using that by (simp add: answered_def)
      with that o body redis_only_trans [OF o(2) redis_only_trans [OF this o(3)]]
      show "answered c w ?out" by (simp add: answered_def)
    qed
    show thesis
    proof (cases "key_presented c1 w1")
      case False
      then show thesis using stop APIKeyAuth_gate [OF sizes, of ?in] by simp
    next
      case True
      then have rest: "?rest c1 w1 = JWTAuth ?lib ?dl (chain mws h) c1 w1"
        using APIKeyAuth_open [OF sizes, of ?in] by simp
      show thesis
      proof (cases rule: token_denylist.JWTAuth_cases [OF router_denylist, of ?lib redis rt "chain mws h"
            c1 w1, case_names refused accepted])
        case (refused code msg w')
        then show thesis using stop rest answered_abort [OF refused(2)] by simp
      next
        case (accepted claims w' now)
        have "token_verified ?lib c1 w1 claims"
          using accepted by (auto simp: token_verified_def)
        with True gate_same(1,3) [OF o(1,2)] accepted(1) rest o body set_claims_keys [of claims c1]
          redis_only_trans [OF o(2) accepted(2)]
        show thesis by (intro reached [of claims "set_claims claims c1" w']) simp_all
      qed
    qed
  qed
qed

section \<open>Handlers and operations\<close>

text \<open>Every book handler leaves the world as it was or runs one operation of the service.\<close>

definition runs_as :: "json_lib \<Rightarrow> ('s, 'r, 'p) BookService \<Rightarrow> uint option \<Rightarrow> (book_op \<Rightarrow> bool) \<Rightarrow>
    ('s, 'r, 'p) world \<Rightarrow> ('s, 'r, 'p) world \<Rightarrow> bool" where
  "runs_as json svc actor p w w' \<longleftrightarrow>
     w' = w \<or> (\<exists>op. p op \<and> w' = run_op json svc op w \<and> (actor_of op \<noteq> None \<longrightarrow> actor_of op = actor))"

lemma runs_same: "runs_as json svc actor p w w"
  by (simp add: runs_as_def)

lemma runs_op:
  "p op \<Longrightarrow> actor_of op \<noteq> None \<longrightarrow> actor_of op = actor \<Longrightarrow>
    runs_as json svc actor p w (run_op json svc op w)"
  unfolding runs_as_def by blast

lemma book_handlers_run:
  shows "runs_as json svc (contextUserID c) (\<lambda>op. \<not> guarded op) w (snd (FindBooks json svc c w))"
    and "runs_as json svc (contextUserID c) (\<lambda>op. \<not> guarded op) w (snd (FindBook svc c w))"
    and "runs_as json svc (contextUserID c) (\<lambda>op. \<not> guarded op) w (snd (h_CreateBook bnd svc c w))"
    and "runs_as json svc (contextUserID c) guarded w (snd (UpdateBook bnd svc c w))"
    and "runs_as json svc (contextUserID c) guarded w (snd (PatchBook bnd svc c w))"
    and "runs_as json svc (contextUserID c) guarded w (snd (DeleteBook svc c w))"
proof -
  have "snd (FindBooks json svc c w) = (case parseBookListQuery c of Inl _ \<Rightarrow> w
      | Inr q \<Rightarrow> run_op json svc (ListOp q) w)"
    by (auto simp: FindBooks_def split: sum.split prod.split)
  then show "runs_as json svc (contextUserID c) (\<lambda>op. \<not> guarded op) w (snd (FindBooks json svc c w))"
    by (simp add: runs_same runs_op del: run_op.simps split: option.split sum.split)
  have "snd (FindBook svc c w) = (case parseIDParam c of Inl _ \<Rightarrow> w
      | Inr i \<Rightarrow> run_op json svc (GetOp i) w)"
    by (auto simp: FindBook_def split: sum.split prod.split)
  then show "runs_as json svc (contextUserID c) (\<lambda>op. \<not> guarded op) w (snd (FindBook svc c w))"
    by (simp add: runs_same runs_op del: run_op.simps split: option.split sum.split)
  have "snd (h_CreateBook bnd svc c w) = (case contextUserID c of None \<Rightarrow> w
      | Some a \<Rightarrow> (case bind_CreateBook bnd c of Inl _ \<Rightarrow> w
         | Inr x \<Rightarrow> run_op json svc (CreateOp a (cb_Title x) (cb_Author x)) w))"
    by (auto simp: h_CreateBook_def split: option.split sum.split prod.split)
  then show "runs_as json svc (contextUserID c) (\<lambda>op. \<not> guarded op) w (snd (h_CreateBook bnd svc c w))"
    by (simp add: runs_same runs_op del: run_op.simps split: option.split sum.split)
  have "snd (UpdateBook bnd svc c w) = (case contextUserID c of None \<Rightarrow> w
      | Some a \<Rightarrow> (case parseIDParam c of Inl _ \<Rightarrow> w
         | Inr i \<Rightarrow> (case bind_ReplaceBook bnd c of Inl _ \<Rightarrow> w
            | Inr x \<Rightarrow> run_op json svc (ReplaceOp a i (rb_Title x) (rb_Author x)) w)))"
    by (auto simp: UpdateBook_def split: option.split sum.split prod.split)
  then show "runs_as json svc (contextUserID c) guarded w (snd (UpdateBook bnd svc c w))"
    by (simp add: runs_same runs_op del: run_op.simps split: option.split sum.split)
  have "snd (PatchBook bnd svc c w) = (case contextUserID c of None \<Rightarrow> w
      | Some a \<Rightarrow> (case parseIDParam c of Inl _ \<Rightarrow> w
         | Inr i \<Rightarrow> (case bind_PatchBook bnd c of Inl _ \<Rightarrow> w
            | Inr x \<Rightarrow> if pb_Title x = None \<and> pb_Author x = None then w
                else run_op json svc (PatchOp a i (pb_Title x) (pb_Author x)) w)))"
    by (auto simp: PatchBook_def split: option.split sum.split prod.split)
  then show "runs_as json svc (contextUserID c) guarded w (snd (PatchBook bnd svc c w))"
    by (simp add: runs_same runs_op del: run_op.simps split: option.split sum.split)
  have "snd (DeleteBook svc c w) = (case contextUserID c of None \<Rightarrow> w
      | Some a \<Rightarrow> (case parseIDParam c of Inl _ \<Rightarrow> w
         | Inr i \<Rightarrow> run_op json svc (DeleteOp a i) w))"
    by (auto simp: DeleteBook_def split: option.split sum.split prod.split)
  then show "runs_as json svc (contextUserID c) guarded w (snd (DeleteBook svc c w))"
    by (simp add: runs_same runs_op del: run_op.simps split: option.split sum.split)
qed

section \<open>What the handlers do to the books\<close>

text \<open>
  A handler is \<open>confined\<close> to a predicate when it keeps the database well-formed and changes
  only the stored books that satisfy the predicate for the context it ran on.
\<close>

definition confined :: "(gin_ctx \<Rightarrow> Book \<Rightarrow> bool) \<Rightarrow> (pg, 'r, 'p) handler \<Rightarrow> bool" where
  "confined P h \<longleftrightarrow>
     (\<forall>c w. pg_ok (w_store w) \<longrightarrow> pg_ok (w_store (snd (h c w))) \<and>
        (\<forall>k b. books_of (w_store w) k = Some b \<longrightarrow> books_of (w_store (snd (h c w))) k \<noteq> Some b \<longrightarrow>
           P c b))"

abbreviation nobody :: "gin_ctx \<Rightarrow> Book \<Rightarrow> bool" where "nobody \<equiv> \<lambda>c b. False"
abbreviation owner :: "gin_ctx \<Rightarrow> Book \<Rightarrow> bool" where "owner \<equiv> \<lambda>c b. contextUserID c = Some (b_OwnerID b)"

lemma confined_same_world: "(\<And>c w. snd (h c w) = w) \<Longrightarrow> confined P h"
  by (simp add: confined_def)

lemma confined_same_books:
  assumes "\<And>c w. same_books (w_store w) (w_store (snd (h c w)))"
  shows "confined P h"
  unfolding confined_def using assms by (simp add: same_books_def books_of_def)

lemma run_op_ok:
  assumes "sv_store s = SQLCBookStore lower" and "pg_ok (w_store w)"
  shows "pg_ok (w_store (run_op json s op w))"
proof -
  have "\<exists>u. \<forall>a. actor_of op = Some a \<longrightarrow> toInt64 a \<noteq> toInt64 u"
    by (rule exI [where x = "if actor_of op = Some 0 then 1 else if \<exists>a. actor_of op = Some a \<and>
          toInt64 a = 0 then 1 else 0"]) (auto simp: toInt64_def max_int64_def)
  then obtain u where "\<And>a. actor_of op = Some a \<Longrightarrow> toInt64 a \<noteq> toInt64 u" by blast
  from sqlc_books.run_op_isolated [OF assms this] show ?thesis by blast
qed

lemma confined_runs:
  fixes h :: "(pg, 'r, 'p) handler"
  assumes "sv_store s = SQLCBookStore lower"
    and "\<And>c w. runs_as json s (contextUserID c) p w (snd (h c w))"
    and "\<And>op c b. p op \<Longrightarrow> guarded op \<Longrightarrow> contextUserID c = Some (b_OwnerID b) \<Longrightarrow> P c b"
  shows "confined P h"
  unfolding confined_def
proof (intro allI impI conjI)
  fix c and w :: "(pg, 'r, 'p) world" assume ok: "pg_ok (w_store w)"
  show "pg_ok (w_store (snd (h c w)))"
    using assms(2) [of c w] ok run_op_ok [OF assms(1) ok] by (auto simp: runs_as_def)
  fix k b assume b: "books_of (w_store w) k = Some b" "books_of (w_store (snd (h c w))) k \<noteq> Some b"
  with assms(2) [of c w] obtain op where op: "p op" "snd (h c w) = run_op json s op w"
      "actor_of op \<noteq> None \<longrightarrow> actor_of op = contextUserID c"
    by (auto simp: runs_as_def)
  with sqlc_books.changed_by_owner [OF assms(1) ok b(1), of json op] b(2)
  have "guarded op" "actor_of op = Some (b_OwnerID b)" by auto
  with op assms(3) show "P c b" by simp
qed

lemma users_serve: "sqlc_frame.serves (router_users redis rt)"
  by (simp add: sqlc_frame.serves_def router_users_def NewUserHandler_def NewUserService_def
      router_denylist)

lemma auth_handlers_confined:
  "confined nobody (LoginHandler bnd lib (router_users redis rt))"
  "confined nobody (RefreshHandler bnd lib (router_users redis rt))"
  "confined nobody (RegisterHandler bnd lib (router_users redis rt))"
  "confined nobody (LogoutHandler bnd lib (router_users redis rt))"
proof -
  note serves = users_serve [of redis rt]
  have refl: "same_books s s" for s by (simp add: same_books_def)
  show "confined nobody (LoginHandler bnd lib (router_users redis rt))"
    by (rule confined_same_books) (auto simp: LoginHandler_def refl split: sum.split prod.split
        dest: sqlc_frame.Login_reach [OF serves, unfolded sqlc_frame.reach_def])
  show "confined nobody (RefreshHandler bnd lib (router_users redis rt))"
    by (rule confined_same_books) (auto simp: RefreshHandler_def refl split: sum.split prod.split
        dest: sqlc_frame.Refresh_reach [OF serves, unfolded sqlc_frame.reach_def])
  show "confined nobody (RegisterHandler bnd lib (router_users redis rt))"
    by (rule confined_same_books) (auto simp: RegisterHandler_def refl split: sum.split prod.split
        dest: sqlc_frame.Register_reach [OF serves, unfolded sqlc_frame.reach_def])
  show "confined nobody (LogoutHandler bnd lib (router_users redis rt))"
    by (rule confined_same_books) (auto simp: LogoutHandler_def Let_def refl split: sum.split prod.split
        dest: sqlc_frame.Logout_reach [OF serves, unfolded sqlc_frame.reach_def])
qed

lemma book_handlers_confined:
  "confined nobody (FindBooks json (router_books lb redis publisher))"
  "confined nobody (FindBook (router_books lb redis publisher))"
  "confined nobody (h_CreateBook bnd (router_books lb redis publisher))"
  "confined owner (UpdateBook bnd (router_books lb redis publisher))"
  "confined owner (PatchBook bnd (router_books lb redis publisher))"
  "confined owner (DeleteBook (router_books lb redis publisher))"
proof -
  have st: "sv_store (router_books lb redis publisher) = SQLCBookStore (lb_lower lb)"
    by (simp add: router_books_def NewBookService_def)
  show "confined nobody (FindBooks json (router_books lb redis publisher))"
    by (rule confined_runs [OF st book_handlers_run(1)]) simp
  show "confined nobody (FindBook (router_books lb redis publisher))"
    by (rule confined_runs [OF st book_handlers_run(2)]) simp
  show "confined nobody (h_CreateBook bnd (router_books lb redis publisher))"
    by (rule confined_runs [OF st book_handlers_run(3)]) simp
  show "confined owner (UpdateBook bnd (router_books lb redis publisher))"
    by (rule confined_runs [OF st book_handlers_run(4)]) simp
  show "confined owner (PatchBook bnd (router_books lb redis publisher))"
    by (rule confined_runs [OF st book_handlers_run(5)]) simp
  show "confined owner (DeleteBook (router_books lb redis publisher))"
    by (rule confined_runs [OF st book_handlers_run(6)]) simp
qed

section \<open>Every request\<close>

text \<open>
  A middleware that either leaves the database alone or hands over to the rest of the chain,
  on whatever context: the guards too.
\<close>

definition relay :: "('s, 'r, 'p) middleware \<Rightarrow> bool" where
  "relay m \<longleftrightarrow> (\<forall>next c w. quiet w (snd (m next c w)) \<or>
     (\<exists>c1 w1. quiet w w1 \<and> quiet (snd (next c1 w1)) (snd (m next c w))))"

lemma transparent_relay: "transparent m \<Longrightarrow> relay m"
  unfolding transparent_def relay_def answered_def passed_on_def by blast

lemma relayI:
  "(\<And>next c w. quiet w (snd (m next c w)) \<or> (\<exists>c1 w1. quiet w w1 \<and> m next c w = next c1 w1)) \<Longrightarrow> relay m"
  unfolding relay_def by (metis redis_only_refl)

lemma APIKeyAuth_relay: "relay APIKeyAuth"
  by (rule relayI) (auto simp: APIKeyAuth_def Let_def intro: redis_only_refl)

lemma RequireRole_relay: "relay (RequireRole roles)"
proof (rule relayI)
  fix nxt :: "('s, 'r, 'p) handler" and c w
  show "quiet w (snd (RequireRole roles nxt c w)) \<or>
      (\<exists>c1 w1. quiet w w1 \<and> RequireRole roles nxt c w = nxt c1 w1)"
    by (rule RequireRole_cases [of roles nxt c w]) (auto intro: redis_only_refl)
qed

lemma JWTAuth_relay:
  fixes redis :: "'r Cache option"
  shows "relay (JWTAuth lib (NewTokenDenylistFromEnv redis rt))"
proof (rule relayI)
  fix nxt :: "('s, 'r, 'p) handler" and c w
  show "quiet w (snd (JWTAuth lib (NewTokenDenylistFromEnv redis rt) nxt c w)) \<or>
      (\<exists>c1 w1. quiet w w1 \<and> JWTAuth lib (NewTokenDenylistFromEnv redis rt) nxt c w = nxt c1 w1)"
    by (rule token_denylist.JWTAuth_cases [OF router_denylist, of lib redis rt nxt c w]) auto
qed

lemmas guards_relay = APIKeyAuth_relay RequireRole_relay JWTAuth_relay

lemma chain_relay:
  assumes "\<forall>m \<in> set ms. relay m"
  obtains "quiet w (snd (chain ms h c w))"
  | c1 w1 where "quiet w w1" "quiet (snd (h c1 w1)) (snd (chain ms h c w))"
proof -
  have "quiet w (snd (chain ms h c w)) \<or>
      (\<exists>c1 w1. quiet w w1 \<and> quiet (snd (h c1 w1)) (snd (chain ms h c w)))"
    using assms
  proof (induction ms arbitrary: c w)
    case Nil
    show ?case by (rule disjI2, rule exI [of _ c], rule exI [of _ w]) simp
  next
    case (Cons m ms)
    let ?in = "chain ms h" and ?out = "chain (m # ms) h c w"
    have "relay m" using Cons.prems by simp
    then consider "quiet w (snd ?out)"
      | c1 w1 where "quiet w w1" "quiet (snd (?in c1 w1)) (snd ?out)"
      unfolding relay_def chain_simps by blast
    then show ?case
    proof cases
      case (2 c1 w1)
      from Cons.IH [of w1 c1] Cons.prems have "quiet w1 (snd (?in c1 w1)) \<or>
        (\<exists>c2 w2. quiet w1 w2 \<and> quiet (snd (h c2 w2)) (snd (?in c1 w1)))" by simp
      with 2 show ?thesis by (blast intro: redis_only_trans)
    qed blast
  qed
  then show thesis using that by blast
qed

definition api_paths :: "(string \<times> string) list" where
  "api_paths = (''GET'', ''/api/v1/'') # keyed_routes"

lemma paths_table:
  "list_all (\<lambda>(m, fp). list_ex (\<lambda>(m', p, mws, h). m' = m \<and> fp = ''/api/v1'' @ p)
     (router_routes lb redis publisher rt)) api_paths"
  by (simp add: api_paths_def keyed_routes_def router_routes_def api_routes_def Let_def)

lemma paths_route:
  assumes "(g_Method c, g_FullPath c) \<in> set api_paths"
  obtains p mws h where "(g_Method c, p, mws, h) \<in> set (router_routes lb redis publisher rt)"
    "g_FullPath c = ''/api/v1'' @ p"
  using paths_table [of lb redis publisher rt] assms unfolding list_all_iff list_ex_iff by fastforce

definition mutators :: "string set" where "mutators = {''PUT'', ''PATCH'', ''DELETE''}"

lemma idle_handlers_confined: "confined nobody Healthcheck" "confined nobody AdminMeHandler"
  by (simp_all add: confined_same_world Healthcheck_def AdminMeHandler_def Let_def)

lemma routes_confined:
  "list_all (\<lambda>(m, p, mws, h). (\<forall>g \<in> set mws. relay g) \<and>
      (if m \<in> mutators
       then mws = [APIKeyAuth, JWTAuth (lb_crypto lb) (NewTokenDenylistFromEnv redis rt)] \<and> confined owner h
       else confined nobody h)) (router_routes lb redis publisher rt)"
  by (simp add: router_routes_def api_routes_def Let_def mutators_def guards_relay
      book_handlers_confined auth_handlers_confined idle_handlers_confined)

lemma confined_ok:
  "confined P h \<Longrightarrow> pg_ok (w_store w) \<Longrightarrow> pg_ok (w_store (snd (h c w)))"
  unfolding confined_def by blast

lemma confined_change:
  "confined P h \<Longrightarrow> pg_ok (w_store w) \<Longrightarrow> books_of (w_store w) k = Some b \<Longrightarrow>
    books_of (w_store (snd (h c w))) k \<noteq> Some b \<Longrightarrow> P c b"
  unfolding confined_def by blast

lemma quiet_store: "quiet w w' \<Longrightarrow> w_store w' = w_store w"
  by (simp add: redis_only_def)

text \<open>The handler's route, its guards and what it may change.\<close>

lemma route_cases:
  assumes r: "NewRouter lb pi mongo redis publisher rt = Inr r" and libs: "libs_transparent lb"
    and path: "(g_Method c, g_FullPath c) \<in> set api_paths"
  obtains p mws h ms where "(g_Method c, p, mws, h) \<in> set (router_routes lb redis publisher rt)"
    "g_FullPath c = ''/api/v1'' @ p" "\<forall>g \<in> set (ms @ mws). relay g"
    "ServeHTTP r c w = chain (ms @ mws) h c w"
    "g_Method c \<in> mutators \<longrightarrow> confined owner h \<and>
       mws = [APIKeyAuth, JWTAuth (lb_crypto lb) (NewTokenDenylistFromEnv redis rt)]"
    "g_Method c \<notin> mutators \<longrightarrow> confined nobody h"
proof -
  obtain p mws h where p: "(g_Method c, p, mws, h) \<in> set (router_routes lb redis publisher rt)"
      "g_FullPath c = ''/api/v1'' @ p" by (rule paths_route [OF path])
  obtain ms where ms: "\<forall>m \<in> set ms. transparent m" "ServeHTTP r c w = chain (ms @ mws) h c w"
    by (rule ServeHTTP_route [OF r libs p, of w])
  from routes_confined [of lb redis rt publisher] p(1)
  have c: "(\<forall>g \<in> set mws. relay g) \<and> (if g_Method c \<in> mutators
      then mws = [APIKeyAuth, JWTAuth (lb_crypto lb) (NewTokenDenylistFromEnv redis rt)] \<and> confined owner h
      else confined nobody h)"
    unfolding list_all_iff by fastforce
  show thesis
    by (rule that [OF p _ ms(2)]) (use c ms(1) transparent_relay in \<open>auto split: if_splits\<close>)
qed

lemma request_keeps_ok:
  assumes "NewRouter lb pi mongo redis publisher rt = Inr r" and "libs_transparent lb"
    and "(g_Method c, g_FullPath c) \<in> set api_paths" and ok: "pg_ok (w_store w)"
  shows "pg_ok (w_store (snd (ServeHTTP r c w)))"
proof -
  obtain p mws h ms where route: "\<forall>g \<in> set (ms @ mws). relay g"
      "ServeHTTP r c w = chain (ms @ mws) h c w"
      "g_Method c \<in> mutators \<longrightarrow> confined owner h" "g_Method c \<notin> mutators \<longrightarrow> confined nobody h"
    by (rule route_cases [OF assms(1-3), of w]) blast
  from route(3,4) obtain P where h: "confined P h" by blast
  show ?thesis
  proof (cases rule: chain_relay [OF route(1), of w h c, case_names idle ran])
    case idle
    with ok show ?thesis by (simp add: route(2) quiet_store)
  next
    case (ran c1 w1)
    have "pg_ok (w_store w1)" using ok quiet_store [OF ran(1)] by simp
    from confined_ok [OF h this, of c1] quiet_store [OF ran(2)] show ?thesis by (simp add: route(2))
  qed
qed

text \<open>
  A stored book is changed or removed only by a \<open>PUT\<close>, \<open>PATCH\<close> or \<open>DELETE\<close> that presents the
  API key and a verified token whose user is the book's owner.
\<close>

lemma book_authority:
  assumes r: "NewRouter lb pi mongo redis publisher rt = Inr r" and libs: "libs_transparent lb"
    and path: "(g_Method c, g_FullPath c) \<in> set api_paths" and sizes: "key_sizes c w"
    and ok: "pg_ok (w_store w)" and b: "books_of (w_store w) k = Some b"
    and changed: "books_of (w_store (snd (ServeHTTP r c w))) k \<noteq> Some b"
  obtains claims where "g_Method c \<in> mutators" "key_presented c w"
    "token_verified (lb_crypto lb) c w claims" "cl_UserID claims = b_OwnerID b"
proof -
  let ?out = "ServeHTTP r c w"
  have loud: "\<not> quiet w (snd ?out)" using changed b quiet_store by fastforce
  obtain p mws h ms where route: "(g_Method c, p, mws, h) \<in> set (router_routes lb redis publisher rt)"
      "g_FullPath c = ''/api/v1'' @ p" "\<forall>g \<in> set (ms @ mws). relay g" "?out = chain (ms @ mws) h c w"
      "g_Method c \<in> mutators \<longrightarrow> confined owner h \<and>
         mws = [APIKeyAuth, JWTAuth (lb_crypto lb) (NewTokenDenylistFromEnv redis rt)]"
      "g_Method c \<notin> mutators \<longrightarrow> confined nobody h"
    by (rule route_cases [OF r libs path, of w])
  have ran: "P c1 b" if "confined P h" "quiet w w1" "quiet (snd (h c1 w1)) (snd ?out)" for P c1 w1
    using confined_change [OF that(1), of w1 k b c1] quiet_store [OF that(2)] quiet_store [OF that(3)]
      ok b changed by simp
  show thesis
  proof (cases "g_Method c \<in> mutators")
    case False
    show ?thesis
      by (rule chain_relay [OF route(3), of w h c])
        (use loud ran [of nobody] route(6) False in \<open>auto simp: route(4)\<close>)
  next
    case True
    with route(1,5) have here: "(g_Method c, p,
        [APIKeyAuth, JWTAuth (lb_crypto lb) (NewTokenDenylistFromEnv redis rt)] @ [], h)
          \<in> set (router_routes lb redis publisher rt)" by simp
    show ?thesis
    proof (cases rule: jwt_reached [OF r libs here route(2) sizes, case_names stopped reached])
      case stopped
      with loud show ?thesis by (simp add: answered_def)
    next
      case (reached claims c2 w2)
      have "contextUserID c2 = Some (b_OwnerID b)"
        using confined_change [of owner h w2 k b c2] route(5) True quiet_store [OF reached(5)]
          quiet_store [OF reached(7)] ok b changed by simp
      then have "cl_UserID claims = b_OwnerID b"
        using reached(3) by (simp add: contextUserID_def split: if_splits)
      with True reached(1,2) show ?thesis by (rule that)
    qed
  qed
qed

section \<open>The admin answer\<close>

lemma admin_answer:
  assumes r: "NewRouter lb pi mongo redis publisher rt = Inr r" and libs: "libs_transparent lb"
    and path: "g_Method c = ''GET''" "g_FullPath c = ''/api/v1/admin/me''" and sizes: "key_sizes c w"
    and quiet_body: "\<not> carries_data (g_Body c)" and data: "carries_data (g_Body (fst (ServeHTTP r c w)))"
  obtains claims where "key_presented c w" "token_verified (lb_crypto lb) c w claims"
    "cl_Role claims = RoleAdmin" "g_Body (fst (ServeHTTP r c w)) =
       DataAdmin \<lparr>am_Username = cl_Username claims, am_UserID = cl_UserID claims, am_Role = RoleAdmin\<rparr>"
proof -
  have here: "(g_Method c, ''/admin/me'',
      [APIKeyAuth, JWTAuth (lb_crypto lb) (NewTokenDenylistFromEnv redis rt)] @ [RequireRole [RoleAdmin]],
      AdminMeHandler) \<in> set (router_routes lb redis publisher rt)"
    by (simp add: path router_routes_def api_routes_def Let_def)
  show thesis
  proof (cases rule: jwt_reached [OF r libs here _ sizes, case_names path stopped reached])
    case path
    show ?case using assms(4) by simp
  next
    case stopped
    with data quiet_body show ?thesis by (simp add: answered_def)
  next
    case (reached claims c2 w2)
    show ?thesis
    proof (cases rule: RequireRole_cases [of "[RoleAdmin]" AdminMeHandler c2 w2, case_names refused allowed])
      case refused
      with reached(8) data show ?thesis by (simp add: httperr_Abort_def respond_def)
    next
      case (allowed role)
      with reached show ?thesis
        by (intro that [of claims])
          (simp_all add: AdminMeHandler_def Let_def httpresp_OK_def respond_def ctx_uint_def ctx_string_def)
    qed
  qed
qed

end
