(* ===== verification/Refresh_Life.thy ===== *)
theory Refresh_Life
  imports User_Service
begin

text \<open>
  The life of refresh tokens over any sequence of calls of \<open>UserService\<close>: a spent or revoked
  token stays so, whatever is called afterwards, and so does a revoked family. \<open>auth_op\<close> is a
  call, \<open>run_auth\<close> runs it and drops its result.
\<close>

datatype auth_op =
    LoginOp string string
  | RefreshOp string
  | LogoutOp uint string string time
  | RegisterOp string string

fun run_auth ::
  "crypto_lib \<Rightarrow> ('s, 'r, 'p) UserService \<Rightarrow> auth_op \<Rightarrow> ('s, 'r, 'p) world \<Rightarrow> ('s, 'r, 'p) world" where
  "run_auth lib s (LoginOp n p) w = snd (Login lib s n p w)"
| "run_auth lib s (RefreshOp p) w = snd (Refresh lib s p w)"
| "run_auth lib s (LogoutOp uid p jti exp) w = snd (Logout lib s uid p jti exp w)"
| "run_auth lib s (RegisterOp n p) w = snd (Register lib s n p w)"

text \<open>No login of a run draws the family identifier \<open>f\<close>.\<close>

fun undrawn ::
  "crypto_lib \<Rightarrow> ('s, 'r, 'p) UserService \<Rightarrow> string \<Rightarrow> auth_op list \<Rightarrow> ('s, 'r, 'p) world \<Rightarrow> bool" where
  "undrawn lib s f [] w \<longleftrightarrow> True"
| "undrawn lib s f (op # ops) w \<longleftrightarrow>
     ((\<exists>n p. op = LoginOp n p) \<longrightarrow> fst (NewFamilyID (w_rt w)) \<noteq> Inr f) \<and>
     undrawn lib s f ops (run_auth lib s op w)"

section \<open>How one token may change\<close>

definition evolves :: "RefreshToken \<Rightarrow> RefreshToken \<Rightarrow> bool" where
  "evolves t t' \<longleftrightarrow>
     tk_ID t' = tk_ID t \<and> tk_UserID t' = tk_UserID t \<and> tk_TokenHash t' = tk_TokenHash t \<and>
     tk_FamilyID t' = tk_FamilyID t \<and> tk_ExpiresAt t' = tk_ExpiresAt t \<and>
     (tk_ConsumedAt t = None \<or> tk_ConsumedAt t' = tk_ConsumedAt t) \<and>
     (tk_RevokedAt t = None \<or> tk_RevokedAt t' = tk_RevokedAt t)"

lemma evolves_refl [simp]: "evolves t t"
  by (simp add: evolves_def)

lemma evolves_trans: "evolves t u \<Longrightarrow> evolves u v \<Longrightarrow> evolves t v"
  by (auto simp: evolves_def)

lemma token_core_fields:
  assumes "token_core t' = token_core t"
  shows "tk_ID t' = tk_ID t" "tk_UserID t' = tk_UserID t" "tk_TokenHash t' = tk_TokenHash t"
    "tk_FamilyID t' = tk_FamilyID t" "tk_ExpiresAt t' = tk_ExpiresAt t"
    "tk_ConsumedAt t' = tk_ConsumedAt t" "tk_RevokedAt t' = tk_RevokedAt t"
proof -
  note fields = assms [THEN arg_cong, of tk_ID] assms [THEN arg_cong, of tk_UserID]
    assms [THEN arg_cong, of tk_TokenHash] assms [THEN arg_cong, of tk_FamilyID]
    assms [THEN arg_cong, of tk_ExpiresAt] assms [THEN arg_cong, of tk_ConsumedAt]
    assms [THEN arg_cong, of tk_RevokedAt]
  show "tk_ID t' = tk_ID t" "tk_UserID t' = tk_UserID t" "tk_TokenHash t' = tk_TokenHash t"
    "tk_FamilyID t' = tk_FamilyID t" "tk_ExpiresAt t' = tk_ExpiresAt t"
    "tk_ConsumedAt t' = tk_ConsumedAt t" "tk_RevokedAt t' = tk_RevokedAt t"
    using fields by (simp_all add: token_core_def)
qed

lemma evolves_core:
  assumes "token_core t' = token_core t"
  shows "evolves t t'"
  using token_core_fields [OF assms] by (simp add: evolves_def)

lemma evolves_revoke: "token_core t' = token_core (revoke_if p at t) \<Longrightarrow> evolves t t'"
  by (rule evolves_trans [OF _ evolves_core]) (auto simp: evolves_def revoke_if_def)

context auth_service begin

text \<open>Every token a database holds is still there later, further on in its life.\<close>

definition later :: "'s \<Rightarrow> 's \<Rightarrow> bool" where
  "later s s' \<longleftrightarrow> (\<forall>h t. tokens s h = Some t \<longrightarrow> (\<exists>t'. tokens s' h = Some t' \<and> evolves t t'))"

lemma later_refl [simp]: "later s s"
  by (simp add: later_def)

lemma later_tokens: "tokens s' = tokens s \<Longrightarrow> later s s'"
  by (simp add: later_def)

lemma later_trans: "later s t \<Longrightarrow> later t u \<Longrightarrow> later s u"
  unfolding later_def by (meson evolves_trans)

lemma later_add: "tokens s h = None \<Longrightarrow> tokens s' = (tokens s)(h \<mapsto> t) \<Longrightarrow> later s s'"
  by (auto simp: later_def)

lemma core_Some: "core s h = Some c \<longleftrightarrow> (\<exists>t. tokens s h = Some t \<and> token_core t = c)"
  by (auto simp: core_def)

lemma later_revoke:
  assumes "core s' = map_option (token_core \<circ> revoke_if p at) \<circ> tokens s"
  shows "later s s'"
  unfolding later_def
proof (intro allI impI)
  fix h t
  assume t: "tokens s h = Some t"
  with assms have "core s' h = Some (token_core (revoke_if p at t))" by simp
  then obtain t' where "tokens s' h = Some t'" "token_core t' = token_core (revoke_if p at t)"
    by (auto simp: core_Some)
  then show "\<exists>t'. tokens s' h = Some t' \<and> evolves t t'" using evolves_revoke by blast
qed

lemma later_rotate:
  assumes "tokens s h = Some row" "tk_active row" "tokens s h' = None"
    and "core s' = (core s)(h \<mapsto> token_core (row\<lparr>tk_ConsumedAt := Some at\<rparr>), h' \<mapsto> token_core t)"
  shows "later s s'"
  unfolding later_def
proof (intro allI impI)
  fix k u
  assume u: "tokens s k = Some u"
  with assms(3) have "k \<noteq> h'" by auto
  have row: "evolves row (row\<lparr>tk_ConsumedAt := Some at\<rparr>)"
    using assms(2) by (simp add: evolves_def tk_active_def)
  from u assms(1,4) \<open>k \<noteq> h'\<close> have "core s' k =
      Some (token_core (if k = h then row\<lparr>tk_ConsumedAt := Some at\<rparr> else u))"
    by (auto simp: core_Some)
  then obtain u' where u': "tokens s' k = Some u'"
      "token_core u' = token_core (if k = h then row\<lparr>tk_ConsumedAt := Some at\<rparr> else u)"
    by (auto simp: core_Some)
  have "evolves u (if k = h then row\<lparr>tk_ConsumedAt := Some at\<rparr> else u)"
    using u assms(1) row by auto
  then have "evolves u u'" using evolves_core [OF u'(2)] by (rule evolves_trans)
  with u' show "\<exists>t'. tokens s' k = Some t' \<and> evolves u t'" by blast
qed

lemma Refresh_later:
  assumes "inv (w_store w)" and "Refresh lib svc p w = (r, w')"
  shows "inv (w_store w') \<and> later (w_store w) (w_store w')"
proof (cases r)
  case (Inl e)
  with Refresh_spec [OF assms refl] later_revoke show ?thesis
    by (auto simp: revoked_family_def later_tokens split: if_splits)
next
  case (Inr pr)
  with Refresh_spec [OF assms refl] later_rotate show ?thesis by (simp, blast)
qed

lemma Login_later:
  assumes "inv (w_store w)" and "Login lib svc n pw w = (r, w')"
  shows "inv (w_store w') \<and> later (w_store w) (w_store w')"
  using Login_spec [OF assms] by (cases r) (auto intro: later_tokens later_add)

lemma Logout_later:
  assumes "inv (w_store w)" and "Logout lib svc uid p jti exp w = (r, w')"
  shows "inv (w_store w') \<and> later (w_store w) (w_store w')"
  using Logout_spec [OF assms refl] by (cases r) (auto intro: later_tokens later_revoke)

lemma Register_later:
  assumes "inv (w_store w)" and "Register lib svc n pw w = (r, w')"
  shows "inv (w_store w') \<and> later (w_store w) (w_store w')"
  using Register_spec [OF assms] by (auto intro: later_tokens)

lemma run_auth_later:
  assumes "inv (w_store w)"
  shows "inv (w_store (run_auth lib svc op w)) \<and> later (w_store w) (w_store (run_auth lib svc op w))"
proof (cases op)
  case (LoginOp n p)
  with Login_later [OF assms, of n p "fst (Login lib svc n p w)" "snd (Login lib svc n p w)"]
  show ?thesis by simp
next
  case (RefreshOp p)
  with Refresh_later [OF assms, of p "fst (Refresh lib svc p w)" "snd (Refresh lib svc p w)"]
  show ?thesis by simp
next
  case (LogoutOp uid p jti exp)
  with Logout_later [OF assms, of uid p jti exp "fst (Logout lib svc uid p jti exp w)"
      "snd (Logout lib svc uid p jti exp w)"]
  show ?thesis by simp
next
  case (RegisterOp n p)
  with Register_later [OF assms, of n p "fst (Register lib svc n p w)" "snd (Register lib svc n p w)"]
  show ?thesis by simp
qed

lemma run_auths_later:
  assumes "inv (w_store w)"
  shows "inv (w_store (fold (run_auth lib svc) ops w)) \<and>
    later (w_store w) (w_store (fold (run_auth lib svc) ops w))"
  using assms
proof (induction ops arbitrary: w)
  case (Cons op ops)
  from run_auth_later [OF Cons.prems, of op] Cons.IH [of "run_auth lib svc op w"]
  show ?case using later_trans by auto
qed simp

section \<open>A spent token is spent for good\<close>

lemma Refresh_needs_active:
  assumes "inv (w_store w)" and "Refresh lib svc p w = (Inr pr, w')"
  shows "\<exists>row. tokens (w_store w) (H p) = Some row \<and> tk_active row"
  using Refresh_spec [OF assms refl] by auto

lemma Refresh_spends:
  assumes "inv (w_store w)" and "Refresh lib svc p w = (Inr pr, w')"
  shows "\<exists>t. tokens (w_store w') (H p) = Some t \<and> tk_ConsumedAt t \<noteq> None"
proof -
  from Refresh_spec [OF assms refl] obtain row t now where
    "tokens (w_store w) (H p) = Some row" "tokens (w_store w) (H (tp_RefreshToken pr)) = None"
    "core (w_store w') = (core (w_store w))
       (H p \<mapsto> token_core (row\<lparr>tk_ConsumedAt := Some now\<rparr>),
        H (tp_RefreshToken pr) \<mapsto> token_core t)"
    by auto
  then have "core (w_store w') (H p) = Some (token_core (row\<lparr>tk_ConsumedAt := Some now\<rparr>))" by auto
  then obtain u where "tokens (w_store w') (H p) = Some u"
      "token_core u = token_core (row\<lparr>tk_ConsumedAt := Some now\<rparr>)"
    by (auto simp: core_Some)
  with token_core_fields(6) [OF this(2)] show ?thesis by auto
qed

lemma inactive_forever:
  assumes "inv (w_store w)" and "tokens (w_store w) (H p) = Some t" and "\<not> tk_active t"
    and "w' = fold (run_auth lib svc) ops w"
  shows "\<not> is_ok (fst (Refresh lib svc p w'))"
proof
  assume ok: "is_ok (fst (Refresh lib svc p w'))"
  note after = run_auths_later [OF assms(1), of ops, folded assms(4)]
  with assms(2) obtain t' where t': "tokens (w_store w') (H p) = Some t'" "evolves t t'"
    by (auto simp: later_def)
  with assms(3) have "\<not> tk_active t'" by (auto simp: evolves_def tk_active_def)
  moreover from ok obtain pr' w'' where "Refresh lib svc p w' = (Inr pr', w'')"
    by (cases "Refresh lib svc p w'") (auto simp: is_ok_def split: sum.splits)
  from Refresh_needs_active [OF conjunct1 [OF after] this] t'(1) have "tk_active t'" by auto
  ultimately show False by simp
qed

lemma single_use:
  assumes "inv (w_store w)" and "Refresh lib svc p w = (Inr pr, w1)"
    and "w2 = fold (run_auth lib svc) ops w1"
  shows "\<not> is_ok (fst (Refresh lib svc p w2))"
proof -
  obtain t where t: "tokens (w_store w1) (H p) = Some t" "\<not> tk_active t"
    using Refresh_spends [OF assms(1,2)] by (auto simp: tk_active_def)
  show ?thesis
    using Refresh_later [OF assms(1,2)] by (intro inactive_forever [OF _ t assms(3)]) simp
qed

section \<open>A revoked family is dead for good\<close>

definition dead_family :: "string \<Rightarrow> 's \<Rightarrow> bool" where
  "dead_family f s \<longleftrightarrow>
     (\<forall>h t. tokens s h = Some t \<longrightarrow> tk_FamilyID t = f \<longrightarrow> tk_RevokedAt t \<noteq> None)"

lemma dead_familyD:
  "dead_family f s \<Longrightarrow> tokens s h = Some t \<Longrightarrow> tk_FamilyID t = f \<Longrightarrow> tk_RevokedAt t \<noteq> None"
  by (simp add: dead_family_def)

lemma revoked_dead:
  assumes "core s' = revoked_family s f at"
  shows "dead_family f s'"
  unfolding dead_family_def
proof (intro allI impI)
  fix h t'
  assume t': "tokens s' h = Some t'" "tk_FamilyID t' = f"
  then have "core s' h = Some (token_core t')" by (simp add: core_def)
  with assms have "map_option (token_core \<circ> revoke_if (\<lambda>t. tk_FamilyID t = f) at) (tokens s h) =
      Some (token_core t')" by (simp add: revoked_family_def)
  then obtain t where t: "token_core t' = token_core (revoke_if (\<lambda>t. tk_FamilyID t = f) at t)"
    by (cases "tokens s h") (auto dest: sym)
  have "tk_FamilyID (revoke_if (\<lambda>t. tk_FamilyID t = f) at t) = tk_FamilyID t"
    by (simp add: revoke_if_def)
  then have "tk_FamilyID t = f" using token_core_fields(4) [OF t] t'(2) by simp
  then have "tk_RevokedAt (revoke_if (\<lambda>t. tk_FamilyID t = f) at t) \<noteq> None"
    by (cases "tk_RevokedAt t") (simp_all add: revoke_if_def)
  then show "tk_RevokedAt t' \<noteq> None" using token_core_fields(7) [OF t] by simp
qed

lemma reuse_kills_family:
  assumes "inv (w_store w)" and "Refresh lib svc p w = (Inl (Sentinel ErrRefreshReuse), w')"
  shows "\<exists>row. tokens (w_store w) (H p) = Some row \<and> dead_family (tk_FamilyID row) (w_store w')"
  using Refresh_spec [OF assms refl] revoked_dead by auto

text \<open>Presenting a token that was spent before is answered as reuse, unless the store fails.\<close>

lemma replay_is_reuse:
  assumes inv: "inv (w_store w)" and p: "p \<noteq> ''''"
    and row: "tokens (w_store w) (H p) = Some row" "tk_ConsumedAt row \<noteq> None"
      "tk_RevokedAt row = None" "rt_time (w_rt w) (rt_tick (w_rt w)) \<le> tk_ExpiresAt row"
  shows "fst (Refresh lib svc p w) = Inl (Sentinel ErrRefreshReuse) \<or>
    (\<exists>c. fst (Refresh lib svc p w) = Inl (fmtError ErrRefreshPersist c))"
proof -
  obtain f st where find: "rf_FindByHash rf (H p) (w_store w) = (f, st)"
    by (cases "rf_FindByHash rf (H p) (w_store w)")
  show ?thesis
  proof (cases f)
    case (Inl e)
    with tok_find_missing [OF inv, of "H p" e st] find row(1) have "\<not> IsNotFound e"
      by (auto simp: IsNotFound_def)
    with Inl p find show ?thesis by (auto simp: Refresh_def on_store_eq)
  next
    case (Inr t)
    with tok_find_found [OF inv] find row(1) have "t = row" by simp
    with Inr p find row show ?thesis
      by (auto simp: Refresh_def on_store_eq on_rt_eq time_now_def time_before_def
          split: prod.splits sum.splits)
  qed
qed

text \<open>
  A login that happened to draw the identifier of a dead family would give it a new token;
  the identifiers are 16 random bytes, and \<open>undrawn\<close> excludes it.
\<close>

lemma dead_later:
  assumes "dead_family f s" and "later s s'"
    and "\<And>h t. tokens s h = None \<Longrightarrow> tokens s' h = Some t \<Longrightarrow> tk_FamilyID t \<noteq> f"
  shows "dead_family f s'"
  unfolding dead_family_def
proof (intro allI impI)
  fix h t'
  assume t': "tokens s' h = Some t'" "tk_FamilyID t' = f"
  with assms(3) [of h t'] obtain t where "tokens s h = Some t" by (cases "tokens s h") auto
  moreover from this assms(2) t'(1) have "evolves t t'"
    unfolding later_def by (metis option.inject)
  ultimately show "tk_RevokedAt t' \<noteq> None"
    using dead_familyD [OF assms(1)] t'(2) unfolding evolves_def by metis
qed

lemma core_None: "core s h = None \<longleftrightarrow> tokens s h = None"
  by (simp add: core_def)

lemma dead_Refresh:
  assumes "inv (w_store w)" and "dead_family f (w_store w)" and "Refresh lib svc p w = (r, w')"
  shows "dead_family f (w_store w')"
proof (rule dead_later [OF assms(2)])
  show "later (w_store w) (w_store w')" using Refresh_later [OF assms(1,3)] by simp
next
  fix h t'
  assume new: "tokens (w_store w) h = None" "tokens (w_store w') h = Some t'"
  note spec = Refresh_spec [OF assms(1,3) refl]
  show "tk_FamilyID t' \<noteq> f"
  proof (cases r)
    case (Inl e)
    have "core (w_store w') h \<noteq> None" using new(2) by (simp add: core_def)
    with Inl spec new have False by (auto simp: revoked_family_def split: if_splits)
    then show ?thesis ..
  next
    case (Inr pr)
    with spec obtain row t now where rot: "tokens (w_store w) (H p) = Some row" "tk_active row"
        "core (w_store w') = (core (w_store w))
           (H p \<mapsto> token_core (row\<lparr>tk_ConsumedAt := Some now\<rparr>),
            H (tp_RefreshToken pr) \<mapsto> token_core t)" "tk_FamilyID t = tk_FamilyID row"
      by auto
    have "core (w_store w') h = Some (token_core t')" using new(2) by (simp add: core_def)
    with rot(1,3) new(1) have "token_core t' = token_core t"
      by (auto simp: core_def split: if_splits)
    from token_core_fields(4) [OF this] rot(4) have "tk_FamilyID t' = tk_FamilyID row" by simp
    with dead_familyD [OF assms(2) rot(1)] rot(2) show ?thesis by (auto simp: tk_active_def)
  qed
qed

lemma dead_run:
  assumes "inv (w_store w)" and "dead_family f (w_store w)" and "undrawn lib svc f [op] w"
  shows "dead_family f (w_store (run_auth lib svc op w))"
proof (cases op)
  case (RefreshOp p)
  with dead_Refresh [OF assms(1,2), of p "fst (Refresh lib svc p w)" "snd (Refresh lib svc p w)"]
  show ?thesis by simp
next
  case (LoginOp n p)
  obtain r w' where run: "Login lib svc n p w = (r, w')" by (cases "Login lib svc n p w")
  from Login_spec [OF assms(1) run] Login_later [OF assms(1) run] assms(2,3) LoginOp run show ?thesis
    by (cases r) (auto intro!: dead_later [OF assms(2)] later_tokens split: if_splits)
next
  case (LogoutOp uid p jti exp)
  obtain r w' where run: "Logout lib svc uid p jti exp w = (r, w')"
    by (cases "Logout lib svc uid p jti exp w")
  have "tokens (w_store w') h = None" if "tokens (w_store w) h = None" for h
  proof (cases r)
    case (Inl e)
    with Logout_spec [OF assms(1) run refl] that show ?thesis by simp
  next
    case (Inr x)
    with Logout_spec [OF assms(1) run refl] that have "core (w_store w') h = None" by simp
    then show ?thesis by (simp add: core_None)
  qed
  with Logout_later [OF assms(1) run] LogoutOp run show ?thesis
    by (auto intro!: dead_later [OF assms(2)])
next
  case (RegisterOp n p)
  obtain r w' where run: "Register lib svc n p w = (r, w')" by (cases "Register lib svc n p w")
  from Register_spec [OF assms(1) run] RegisterOp run assms(2) show ?thesis
    by (simp add: dead_family_def)
qed

lemma dead_forever:
  assumes "inv (w_store w)" and "dead_family f (w_store w)" and "undrawn lib svc f ops w"
  shows "dead_family f (w_store (fold (run_auth lib svc) ops w))"
  using assms
proof (induction ops arbitrary: w)
  case (Cons op ops)
  with run_auth_later [OF Cons.prems(1), of op] dead_run [OF Cons.prems(1,2), of op]
  show ?case by simp
qed simp

lemma dead_refused:
  assumes "inv (w_store w)" and "dead_family f (w_store w)" and "undrawn lib svc f ops w"
    and "w' = fold (run_auth lib svc) ops w"
    and "tokens (w_store w') (H p) = Some row" and "tk_FamilyID row = f"
  shows "\<not> is_ok (fst (Refresh lib svc p w'))"
proof -
  have "\<not> tk_active row"
    using dead_forever [OF assms(1-3)] assms(4-6) by (auto simp: dead_family_def tk_active_def)
  then show ?thesis
    using inactive_forever [OF _ assms(5), of w' "[]"] run_auths_later [OF assms(1), of ops] assms(4)
    by simp
qed

end

end
