(* ===== verification/Auth_Wired.thy ===== *)
theory Auth_Wired
  imports Router_Authority Refresh_Life
begin

text \<open>
  The user service as the router builds it, over the SQL stores and the denylist of the
  environment: the contract of theory User_Service interpreted on the program's own
  definitions, and the life of refresh tokens (theory Refresh_Life) for that service.
\<close>

lemma router_users_eq:
  "router_users redis rt =
    \<lparr>uv_users = SQLCUserStore, uv_refresh = Some SQLCRefreshTokenStore,
     uv_denylist = NewTokenDenylistFromEnv redis rt\<rparr>"
  by (simp add: router_users_def NewUserHandler_def NewUserService_def)

interpretation router_auth: auth_service SQLCUserStore users_of pg_ok SQLCRefreshTokenStore
  tokens_of same_key "NewTokenDenylistFromEnv redis rt" lib "router_users redis rt" for redis rt lib
  by (intro auth_service.intro auth_service_axioms.intro sqlc_auth.auth_persistence_axioms
      router_denylist router_users_eq)

end
