(* ===== verification/Demo.thy ===== *)
theory Demo
  imports Auth_Tokens Pg_Laws
begin

text \<open>
  Concrete inputs for the properties: a cryptographic library that obeys \<open>jwt_laws\<close> (tokens
  are readable encodings of the algorithm, the key and the claims), a small database with two
  users, books and refresh tokens, and a run-time environment. None of it models code of the
  repository.
\<close>

section \<open>A library of readable tokens\<close>

definition hex_value :: "char \<Rightarrow> nat" where
  "hex_value c = (let n = of_char c in if n < 58 then n - 48 else n - 87)"

fun hex_decode :: "string \<Rightarrow> string" where
  "hex_decode (a # b # s) = char_of (16 * hex_value a + hex_value b) # hex_decode s"
| "hex_decode s = []"

lemma hex_value_digit: "n < 16 \<Longrightarrow> hex_value (hex_digit n) = n"
proof -
  have "\<forall>n \<in> set [0..<16]. hex_value (hex_digit n) = n" by code_simp
  then show "n < 16 \<Longrightarrow> hex_value (hex_digit n) = n" by simp
qed

lemma hex_decode_encode: "hex_decode (hex_encode s) = s"
proof (induction s)
  case (Cons c s)
  have "hex_encode (c # s) =
      hex_digit (of_char c div 16) # hex_digit (of_char c mod 16) # hex_encode s"
    by (simp add: hex_encode_def hex_byte_def Let_def)
  then show ?case using char_nat_div_16 [of c] Cons by (simp add: hex_value_digit)
qed (simp add: hex_encode_def)

definition demo_date :: "time option \<Rightarrow> string" where
  "demo_date t = (case t of None \<Rightarrow> '''' | Some t \<Rightarrow> show_int t)"

definition demo_undate :: "string \<Rightarrow> time option" where
  "demo_undate s = map_option int (parse_nat s)"

definition demo_alg :: "jwt_alg \<Rightarrow> string" where
  "demo_alg a = (case a of SigningMethodHS256 \<Rightarrow> ''h'' | SigningMethodOther n \<Rightarrow> ''o'' @ n)"

definition demo_unalg :: "string \<Rightarrow> jwt_alg" where
  "demo_unalg s = (if s = ''h'' then SigningMethodHS256 else SigningMethodOther (tl s))"

definition demo_fields :: "jwt_alg \<Rightarrow> string \<Rightarrow> Claims \<Rightarrow> string list" where
  "demo_fields alg key c =
     map hex_encode [demo_alg alg, key, cl_Username c, show_nat (unat (cl_UserID c)), cl_Role c,
       demo_date (cl_ExpiresAt c), demo_date (cl_IssuedAt c), cl_ID c]"

definition demo_token :: "jwt_alg \<Rightarrow> string \<Rightarrow> Claims \<Rightarrow> string" where
  "demo_token alg key c = join_with ''.'' (demo_fields alg key c)"

definition demo_read :: "string \<Rightarrow> (jwt_alg \<times> string \<times> Claims) option" where
  "demo_read tok =
     (case map hex_decode (split_on (CHR ''.'') tok) of
        [alg, key, name, uid, role, e, i, jti] \<Rightarrow>
          Some (demo_unalg alg, key,
            \<lparr>cl_Username = name, cl_UserID = (case ParseUint uid of None \<Rightarrow> 0 | Some n \<Rightarrow> of_nat n),
             cl_Role = role, cl_ExpiresAt = demo_undate e, cl_IssuedAt = demo_undate i, cl_ID = jti\<rparr>)
      | _ \<Rightarrow> None)"

definition demo_lib :: crypto_lib where
  "demo_lib =
     \<lparr>sha256_Sum256 = take 32,
      bcrypt_Generate = (\<lambda>pw cost rt.
        (if length pw > 72 then Inl (Sentinel ErrBcryptPasswordTooLong) else Inr (''$2a$'' @ pw), rt)),
      bcrypt_Compare = (\<lambda>h pw. h = ''$2a$'' @ pw),
      jwt_NumericDate = (\<lambda>t. t div second * second),
      jwt_SignedString = (\<lambda>alg key c. Inr (demo_token alg key c)),
      jwt_Parse = (\<lambda>now tok kf.
        case demo_read tok of
          None \<Rightarrow> Inl (ErrText ''token is malformed'')
        | Some (alg, key, c) \<Rightarrow>
            (case kf alg of
               Inl e \<Rightarrow> Inl (Prefixed ''token is unverifiable'' e)
             | Inr k \<Rightarrow>
                 if k \<noteq> key then Inl (ErrText ''signature is invalid'')
                 else (case cl_ExpiresAt c of
                         Some e \<Rightarrow> if now < e then Inr (True, c) else Inl (ErrText ''token is expired'')
                       | None \<Rightarrow> Inr (True, c))))\<rparr>"

lemma demo_dot_free: "CHR ''.'' \<notin> set (hex_encode s)"
  using set_hex_encode [of s] by (auto simp: hex_alphabet_def)

lemma demo_undate_date: "(\<And>t. d = Some t \<Longrightarrow> 0 \<le> t) \<Longrightarrow> demo_undate (demo_date d) = d"
  by (cases d) (simp_all add: demo_undate_def demo_date_def show_int_def parse_show_nat,
      simp add: parse_nat_def)

lemma demo_unalg_alg: "demo_unalg (demo_alg a) = a"
  by (cases a) (simp_all add: demo_unalg_def demo_alg_def)

lemma demo_uid: "(case ParseUint (show_nat (unat (u :: uint))) of None \<Rightarrow> 0 | Some n \<Rightarrow> of_nat n) = u"
proof -
  have "unat u \<le> max_uint64" using unsigned_less [of u, where ?'a = nat] by (simp add: max_uint64_def)
  then show ?thesis by (simp add: ParseUint_show_nat)
qed

lemma demo_read_token:
  assumes "jwt_plain c"
  shows "demo_read (demo_token alg key c) = Some (alg, key, c)"
proof -
  have split: "split_on (CHR ''.'') (demo_token alg key c) = demo_fields alg key c"
    unfolding demo_token_def by (rule split_join) (auto simp: demo_fields_def demo_dot_free)
  have dates: "demo_undate (demo_date (cl_ExpiresAt c)) = cl_ExpiresAt c"
      "demo_undate (demo_date (cl_IssuedAt c)) = cl_IssuedAt c"
    using assms by (auto simp: jwt_plain_def intro!: demo_undate_date)
  show ?thesis
    by (simp add: demo_read_def split demo_fields_def hex_decode_encode demo_unalg_alg demo_uid dates)
qed

text \<open>The tokens of the library: those that read as the given content.\<close>

definition demo_genuine :: "jwt_alg \<Rightarrow> string \<Rightarrow> string \<Rightarrow> Claims \<Rightarrow> bool" where
  "demo_genuine alg key tok c \<longleftrightarrow> demo_read tok = Some (alg, key, c)"

lemma demo_laws: "jwt_laws demo_lib demo_genuine"
proof -
  have parse: "kf alg = Inr key \<and> demo_genuine alg key tok c \<and> (\<forall>e. cl_ExpiresAt c = Some e \<longrightarrow> now < e)"
    if "jwt_Parse demo_lib now tok kf = Inr (True, c)" "demo_read tok = Some (alg, key, c')"
    for now tok kf c alg key c'
    using that by (auto simp: demo_lib_def demo_genuine_def split: sum.splits if_splits option.splits)
  have some: "demo_read tok \<noteq> None" if "jwt_Parse demo_lib now tok kf = Inr (True, c)" for now tok kf c
    using that by (auto simp: demo_lib_def split: option.splits)
  have sign: "jwt_Parse demo_lib now (demo_token alg key c) kf = Inr (True, c)"
    if "jwt_plain c" "kf alg = Inr key" "cl_ExpiresAt c = Some e" "now < e" for now alg key c kf e
    using that demo_read_token [OF that(1), of alg key] by (simp add: demo_lib_def)
  show ?thesis
    unfolding jwt_laws_def
  proof (intro conjI allI impI)
    show "jwt_NumericDate demo_lib t = t div second * second" for t by (simp add: demo_lib_def)
  next
    fix now tok kf c assume p: "jwt_Parse demo_lib now tok kf = Inr (True, c)"
    obtain alg key c' where r: "demo_read tok = Some (alg, key, c')" using some [OF p] by auto
    from parse [OF p r] show "\<exists>alg key. kf alg = Inr key \<and> demo_genuine alg key tok c" by blast
    fix e assume "cl_ExpiresAt c = Some e"
    with parse [OF p r] show "now < e" by blast
  next
    fix alg key c tok assume "jwt_SignedString demo_lib alg key c = Inr tok" "jwt_plain c"
    then have t: "tok = demo_token alg key c" "demo_read tok = Some (alg, key, c)"
      by (auto simp: demo_lib_def demo_read_token)
    then show "demo_genuine alg key tok c" by (simp add: demo_genuine_def)
    fix now e and kf :: "jwt_alg \<Rightarrow> go_error + string" assume "kf alg = Inr key" "cl_ExpiresAt c = Some e" "now < e"
    with t(1) sign [OF \<open>jwt_plain c\<close>] show "jwt_Parse demo_lib now tok kf = Inr (True, c)" by blast
  qed
qed

section \<open>A small database\<close>

definition demo_user :: "int \<Rightarrow> string \<Rightarrow> string \<Rightarrow> string \<Rightarrow> user_row" where
  "demo_user i name pw role =
     \<lparr>ur_ID = i, ur_Username = name, ur_Password = ''$2a$'' @ pw, ur_Role = role,
      ur_CreatedAt = 0, ur_UpdatedAt = 0\<rparr>"

definition demo_book :: "int \<Rightarrow> int \<Rightarrow> string \<Rightarrow> string \<Rightarrow> book_row" where
  "demo_book i own title author =
     \<lparr>br_ID = i, br_OwnerID = own, br_Title = title, br_Author = author, br_CreatedAt = 0,
      br_UpdatedAt = 0\<rparr>"

text \<open>
  A token of the user for the plaintext \<open>p\<close>, which is short: \<open>hex_encode p\<close> is its hash
  under \<open>demo_lib\<close>.
\<close>

definition demo_tok :: "int \<Rightarrow> int \<Rightarrow> string \<Rightarrow> string \<Rightarrow> time option \<Rightarrow> token_row" where
  "demo_tok i uid p fam consumed =
     \<lparr>tr_ID = i, tr_UserID = uid, tr_TokenHash = hex_encode p, tr_FamilyID = fam,
      tr_ExpiresAt = 10 * hour, tr_ConsumedAt = consumed, tr_RevokedAt = None, tr_CreatedAt = 0,
      tr_UpdatedAt = 0\<rparr>"

definition demo_pg :: pg where
  "demo_pg =
     \<lparr>pg_books = [demo_book 1 1 ''Go'' ''Pike'', demo_book 2 2 ''C'' ''Ritchie''],
      pg_users = [demo_user 1 ''ann'' ''pw'' ''user'', demo_user 2 ''bob'' ''pw2'' ''admin''],
      pg_tokens = [demo_tok 1 1 ''r1'' ''f1'' None, demo_tok 2 1 ''r2'' ''f1'' (Some 1),
                   demo_tok 3 2 ''r3'' ''f2'' None],
      pg_books_seq = 3, pg_users_seq = 3, pg_tokens_seq = 4, pg_step = 0,
      pg_clock = (\<lambda>k. 1000), pg_fault = (\<lambda>k. None), pg_lower = (\<lambda>s. map lower_char s),
      pg_strxfrm = (\<lambda>s. s)\<rparr>"

lemma demo_pg_ok: "pg_ok demo_pg"
  by (simp add: pg_ok_def demo_pg_def key_ok_def demo_book_def demo_user_def demo_tok_def
      max_int64_def hex_encode_inj)

section \<open>A run-time environment\<close>

definition demo_rt :: go_rt where
  "demo_rt =
     \<lparr>rt_env = (\<lambda>name. ''''), rt_time = (\<lambda>k. 3600000000000 + 1000000000 * int k), rt_tick = 0,
      rt_rand = (\<lambda>k. Some (\<lambda>i. char_of (k + i))), rt_draw = 0\<rparr>"

definition demo_key :: string where "demo_key = replicate 32 (CHR ''k'')"

definition demo_obs :: observability where
  "demo_obs =
     \<lparr>ob_requests = (\<lambda>l. 0), ob_duration = (\<lambda>l. []), ob_inFlight = 0, ob_ch = [], ob_dropped = 0,
      ob_log = [], ob_spans = []\<rparr>"

definition demo_world :: "'s \<Rightarrow> 'r \<Rightarrow> 'p \<Rightarrow> ('s, 'r, 'p) world" where
  "demo_world s r p =
     \<lparr>w_store = s, w_redis = r, w_pub = p, w_rt = demo_rt, w_jwtkey = demo_key,
      w_apikey = demo_key, w_windows = (\<lambda>k. None), w_published = [], w_obs = demo_obs\<rparr>"

definition demo_pgworld :: "(pg, unit, unit) world" where
  "demo_pgworld = demo_world demo_pg () ()"

lemma TrimSpace_words: "TrimSpace '''' = ''''" "TrimSpace ''off'' = ''off''" "ToLower ''off'' = ''off''"
  by code_simp+

end
