(* ===== verification/Demo_Auth.thy ===== *)
theory Demo_Auth
  imports Auth_Wired Demo
begin

text \<open>
  Calls of the user service on the small database of theory Demo, evaluated: a login, a
  refresh of an active, a spent and an unknown token, a logout, a registration. Nothing here
  models code of the repository.
\<close>

abbreviation demo_svc :: "(pg, unit, unit) UserService" where
  "demo_svc \<equiv> router_users None demo_rt"

text \<open>The environment after some readings of the clock and some draws of random bytes.\<close>

definition demo_rt_at :: "nat \<Rightarrow> nat \<Rightarrow> go_rt" where
  "demo_rt_at i j = demo_rt\<lparr>rt_tick := i, rt_draw := j\<rparr>"

definition demo_opaque :: "nat \<Rightarrow> string" where
  "demo_opaque j = b64url_encode (map (\<lambda>i. char_of (j + i)) [0..<32])"

definition demo_family :: "nat \<Rightarrow> string" where
  "demo_family j = hex_encode (map (\<lambda>i. char_of (j + i)) [0..<16])"

lemma demo_lengths: "length (demo_opaque j) = 43" "length (demo_family j) = 32"
  by (simp_all add: demo_opaque_def demo_family_def length_b64url_encode length_hex_encode)

lemma demo_rt_at: "demo_rt = demo_rt_at 0 0"
  by (simp add: demo_rt_def demo_rt_at_def)

lemma demo_draws:
  "NewOpaqueToken (demo_rt_at i j) = (Inr (demo_opaque j), demo_rt_at i (Suc j))"
  "NewFamilyID (demo_rt_at i j) = (Inr (demo_family j), demo_rt_at i (Suc j))"
  "time_now (demo_rt_at i j) = (3600000000000 + 1000000000 * int i, demo_rt_at (Suc i) j)"
  by (simp_all add: NewOpaqueToken_def NewFamilyID_def rand_read_def demo_rt_at_def demo_rt_def
      demo_opaque_def demo_family_def refreshTokenBytes_def familyIDBytes_def time_now_def)

lemma demo_env_empty: "rt_env (demo_rt_at i j) n = ''''"
  by (simp add: demo_rt_at_def demo_rt_def)

lemma demo_ttl:
  "AccessTokenTTL (demo_rt_at i j) = 300000000000"
  "RefreshTokenTTL (demo_rt_at i j) = 604800000000000"
  by (simp_all add: AccessTokenTTL_def RefreshTokenTTL_def durationFromEnv_def demo_env_empty
      TrimSpace_words Let_def defaultAccessTokenTTL_def
      defaultRefreshTokenTTL_def minute_def hour_def second_def)

section \<open>Minting\<close>

lemma demo_generate:
  assumes "w_rt w = demo_rt_at i j" and "w_jwtkey w = demo_key" and "uid \<noteq> 0" and "ValidRole role"
  shows "\<exists>t. GenerateToken demo_lib n uid role w = (Inr t, w\<lparr>w_rt := demo_rt_at (Suc i) (Suc j)\<rparr>)"
  using assms
  by (simp add: GenerateToken_def MinJWTSecretKeyBytes_def demo_key_def on_rt_eq demo_draws demo_lib_def
      Let_def)

lemma demo_mint:
  assumes "w_rt w = demo_rt_at i j" and "w_jwtkey w = demo_key" and "u_ID u \<noteq> 0" and "ValidRole (u_Role u)"
  shows "\<exists>t. mint demo_lib u w =
    (Inr (t, demo_opaque (Suc j)), w\<lparr>w_rt := demo_rt_at (Suc i) (Suc (Suc j))\<rparr>)"
  using demo_generate [OF assms, of "u_Username u"] assms(4)
  by (auto simp: mint_def on_rt_eq demo_draws)

definition demo_at :: "pg \<Rightarrow> nat \<Rightarrow> nat \<Rightarrow> (pg, unit, unit) world" where
  "demo_at s i j = demo_pgworld\<lparr>w_store := s, w_rt := demo_rt_at i j\<rparr>"

lemma demo_at_simps [simp]:
  "w_store (demo_at s i j) = s" "w_rt (demo_at s i j) = demo_rt_at i j" "w_jwtkey (demo_at s i j) = demo_key"
  "demo_at s i j\<lparr>w_store := s'\<rparr> = demo_at s' i j" "demo_at s i j\<lparr>w_rt := demo_rt_at i' j'\<rparr> = demo_at s i' j'"
  by (simp_all add: demo_at_def demo_pgworld_def demo_world_def)

lemma demo_pgworld_at: "demo_pgworld = demo_at demo_pg 0 0"
  by (simp add: demo_at_def demo_pgworld_def demo_world_def demo_rt_at)

lemma demo_hash: "HashRefreshToken demo_lib p = hex_encode (take 32 p)"
  by (simp add: HashRefreshToken_def demo_lib_def)

lemma demo_take: "length p = 43 \<Longrightarrow> length q < 32 \<Longrightarrow> take 32 p \<noteq> q"
  by auto

section \<open>Refresh\<close>

lemma demo_ids: "uint_of_int64 1 = 1" "uint_of_int64 2 = 2" "toInt64 1 = 1" "toInt64 2 = 2"
  by (simp_all add: uint_of_int64_def toInt64_def max_int64_def)

definition demo_db :: "nat \<Rightarrow> pg" where
  "demo_db k = demo_pg\<lparr>pg_step := k\<rparr>"

lemma demo_db_0: "demo_pg = demo_db 0"
  by (simp add: demo_db_def demo_pg_def)

lemmas demo_rows = userFromDB_def demo_user_def refreshFromDB_def demo_tok_def demo_ids

lemma demo_finds:
  "store_FindByHash (hex_encode ''r1'') (demo_db k) = (Inr (refreshFromDB (demo_tok 1 1 ''r1'' ''f1'' None)), demo_db (Suc k))"
  "store_FindByHash (hex_encode ''r2'') (demo_db k) = (Inr (refreshFromDB (demo_tok 2 1 ''r2'' ''f1'' (Some 1))), demo_db (Suc k))"
  "store_FindByID 1 (demo_db k) = (Inr (userFromDB (demo_user 1 ''ann'' ''pw'' ''user'')), demo_db (Suc k))"
  "store_FindByUsername ''ann'' (demo_db k) = (Inr (userFromDB (demo_user 1 ''ann'' ''pw'' ''user'')), demo_db (Suc k))"
  by (simp_all add: store_FindByHash_def store_FindByID_def store_FindByUsername_def pg_stmts pg_exec_def
      demo_db_def demo_pg_def query_row_def sql_first_def demo_rows hex_encode_inj)

lemma demo_rotate:
  assumes "length p = 43"
  shows "\<exists>t s. store_RotateAtomically 1 now (newToken 1 (hex_encode (take 32 p)) ''f1'' e) (demo_db k) = (Inr t, s)"
  using assms
  by (simp add: store_RotateAtomically_def pg_stmts pg_exec_def demo_db_def demo_pg_def newToken_def tokenParams_def
      demo_rows sql_count_def sql_update_def token_active_def length_hex_encode max_int64_def hex_encode_inj Let_def demo_take)

lemma demo_refresh:
  "\<exists>pr s. Refresh demo_lib demo_svc ''r1'' demo_pgworld = (Inr pr, demo_at s 2 2)"
proof -
  let ?u = "userFromDB (demo_user 1 ''ann'' ''pw'' ''user'')"
  obtain t where m: "mint demo_lib ?u (demo_at (demo_db 2) 1 0) = (Inr (t, demo_opaque 1), demo_at (demo_db 2) 2 2)"
    using demo_mint [of "demo_at (demo_db 2) 1 0" 1 0 ?u]
    by (auto simp: demo_rows ValidRole_def RoleUser_def numeral_2_eq_2)
  obtain x s where r: "store_RotateAtomically 1 3600000000000
      (newToken 1 (hex_encode (take 32 (demo_opaque 1))) ''f1'' (time_add 3600000000000 604800000000000)) (demo_db 2) = (Inr x, s)"
    using demo_rotate [OF demo_lengths(1)] by blast
  show ?thesis
    unfolding demo_pgworld_at demo_db_0 Refresh_def rotate_mint router_users_eq
    using m r
    by (simp add: SQLCRefreshTokenStore_def SQLCUserStore_def on_store_eq on_rt_eq demo_hash demo_finds demo_draws
      demo_rows time_before_def demo_ttl hour_def Let_def split_def numeral_2_eq_2) blast
qed

section \<open>Login, logout, registration\<close>

lemma demo_bcrypt:
  "bcrypt_Compare demo_lib ''$2a$pw'' ''pw''"
  "HashPassword demo_lib ''secret'' (demo_rt_at i j) = (Inr ''$2a$secret'', demo_rt_at i j)"
  by (simp_all add: HashPassword_def demo_lib_def)

lemma demo_writes:
  "\<exists>s. store_RevokeFamily f now (demo_db k) = (Inr (), s)"
  "\<exists>s. store_RevokeAllForUser i now (demo_db k) = (Inr (), s)"
  "\<exists>u s. store_CreateUser (newUser ''eve'' h) (demo_db k) = (Inr u, s)"
  by (simp_all add: store_RevokeFamily_def store_RevokeAllForUser_def store_CreateUser_def pg_stmts
      pg_exec_def demo_db_def demo_pg_def newUser_def RoleUser_def EffectiveRole_def demo_rows max_int64_def Let_def)

lemma demo_create:
  assumes "length p = 43" and "length f \<le> 64"
  shows "\<exists>t s. store_CreateToken (newToken 1 (hex_encode (take 32 p)) f e) (demo_db k) = (Inr t, s)"
  using assms
  by (simp add: store_CreateToken_def pg_stmts pg_exec_def demo_db_def demo_pg_def newToken_def tokenParams_def
      demo_rows length_hex_encode max_int64_def hex_encode_inj Let_def demo_take)

lemma demo_login:
  "\<exists>pr s. Login demo_lib demo_svc ''ann'' ''pw'' demo_pgworld = (Inr pr, demo_at s 2 3)"
proof -
  let ?u = "userFromDB (demo_user 1 ''ann'' ''pw'' ''user'')"
  obtain t where m: "mint demo_lib ?u (demo_at (demo_db 1) 0 1) = (Inr (t, demo_opaque 2), demo_at (demo_db 1) 1 3)"
    using demo_mint [of "demo_at (demo_db 1) 0 1" 0 1 ?u]
    by (auto simp: demo_rows ValidRole_def RoleUser_def numeral_2_eq_2 numeral_3_eq_3)
  obtain x s where r: "store_CreateToken
      (newToken 1 (hex_encode (take 32 (demo_opaque 2))) (demo_family 0) (time_add 3601000000000 604800000000000))
      (demo_db 1) = (Inr x, s)"
    using demo_create [OF demo_lengths(1)] demo_lengths(2) [of 0] by fastforce
  show ?thesis
    unfolding demo_pgworld_at demo_db_0 Login_def issueTokenPair_def issue_mint router_users_eq
    using m r
    by (simp add: SQLCRefreshTokenStore_def SQLCUserStore_def on_store_eq on_rt_eq demo_hash demo_finds demo_draws
      demo_rows demo_ttl demo_bcrypt Let_def split_def numeral_2_eq_2 numeral_3_eq_3) blast
qed

lemma demo_logout:
  assumes "p \<in> {'''', ''r1''}"
  shows "\<exists>s. Logout demo_lib demo_svc 1 p '''' time_zero demo_pgworld = (Inr (), demo_at s 1 0)"
proof -
  obtain s1 s2 where "store_RevokeFamily ''f1'' 3600000000000 (demo_db 1) = (Inr (), s1)"
      "store_RevokeAllForUser 1 3600000000000 (demo_db 0) = (Inr (), s2)"
    using demo_writes(1,2) by metis
  with assms show ?thesis
    by (auto simp: demo_pgworld_at demo_db_0 Logout_def logoutTokens_def router_users_eq on_store_eq on_rt_eq
      SQLCRefreshTokenStore_def demo_draws demo_hash demo_finds demo_rows Let_def split_def
      NewTokenDenylistFromEnv_def NoopDenylist_def)
qed

lemma demo_register:
  "\<exists>s. Register demo_lib demo_svc ''eve'' ''secret'' demo_pgworld = (Inr (), demo_at s 0 0)"
proof -
  obtain u s where "store_CreateUser (newUser ''eve'' ''$2a$secret'') (demo_db 0) = (Inr u, s)"
    using demo_writes(3) by blast
  then show ?thesis
    by (simp add: demo_pgworld_at demo_db_0 Register_def router_users_eq on_store_eq on_rt_eq demo_bcrypt
      SQLCUserStore_def) blast
qed

end
