(* ===== verification/Demo_Http.thy ===== *)
theory Demo_Http
  imports Demo_Auth
begin

text \<open>
  A concrete engine for the properties of the HTTP stack: the router built over libraries that
  pass everything on, without Redis and without a publisher, and requests to it. None of it
  models code of the repository.
\<close>

text \<open>
  Two short bearer texts stand for tokens of the two users under the configured key; all others
  are those of \<open>demo_lib\<close>.
\<close>

definition demo_claims :: "uint \<Rightarrow> string \<Rightarrow> Claims" where
  "demo_claims uid role =
     \<lparr>cl_Username = ''u'', cl_UserID = uid, cl_Role = role, cl_ExpiresAt = None, cl_IssuedAt = None,
      cl_ID = ''''\<rparr>"

definition demo_http_lib :: crypto_lib where
  "demo_http_lib = demo_lib
     \<lparr>jwt_Parse := (\<lambda>now tok kf.
        if tok = ''ann'' \<and> kf SigningMethodHS256 = Inr demo_key then Inr (True, demo_claims 1 ''user'')
        else if tok = ''bob'' \<and> kf SigningMethodHS256 = Inr demo_key then Inr (True, demo_claims 2 ''admin'')
        else jwt_Parse demo_lib now tok kf)\<rparr>"

definition demo_http_genuine :: "jwt_alg \<Rightarrow> string \<Rightarrow> string \<Rightarrow> Claims \<Rightarrow> bool" where
  "demo_http_genuine alg key tok c \<longleftrightarrow> demo_genuine alg key tok c \<or>
     alg = SigningMethodHS256 \<and> key = demo_key \<and>
       (tok = ''ann'' \<and> c = demo_claims 1 ''user'' \<or> tok = ''bob'' \<and> c = demo_claims 2 ''admin'')"

lemma demo_http_laws: "jwt_laws demo_http_lib demo_http_genuine"
proof -
  have shape: "tok \<noteq> ''ann'' \<and> tok \<noteq> ''bob''" if "jwt_SignedString demo_http_lib alg key c = Inr tok" for alg key c tok
  proof -
    have "tok = demo_token alg key c" using that by (simp add: demo_http_lib_def demo_lib_def)
    moreover have "CHR ''.'' \<in> set (demo_token alg key c)" by (simp add: demo_token_def demo_fields_def)
    ultimately show ?thesis by auto
  qed
  have same: "jwt_NumericDate demo_http_lib = jwt_NumericDate demo_lib"
      "jwt_SignedString demo_http_lib = jwt_SignedString demo_lib" by (simp_all add: demo_http_lib_def)
  have parse: "jwt_Parse demo_http_lib now tok kf = jwt_Parse demo_lib now tok kf"
    if "tok \<noteq> ''ann''" "tok \<noteq> ''bob''" for now tok and kf :: "jwt_alg \<Rightarrow> go_error + string"
    using that by (simp add: demo_http_lib_def)
  note old = demo_laws [unfolded jwt_laws_def]
  show ?thesis
    unfolding jwt_laws_def
  proof (intro conjI allI impI)
    show "jwt_NumericDate demo_http_lib t = t div second * second" for t using old by (simp add: same)
  next
    fix now tok and kf :: "jwt_alg \<Rightarrow> go_error + string" and c
    assume p: "jwt_Parse demo_http_lib now tok kf = Inr (True, c)"
    consider "jwt_Parse demo_lib now tok kf = Inr (True, c)"
      | "tok = ''ann''" "kf SigningMethodHS256 = Inr demo_key" "c = demo_claims 1 ''user''"
      | "tok = ''bob''" "kf SigningMethodHS256 = Inr demo_key" "c = demo_claims 2 ''admin''"
    proof (cases "tok = ''ann'' \<and> kf SigningMethodHS256 = Inr demo_key")
      case True
      with p have "c = demo_claims 1 ''user''" by (simp add: demo_http_lib_def)
      with True that(2) show thesis by blast
    next
      case ann: False
      show thesis
      proof (cases "tok = ''bob'' \<and> kf SigningMethodHS256 = Inr demo_key")
        case True
        with p have "c = demo_claims 2 ''admin''" by (simp add: demo_http_lib_def)
        with True that(3) show thesis by blast
      next
        case False
        have "jwt_Parse demo_http_lib now tok kf = jwt_Parse demo_lib now tok kf"
          by (simp add: demo_http_lib_def if_not_P [OF ann] if_not_P [OF False] del: de_Morgan_conj)
        with p have "jwt_Parse demo_lib now tok kf = Inr (True, c)" by simp
        then show thesis by (rule that(1))
      qed
    qed
    then have "(\<exists>alg key. kf alg = Inr key \<and> demo_http_genuine alg key tok c) \<and>
        (\<forall>e. cl_ExpiresAt c = Some e \<longrightarrow> now < e)"
    proof cases
      case 1
      with old [THEN conjunct2, THEN conjunct1, rule_format, OF 1] show ?thesis by (auto simp: demo_http_genuine_def)
    qed (auto simp: demo_http_genuine_def demo_claims_def)
    then show "\<exists>alg key. kf alg = Inr key \<and> demo_http_genuine alg key tok c"
      "\<And>e. cl_ExpiresAt c = Some e \<Longrightarrow> now < e" by blast+
  next
    fix alg key c tok
    assume s: "jwt_SignedString demo_http_lib alg key c = Inr tok" and plain: "jwt_plain c"
    note new = old [THEN conjunct2, THEN conjunct2, rule_format, OF s [unfolded same] plain]
    show "demo_http_genuine alg key tok c" using new by (simp add: demo_http_genuine_def)
    fix now e and kf :: "jwt_alg \<Rightarrow> go_error + string"
    assume "kf alg = Inr key" "cl_ExpiresAt c = Some e" "now < e" "\<forall>i. cl_IssuedAt c = Some i \<longrightarrow> i \<le> now"
    with new parse shape [OF s] show "jwt_Parse demo_http_lib now tok kf = Inr (True, c)" by simp
  qed
qed

definition demo_json :: json_lib where
  "demo_json = \<lparr>json_Marshal = (\<lambda>bs. Inr ''''), json_Unmarshal = (\<lambda>s. Inr [])\<rparr>"

definition demo_binders :: binders where
  "demo_binders =
     \<lparr>bind_CreateBook = (\<lambda>c. Inr \<lparr>cb_Title = ''T'', cb_Author = ''A''\<rparr>),
      bind_ReplaceBook = (\<lambda>c. Inr \<lparr>rb_Title = ''T'', rb_Author = ''A''\<rparr>),
      bind_PatchBook = (\<lambda>c. Inr \<lparr>pb_Title = Some ''T'', pb_Author = None\<rparr>),
      bind_LoginUser = (\<lambda>c. Inr \<lparr>lu_Username = ''ann'', lu_Password = ''pw''\<rparr>),
      bind_RefreshRequest = (\<lambda>c. Inr \<lparr>rr_RefreshToken = ''r1''\<rparr>),
      bind_LogoutRequest = (\<lambda>c. Inl (Sentinel ErrEOF))\<rparr>"

definition demo_libs :: "('r, 'p) libs" where
  "demo_libs =
     \<lparr>lb_crypto = demo_http_lib, lb_json = demo_json, lb_binders = demo_binders,
      lb_lower = map lower_char, lb_otel = (\<lambda>c. None), lb_SetTrustedProxies = (\<lambda>ps. None),
      lb_ReleaseMode = False, lb_Security = (\<lambda>next. next), lb_Xss = (\<lambda>next. next),
      lb_Cors = (\<lambda>next. next), lb_Swagger = (\<lambda>c w. (c, w)), lb_promhttp = (\<lambda>c w. (c, w))\<rparr>"

lemma demo_libs_transparent: "libs_transparent demo_libs"
proof -
  have "transparent (\<lambda>next. next)"
    by (rule transparent_through) (auto intro: redis_only_refl same_request_refl)
  then show ?thesis by (simp add: libs_transparent_def demo_libs_def)
qed

definition demo_pings :: pings where
  "demo_pings = \<lparr>pi_db = Some None, pi_redis = None, pi_mongo = None\<rparr>"

text \<open>The environment of the engine: defaults, with metrics and the rate limiter switched off.\<close>

definition demo_off :: go_rt where
  "demo_off = demo_rt\<lparr>rt_env := (\<lambda>n. if n \<in> {''RATE_LIMIT_ENABLED'', ''METRICS_ENABLED''} then ''off'' else '''')\<rparr>"

lemma demo_env: "rt_env demo_off n = (if n \<in> {''RATE_LIMIT_ENABLED'', ''METRICS_ENABLED''} then ''off'' else '''')"
  by (simp add: demo_off_def)

lemma demo_metrics: "\<not> mc_Enabled (ms_cfg (MetricsFromEnv demo_off))"
  by (simp add: MetricsFromEnv_def NewMetrics_def MetricsConfigFromEnv_def demo_env TrimSpace_words
      DefaultMetricsPath_def del: ToLower.simps)

lemma demo_limit: "maxRequestBodyBytesFromEnv demo_off = Inr DefaultMaxRequestBodyBytes"
  by (simp add: maxRequestBodyBytesFromEnv_def demo_env TrimSpace_words)

lemma demo_router:
  "\<exists>r. NewRouter demo_libs demo_pings False redis publisher demo_off = Inr r"
proof (rule NewRouter_ok [OF _ demo_limit])
  show "lb_SetTrustedProxies demo_libs (trustedProxyList demo_off) = None" by (simp add: demo_libs_def)
  show "distinct (router_paths demo_off)" by (simp add: router_paths_def demo_metrics)
qed

section \<open>A request\<close>

definition demo_request :: "string \<Rightarrow> string \<Rightarrow> (string \<Rightarrow> string) \<Rightarrow> gin_ctx" where
  "demo_request method path header =
     \<lparr>g_Method = method, g_FullPath = path, g_URLPath = path, g_Host = '''', g_TLS = False,
      g_UserAgent = '''', g_GetHeader = header, g_Param = (\<lambda>n. ''1''), g_GetQuery = (\<lambda>n. None),
      g_ClientIP = '''', g_ContentLength = 0, g_MaxBytes = None, g_CtxErr = None, g_Timeout = None,
      g_CtxRequestID = None, g_CtxSpan = None, g_Keys = (\<lambda>k. None), g_Status = 200, g_Body = NoBody,
      g_Headers = (\<lambda>k. None), g_Aborted = False\<rparr>"

definition demo_header :: "string \<Rightarrow> string \<Rightarrow> string" where
  "demo_header user n =
     (if n = ''X-API-Key'' then demo_key else if n = ''Authorization'' then ''Bearer '' @ user
      else if n = ''X-Request-Id'' then ''q'' else '''')"

definition demo_key_only :: "string \<Rightarrow> string" where
  "demo_key_only n = (if n = ''X-API-Key'' then demo_key else '''')"

text \<open>The global middlewares let a small request through, whatever follows.\<close>

definition lets :: "('s, 'r, 'p) middleware \<Rightarrow> bool" where
  "lets m \<longleftrightarrow> (\<forall>next c w. g_ContentLength c = 0 \<longrightarrow>
     (\<exists>c1 w1. g_ContentLength c1 = 0 \<and> same_request c c1 \<and> quiet w w1 \<and>
        quiet (snd (next c1 w1)) (snd (m next c w)) \<and> g_Body (fst (m next c w)) = g_Body (fst (next c1 w1))))"

lemma letsI:
  assumes "\<And>next c w. g_ContentLength c = 0 \<Longrightarrow> \<exists>c1 w1. g_ContentLength c1 = 0 \<and> same_request c c1 \<and>
    quiet w w1 \<and> m next c w = next c1 w1"
  shows "lets m"
  unfolding lets_def using assms by (metis redis_only_refl)

lemma lets_idle:
  "lets (metrics_Middleware (Some (MetricsFromEnv demo_off)))" "lets (RateLimiterFromEnv None demo_off)"
  "lets (\<lambda>next. next)"
  by (rule letsI, rule exI, rule exI, auto simp: metrics_Middleware_def demo_metrics
      RateLimiterFromEnv_def ClientRateLimiter_def RateLimitConfigFromEnv_def demo_env TrimSpace_words
      rateLimitStoreFor_def Let_def simp del: ToLower.simps)+

lemma lets_body: "lets (MaxRequestBody DefaultMaxRequestBodyBytes)"
proof (rule letsI)
  fix nxt :: "('s, 'r, 'p) handler" and c :: gin_ctx and w :: "('s, 'r, 'p) world"
  assume "g_ContentLength c = 0"
  then show "\<exists>c1 w1. g_ContentLength c1 = 0 \<and> same_request c c1 \<and> quiet w w1 \<and>
      MaxRequestBody DefaultMaxRequestBodyBytes nxt c w = nxt c1 w1"
    by (intro exI [where x = "if g_Method c \<in> {''POST'', ''PUT'', ''PATCH''}
          then c\<lparr>g_MaxBytes := Some DefaultMaxRequestBodyBytes\<rparr> else c"] exI [where x = w])
      (auto simp: MaxRequestBody_def DefaultMaxRequestBodyBytes_def same_request_def)
qed

lemma lets_id: "lets RequestID"
proof (rule letsI)
  fix nxt :: "('s, 'r, 'p) handler" and c :: gin_ctx and w :: "('s, 'r, 'p) world"
  assume "g_ContentLength c = 0"
  let ?h = "TrimSpace (g_GetHeader c RequestIDHeader)"
  let ?rw = "if ?h = '''' then on_rt newRequestID w else (?h, w)"
  let ?rid = "if fst ?rw = '''' then ''unknown'' else fst ?rw"
  show "\<exists>c1 w1. g_ContentLength c1 = 0 \<and> same_request c c1 \<and> quiet w w1 \<and> RequestID nxt c w = nxt c1 w1"
    using \<open>g_ContentLength c = 0\<close> rt_redis_only [OF newRequestID_only [of w]]
    by (intro exI [where x = "(set_header RequestIDHeader ?rid (set_key requestIDGinKey (VStr ?rid) c))
          \<lparr>g_CtxRequestID := Some ?rid\<rparr>"] exI [where x = "snd ?rw"])
      (simp add: RequestID_def Let_def same_request_def set_header_def set_key_def split: prod.splits)
qed

lemma lets_tracing: "lets (Tracing otel)"
  unfolding lets_def
  by (intro allI impI, rule_tac x = "c\<lparr>g_CtxSpan := otel c\<rparr>" in exI, rule_tac x = w in exI)
    (simp add: same_request_def Tracing_def Let_def case_prod_unfold on_obs_quiet)

lemma lets_logger: "lets (Logger False)"
  unfolding lets_def
  by (intro allI impI, rule_tac x = c in exI, rule_tac x = "snd (on_rt time_now w)" in exI)
    (auto simp: Logger_def Let_def case_prod_unfold rt_quiet intro!: quiet_steps)

lemma lets_deadline: "lets (RequestContextTimeoutFromEnv demo_off)"
  by (rule letsI, rule_tac x = "if requestContextTimeoutDurationFromEnv demo_off \<le> 0 then c
        else c\<lparr>g_Timeout := Some (requestContextTimeoutDurationFromEnv demo_off)\<rparr>" in exI,
      rule_tac x = w in exI)
    (simp add: RequestContextTimeoutFromEnv_def RequestContextTimeout_def same_request_def)

lemma lets_all: "\<forall>m \<in> set (router_use demo_libs False None demo_off DefaultMaxRequestBodyBytes @
    [RequestContextTimeoutFromEnv demo_off]). lets m"
  by (simp add: router_use_def demo_libs_def lets_idle lets_body lets_id lets_tracing lets_logger
      lets_deadline)

lemma lets_chain:
  assumes "\<forall>m \<in> set ms. lets m" and "g_ContentLength c = 0"
  shows "\<exists>c1 w1. same_request c c1 \<and> quiet w w1 \<and> quiet (snd (chain rest h c1 w1)) (snd (chain (ms @ rest) h c w)) \<and>
    g_Body (fst (chain (ms @ rest) h c w)) = g_Body (fst (chain rest h c1 w1))"
  using assms
proof (induction ms arbitrary: c w)
  case Nil
  show ?case by (rule exI [of _ c], rule exI [of _ w]) simp
next
  case (Cons m ms)
  let ?in = "chain (ms @ rest) h" and ?out = "chain ((m # ms) @ rest) h c w"
  have "lets m" using Cons.prems by simp
  then obtain c1 w1 where o: "g_ContentLength c1 = 0" "same_request c c1" "quiet w w1"
      "quiet (snd (?in c1 w1)) (snd ?out)" "g_Body (fst ?out) = g_Body (fst (?in c1 w1))"
    unfolding lets_def using Cons.prems(2) by (metis append_Cons chain_simps(2))
  from Cons.IH [of c1 w1] Cons.prems o(1) obtain c2 w2 where i: "same_request c1 c2" "quiet w1 w2"
      "quiet (snd (chain rest h c2 w2)) (snd (?in c1 w1))"
      "g_Body (fst (?in c1 w1)) = g_Body (fst (chain rest h c2 w2))" by auto
  show ?case
    by (rule exI [of _ c2], rule exI [of _ w2], intro conjI)
      (rule same_request_trans [OF o(2) i(1)] redis_only_trans [OF o(3) i(2)]
        redis_only_trans [OF i(3) o(4)] trans [OF o(5) i(4)])+
qed

text \<open>A request of the user on a route behind both guards reaches its handler.\<close>

definition demo_user_id :: "string \<Rightarrow> uint" where
  "demo_user_id user = (if user = ''ann'' then 1 else 2)"

definition demo_user_role :: "string \<Rightarrow> string" where
  "demo_user_role user = (if user = ''ann'' then ''user'' else ''admin'')"

lemma demo_header_simps:
  "demo_header user ''X-API-Key'' = demo_key" "demo_header user ''Authorization'' = ''Bearer '' @ user"
  by (simp_all add: demo_header_def)

lemma demo_keys:
  "key_sizes (demo_request m p (demo_header user)) demo_pgworld"
  "key_presented (demo_request m p (demo_header user)) demo_pgworld"
  by (simp_all add: key_sizes_def key_presented_def demo_request_def demo_header_def demo_pgworld_def
      demo_world_def demo_key_def)

lemma demo_jwt:
  assumes "g_GetHeader c = demo_header user" and "w_jwtkey w = demo_key" and "user \<in> {''ann'', ''bob''}"
  shows "JWTAuth demo_http_lib NoopDenylist nxt c w =
    nxt (set_claims (demo_claims (demo_user_id user) (demo_user_role user)) c) (snd (on_rt time_now w))"
  using assms
  by (auto simp: JWTAuth_def JWTKeyFunc_def demo_header_def BearerSchema_def starts_with_iff JWTSigningKey_def
      MinJWTSecretKeyBytes_def demo_key_def demo_http_lib_def demo_claims_def demo_user_id_def demo_user_role_def
      denylist_check_def NoopDenylist_def Let_def split_def ValidRole_def RoleUser_def RoleAdmin_def)

lemma demo_served:
  assumes r: "NewRouter demo_libs demo_pings False None None demo_off = Inr r"
    and route: "(m, p, [APIKeyAuth, JWTAuth demo_http_lib NoopDenylist] @ mws, h)
      \<in> set (router_routes demo_libs None None demo_off)"
    and user: "user \<in> {''ann'', ''bob''}"
  obtains c2 w2 where "quiet demo_pgworld w2" "g_Param c2 = (\<lambda>n. ''1'')"
    "g_Keys c2 ContextUserID = Some (VUint (demo_user_id user))"
    "g_Keys c2 ContextRole = Some (VStr (demo_user_role user))" "g_Keys c2 ''username'' = Some (VStr ''u'')"
    "quiet (snd (chain mws h c2 w2))
       (snd (ServeHTTP r (demo_request m (''/api/v1'' @ p) (demo_header user)) demo_pgworld))"
    "g_Body (fst (ServeHTTP r (demo_request m (''/api/v1'' @ p) (demo_header user)) demo_pgworld)) =
       g_Body (fst (chain mws h c2 w2))"
proof -
  let ?c = "demo_request m (''/api/v1'' @ p) (demo_header user)" and ?w = demo_pgworld
  let ?gs = "[APIKeyAuth, JWTAuth demo_http_lib NoopDenylist] @ mws"
  have "(g_Method ?c, p, ?gs, h) \<in> set (router_routes demo_libs None None demo_off)"
      "g_FullPath ?c = ''/api/v1'' @ p"
    using route by (simp_all add: demo_request_def)
  then obtain n where n: "maxRequestBodyBytesFromEnv demo_off = Inr n" and
    run: "ServeHTTP r ?c ?w = chain (router_use demo_libs False None demo_off n @
      RequestContextTimeoutFromEnv demo_off # ?gs) h ?c ?w"
    by (rule ServeHTTP_runs [OF r, of ?c p ?gs h ?w])
  let ?ms = "router_use demo_libs False None demo_off DefaultMaxRequestBodyBytes @ [RequestContextTimeoutFromEnv demo_off]"
  have run': "ServeHTTP r ?c ?w = chain (?ms @ ?gs) h ?c ?w" using run n demo_limit by simp
  obtain c1 w1 where in1: "same_request ?c c1" "quiet ?w w1"
      "quiet (snd (chain ?gs h c1 w1)) (snd (chain (?ms @ ?gs) h ?c ?w))"
      "g_Body (fst (chain (?ms @ ?gs) h ?c ?w)) = g_Body (fst (chain ?gs h c1 w1))"
    using lets_chain [OF lets_all, of ?c ?w ?gs h] by (auto simp: demo_request_def)
  let ?c2 = "set_claims (demo_claims (demo_user_id user) (demo_user_role user)) c1"
  let ?w2 = "snd (on_rt time_now w1)"
  have hdr: "g_GetHeader c1 = demo_header user" using in1(1) by (simp add: same_request_def demo_request_def)
  have "w_jwtkey w1 = demo_key" using in1(2) by (simp add: redis_only_def demo_pgworld_def demo_world_def)
  from demo_jwt [OF hdr this user, of "chain mws h"] gate_same(1,2) [OF in1(1,2)] demo_keys
    APIKeyAuth_open [of c1 w1 "JWTAuth demo_http_lib NoopDenylist (chain mws h)"]
  have inner: "chain ?gs h c1 w1 = chain mws h ?c2 ?w2" by simp
  show thesis
  proof (rule that [of ?w2 ?c2])
    show "quiet ?w ?w2" by (rule redis_only_trans [OF in1(2) rt_redis_only [OF time_now_only]])
    show "g_Param ?c2 = (\<lambda>n. ''1'')"
      using in1(1) by (simp add: set_claims_def set_key_def demo_claims_def same_request_def demo_request_def Let_def)
  qed (use in1(3,4) run' inner in
      \<open>simp_all add: set_claims_def set_key_def demo_claims_def context_keys Let_def\<close>)
qed

section \<open>Deleting a book\<close>

lemma demo_books:
  "store_FirstByID 1 (demo_db k) = (Inr (bookFromDB (demo_book 1 1 ''Go'' ''Pike'')), demo_db (Suc k))"
  "\<exists>s. store_DeleteByID 1 (demo_db k) = (Inr (), s) \<and> books_of s 1 = None"
  by (auto simp: store_FirstByID_def store_DeleteByID_def pg_stmts pg_exec_def demo_db_def demo_pg_def
      query_row_def sql_first_def sql_delete_def sql_count_def demo_ids demo_book_def books_of_def table_of_def)

lemma demo_update: "\<exists>b s. store_UpdateFields 1 t a (demo_db k) = (Inr b, s)"
  and demo_create_book: "\<exists>b s. store_Create (newBook 1 t a) (demo_db k) = (Inr b, s)"
  by (auto simp: store_UpdateFields_def store_Create_def pg_stmts pg_exec_def demo_db_def demo_pg_def newBook_def
      query_row_def sql_first_def sql_update_def demo_ids demo_book_def max_int64_def Let_def)

lemma demo_book_1: "books_of (w_store demo_pgworld) 1 = Some (bookFromDB (demo_book 1 1 ''Go'' ''Pike''))"
  by (simp add: demo_pgworld_def demo_world_def demo_pg_def books_of_def table_of_def sql_first_def demo_book_def)

lemma demo_delete:
  assumes r: "NewRouter demo_libs demo_pings False None None demo_off = Inr r"
  shows "books_of (w_store (snd (ServeHTTP r
    (demo_request ''DELETE'' ''/api/v1/books/:id'' (demo_header ''ann'')) demo_pgworld))) 1 = None"
proof -
  let ?h = "DeleteBook (router_books demo_libs None None)"
  have route: "(''DELETE'', ''/books/:id'', [APIKeyAuth, JWTAuth demo_http_lib NoopDenylist] @ [], ?h)
      \<in> set (router_routes demo_libs None None demo_off)"
    by (simp add: router_routes_def api_routes_def demo_libs_def NewTokenDenylistFromEnv_def Let_def)
  obtain c2 w2 where in2: "quiet demo_pgworld w2" "g_Param c2 = (\<lambda>n. ''1'')"
      "g_Keys c2 ContextUserID = Some (VUint (demo_user_id ''ann''))"
      "quiet (snd (chain [] ?h c2 w2)) (snd (ServeHTTP r
         (demo_request ''DELETE'' (''/api/v1'' @ ''/books/:id'') (demo_header ''ann'')) demo_pgworld))"
    by (rule demo_served [OF r route, of "''ann''"]) auto
  have st: "w_store w2 = demo_db 0"
    using quiet_store [OF in2(1)] by (simp add: demo_pgworld_def demo_world_def demo_db_0)
  have "show_nat 1 = ''1''" by code_simp
  then have "ParseUint ''1'' = Some 1" using ParseUint_show_nat [of 1] by (simp add: max_uint64_def)
  then have id: "parseIDParam c2 = Inr 1" by (simp add: parseIDParam_def in2(2))
  have uid: "contextUserID c2 = Some 1" using in2(3) by (simp add: contextUserID_def demo_user_id_def)
  obtain s where s: "store_DeleteByID 1 (demo_db 1) = (Inr (), s)" "books_of s 1 = None"
    using demo_books(2) by blast
  have "books_of (w_store (snd (?h c2 w2))) 1 = None"
    using st id uid demo_books(1) s
    by (simp add: DeleteBook_def svc_DeleteBook_def router_books_def NewBookService_def SQLCBookStore_def
        on_store_eq bookFromDB_def demo_book_def demo_ids Let_def split_def publishBookEvent_def
        bumpListCacheGeneration_def)
  then show ?thesis using quiet_store [OF in2(4)] by simp
qed

section \<open>The administrator's route\<close>

lemma demo_admin:
  assumes r: "NewRouter demo_libs demo_pings False None None demo_off = Inr r"
  shows "g_Body (fst (ServeHTTP r (demo_request ''GET'' ''/api/v1/admin/me'' (demo_header ''bob'')) demo_pgworld)) =
    DataAdmin \<lparr>am_Username = ''u'', am_UserID = 2, am_Role = RoleAdmin\<rparr>"
proof -
  have route: "(''GET'', ''/admin/me'',
      [APIKeyAuth, JWTAuth demo_http_lib NoopDenylist] @ [RequireRole [RoleAdmin]], AdminMeHandler)
      \<in> set (router_routes demo_libs None None demo_off)"
    by (simp add: router_routes_def api_routes_def demo_libs_def NewTokenDenylistFromEnv_def Let_def)
  obtain c2 and w2 :: "(pg, unit, unit) world" where
      in2: "g_Keys c2 ContextUserID = Some (VUint (demo_user_id ''bob''))"
      "g_Keys c2 ContextRole = Some (VStr (demo_user_role ''bob''))" "g_Keys c2 ''username'' = Some (VStr ''u'')"
      "g_Body (fst (ServeHTTP r (demo_request ''GET'' (''/api/v1'' @ ''/admin/me'') (demo_header ''bob'')) demo_pgworld)) =
         g_Body (fst (chain [RequireRole [RoleAdmin]] AdminMeHandler c2 w2))"
    by (rule demo_served [OF r route, of "''bob''"], simp, rule that, assumption+)
  then show ?thesis
    by (simp add: RequireRole_def AdminMeHandler_def demo_user_id_def demo_user_role_def RoleAdmin_def
        httpresp_OK_def respond_def ctx_uint_def ctx_string_def Let_def)
qed

end
