(* ===== verification/Books_Theorems.thy ===== *)
theory Books_Theorems
  imports Book_Store Demo_Http
begin

text \<open>
  The properties of the book service over the SQL store, whatever the Redis client, the event
  publisher and the faults of the database: a client's calls, what each mutation does, what a
  failed one leaves, and what a listing returns.
\<close>

lemma demo_books_start: "w_store demo_pgworld = demo_pg" "pg_ok (w_store demo_pgworld)"
  using demo_pg_ok by (simp_all add: demo_pgworld_def demo_world_def)

definition demo_svc_books :: "(pg, unit, unit) BookService" where
  "demo_svc_books = NewBookService (SQLCBookStore (map lower_char)) None None"

lemma demo_svc_store: "sv_store demo_svc_books = SQLCBookStore (map lower_char)"
  by (simp add: demo_svc_books_def NewBookService_def)

section \<open>Ownership\<close>

text \<open>
  C5. Isolation of owners: no sequence of calls in which nobody acts for an owner changes,
  removes or adds a book of that owner.
\<close>

theorem books_owner_isolation:
  assumes "sv_store s = SQLCBookStore lower" and "pg_ok (w_store w)"
    and "\<And>op a. op \<in> set ops \<Longrightarrow> actor_of op = Some a \<Longrightarrow> toInt64 a \<noteq> toInt64 me"
  shows "{(k, b). books_of (w_store (fold (run_op json s) ops w)) k = Some b \<and> b_OwnerID b = me} =
    {(k, b). books_of (w_store w) k = Some b \<and> b_OwnerID b = me}"
  using sqlc_books.ownership [OF assms] by (simp add: sqlc_books.owned_by_def)

theorem books_owner_isolation_witness:
  "books_of (w_store (fold (run_op demo_json demo_svc_books)
       [CreateOp 2 ''T'' ''A'', DeleteOp 2 1, ReplaceOp 2 1 ''X'' ''Y''] demo_pgworld)) 1 =
     books_of demo_pg 1"
proof -
  let ?ops = "[CreateOp 2 ''T'' ''A'', DeleteOp 2 1, ReplaceOp 2 1 ''X'' ''Y'']"
  have "toInt64 a \<noteq> toInt64 1" if "op \<in> set ?ops" "actor_of op = Some a" for op a
    using that by (auto simp: demo_ids)
  from books_owner_isolation [OF demo_svc_store demo_books_start(2) this, where json = demo_json]
  have "(1, b) \<in> {(k, b). books_of (w_store (fold (run_op demo_json demo_svc_books) ?ops demo_pgworld)) k = Some b \<and>
      b_OwnerID b = 1} \<longleftrightarrow> (1, b) \<in> {(k, b). books_of (w_store demo_pgworld) k = Some b \<and> b_OwnerID b = 1}" for b
    by (rule arg_cong)
  from this [of "bookFromDB (demo_book 1 1 ''Go'' ''Pike'')"] demo_book_1 show ?thesis
    by (simp add: demo_books_start(1) bookFromDB_def demo_book_def demo_ids)
qed

section \<open>Mutations\<close>

text \<open>
  A guarded mutation that went through: the book at \<open>i\<close> belonged to the actor, the table at that
  key now holds \<open>e b\<close>, and then, in this order, the cache generation was bumped and the event
  about \<open>b'\<close> published.
\<close>

definition committed ::
  "(pg, 'r, 'p) BookService \<Rightarrow> (pg, 'r, 'p) world \<Rightarrow> uint \<Rightarrow> uint \<Rightarrow> string \<Rightarrow> (Book \<Rightarrow> Book option) \<Rightarrow>
     (Book \<Rightarrow> Book) \<Rightarrow> (pg, 'r, 'p) world \<Rightarrow> bool" where
  "committed s w actorID i eventType e f w' \<longleftrightarrow>
     (\<exists>b st'. books_of (w_store w) (toInt64 i) = Some b \<and> b_OwnerID b = actorID \<and>
        books_of st' = (books_of (w_store w))(toInt64 i := e b) \<and>
        w' = publishBookEvent s eventType (f b) (bumpListCacheGeneration s (w\<lparr>w_store := st'\<rparr>)))"

text \<open>
  C17. Replacing, patching or deleting a book succeeds only for its owner; exactly the title and
  author asked for change (an absent field of a patch keeps its value), or exactly that book is
  removed, no other book changes, and after the write the cache generation is bumped and the event
  published, about the book as it now is or as it was before the deletion.
\<close>

theorem book_change_outcome:
  assumes "sv_store s = SQLCBookStore lower" and "pg_ok (w_store w)"
  shows "(svc_ReplaceBook s actorID i title author w = (Inr b', w') \<longrightarrow>
      committed s w actorID i TypeBookUpdated (\<lambda>b. Some b') (\<lambda>b. b') w' \<and>
      (\<exists>b. books_of (w_store w) (toInt64 i) = Some b \<and>
         b' = b\<lparr>b_Title := title, b_Author := author, b_UpdatedAt := b_UpdatedAt b'\<rparr>)) \<and>
    (svc_PatchBook s actorID i t a w = (Inr b', w') \<longrightarrow>
      committed s w actorID i TypeBookUpdated (\<lambda>b. Some b') (\<lambda>b. b') w' \<and>
      (\<exists>b. books_of (w_store w) (toInt64 i) = Some b \<and>
         b' = b\<lparr>b_Title := (case t of None \<Rightarrow> b_Title b | Some x \<Rightarrow> x),
                b_Author := (case a of None \<Rightarrow> b_Author b | Some x \<Rightarrow> x),
                b_UpdatedAt := b_UpdatedAt b'\<rparr>)) \<and>
    (svc_DeleteBook s actorID i w = (Inr (), w') \<longrightarrow>
      committed s w actorID i TypeBookDeleted (\<lambda>b. None) (\<lambda>b. b) w')"
  using sqlc_books.delete_spec [OF assms, where actorID = actorID and i = i and w' = w']
    sqlc_books.replace_spec [OF assms, of actorID i title author b' w']
    sqlc_books.patch_spec [OF assms, of actorID i t a b' w']
  unfolding committed_def after_commit_def by blast

theorem book_change_outcome_witness:
  "(\<exists>b' w'. svc_ReplaceBook demo_svc_books 1 1 ''T'' ''A'' demo_pgworld = (Inr b', w') \<and>
     books_of (w_store w') 1 = Some b' \<and> b_Title b' = ''T'') \<and>
   (\<exists>w'. svc_DeleteBook demo_svc_books 1 1 demo_pgworld = (Inr (), w') \<and>
     committed demo_svc_books demo_pgworld 1 1 TypeBookDeleted (\<lambda>b. None) (\<lambda>b. b) w')" (is "?replaced \<and> ?deleted")
proof -
  note outcome = book_change_outcome [OF demo_svc_store demo_books_start(2)]
  note eval = demo_svc_books_def NewBookService_def SQLCBookStore_def on_store_eq
      demo_books_start(1) demo_db_0 bookFromDB_def demo_book_def demo_ids Let_def
  have ?replaced
  proof -
    obtain b s where "store_UpdateFields 1 ''T'' ''A'' (demo_db 1) = (Inr b, s)"
      using demo_update by blast
    with demo_books(1) have "\<exists>w'. svc_ReplaceBook demo_svc_books 1 1 ''T'' ''A'' demo_pgworld = (Inr b, w')"
      by (simp add: svc_ReplaceBook_def eval)
    then obtain w' where w': "svc_ReplaceBook demo_svc_books 1 1 ''T'' ''A'' demo_pgworld = (Inr b, w')" ..
    with outcome [of 1 1 "''T''" "''A''" b w']
    have c: "committed demo_svc_books demo_pgworld 1 1 TypeBookUpdated (\<lambda>b0. Some b) (\<lambda>b0. b) w'"
        "\<exists>b0. b = b0\<lparr>b_Title := ''T'', b_Author := ''A'', b_UpdatedAt := b_UpdatedAt b\<rparr>" by blast+
    have "books_of (w_store w') 1 = Some b"
      using c(1) by (auto simp: committed_def demo_ids after_commit_def [symmetric])
    moreover have "b_Title b = ''T''" using c(2) by (metis Book.ext_inject Book.surjective Book.update_convs(3-6) Book.select_convs(3))
    ultimately show ?thesis using w' by blast
  qed
  obtain s where "store_DeleteByID 1 (demo_db 1) = (Inr (), s)" using demo_books(2) by blast
  with demo_books(1) have "\<exists>w'. svc_DeleteBook demo_svc_books 1 1 demo_pgworld = (Inr (), w')"
    by (simp add: svc_DeleteBook_def eval)
  with outcome [of 1 1] have ?deleted by blast
  with \<open>?replaced\<close> show ?thesis ..
qed

text \<open>
  C18. A book is created under an identifier that was free, with the title, the author and the
  owner asked for; no other book changes, and then the cache generation is bumped and the
  creation event published.
\<close>

theorem book_create_outcome:
  assumes "sv_store s = SQLCBookStore lower" and "pg_ok (w_store w)"
    and "svc_CreateBook s ownerID title author w = (Inr b', w')"
  shows "\<exists>st'. books_of (w_store w) (toInt64 (b_ID b')) = None \<and>
    b_Title b' = title \<and> b_Author b' = author \<and> toInt64 (b_OwnerID b') = toInt64 ownerID \<and>
    books_of st' = (books_of (w_store w))(toInt64 (b_ID b') \<mapsto> b') \<and>
    w' = publishBookEvent s TypeBookCreated b' (bumpListCacheGeneration s (w\<lparr>w_store := st'\<rparr>))"
  using sqlc_books.create_spec [OF assms] unfolding after_commit_def by blast

theorem book_create_outcome_witness:
  "\<exists>b' w'. svc_CreateBook demo_svc_books 1 ''T'' ''A'' demo_pgworld = (Inr b', w') \<and>
     b_Title b' = ''T'' \<and> toInt64 (b_OwnerID b') = 1"
proof -
  obtain b s where "store_Create (newBook 1 ''T'' ''A'') (demo_db 0) = (Inr b, s)"
    using demo_create_book by blast
  then have "\<exists>w'. svc_CreateBook demo_svc_books 1 ''T'' ''A'' demo_pgworld = (Inr b, w')"
    by (simp add: svc_CreateBook_def demo_svc_books_def NewBookService_def SQLCBookStore_def on_store_eq
        demo_books_start(1) demo_db_0 Let_def)
  then obtain w' where run: "svc_CreateBook demo_svc_books 1 ''T'' ''A'' demo_pgworld = (Inr b, w')" ..
  from book_create_outcome [OF demo_svc_store demo_books_start(2) run] run show ?thesis
    by (auto simp: demo_ids)
qed

text \<open>
  C19. A mutation that fails leaves no trace: whatever the error, the books, the cache, the events
  and everything but the database's statement counter are as before.
\<close>

theorem book_mutation_error_leaves_no_trace:
  assumes "sv_store s = SQLCBookStore lower" and "pg_ok (w_store w)"
    and "svc_CreateBook s actorID title author w = (Inl e, w') \<or>
      svc_ReplaceBook s actorID i title author w = (Inl e, w') \<or>
      svc_PatchBook s actorID i t a w = (Inl e, w') \<or> svc_DeleteBook s actorID i w = (Inl e, w')"
  shows "\<exists>st'. w' = w\<lparr>w_store := st'\<rparr> \<and> pg_ok st' \<and> books_of st' = books_of (w_store w)"
  using assms(3)
  by (elim disjE) (rule sqlc_books.mutation_error [OF assms(1,2)], assumption)+

theorem book_mutation_error_leaves_no_trace_witness:
  "\<exists>w'. svc_DeleteBook demo_svc_books 2 1 demo_pgworld = (Inl (Sentinel ErrBookForbidden), w') \<and>
     books_of (w_store w') = books_of demo_pg"
proof -
  have "\<exists>w'. svc_DeleteBook demo_svc_books 2 1 demo_pgworld = (Inl (Sentinel ErrBookForbidden), w')"
    using demo_books(1)
    by (simp add: svc_DeleteBook_def demo_svc_books_def NewBookService_def SQLCBookStore_def on_store_eq
        demo_books_start(1) demo_db_0 bookFromDB_def demo_book_def demo_ids Let_def)
  then obtain w' where run: "svc_DeleteBook demo_svc_books 2 1 demo_pgworld = (Inl (Sentinel ErrBookForbidden), w')" ..
  with book_mutation_error_leaves_no_trace [OF demo_svc_store demo_books_start(2)] show ?thesis
    by (fastforce simp: demo_books_start(1))
qed

end
