(* ===== verification/List_Theorems.thy ===== *)
theory List_Theorems
  imports Books_Theorems
begin

text \<open>
  The properties of listings: the SQL text built at run time means the documented query, the
  parameters a request may set are bounded, the rows of the statement are a page of the sorted matching books,
  and pages fit together.
\<close>

section \<open>The statement\<close>

text \<open>
  C22. Refinement: whatever the filters, the sort and the page of a query hold, the text and the
  numbered parameters that \<open>SQLCBookStore.List\<close> builds are a statement PostgreSQL accepts, and
  it returns the rows that match the filters, in the order asked for with ties by key, cut to
  the page.
\<close>

theorem list_statement_means_query:
  "pg_select (fst (build_list lower q)) (snd (build_list lower q)) s = Inr (run_list lower q s)"
  by (rule pg_select_build)

section \<open>The parameters of a request\<close>

text \<open>The queries a handler passes on: a page of at most 100 books, an allowlisted order.\<close>

definition canonical :: "BookListQuery \<Rightarrow> bool" where
  "canonical q \<longleftrightarrow>
     0 \<le> q_Offset q \<and> 1 \<le> q_Limit q \<and> q_Limit q \<le> 100 \<and> q_Offset q \<le> max_int64 \<and>
     q_Sort q \<in> set BookListSortFields \<and> (q_Order q = ''asc'' \<or> q_Order q = ''desc'')"

lemma Atoi_max: "Atoi t = Some n \<Longrightarrow> n \<le> max_int64"
  by (auto simp: ParseInt_def Let_def split: option.splits if_splits list.splits)

definition bad_request :: "gin_ctx \<Rightarrow> gin_ctx \<Rightarrow> bool" where
  "bad_request c c' \<longleftrightarrow> (\<exists>msg. c' = c\<lparr>g_Status := 400, g_Body := ErrorBody msg\<rparr>)"

lemma bad_requestI: "bad_request c (httperr_Write 400 msg c)"
  by (auto simp: bad_request_def httperr_Write_def respond_def)

lemma parseOffsetLimit_spec:
  "case parseOffsetLimit c of
     Inl c' \<Rightarrow> bad_request c c'
   | Inr (off, l) \<Rightarrow> 0 \<le> off \<and> off \<le> max_int64 \<and> 1 \<le> l \<and> l \<le> 100 \<and>
       (\<exists>n. Atoi (TrimSpace (DefaultQuery c ''limit'' ''10'')) = Some n \<and> l = min n 100)"
proof (cases "Atoi (TrimSpace (DefaultQuery c ''offset'' ''0''))")
  case None
  then show ?thesis by (simp add: parseOffsetLimit_def Let_def bad_requestI)
next
  case (Some off)
  show ?thesis
  proof (cases "Atoi (TrimSpace (DefaultQuery c ''limit'' ''10''))")
    case None
    with Some show ?thesis by (simp add: parseOffsetLimit_def Let_def bad_requestI)
  next
    case (Some n)
    with \<open>Atoi _ = Some off\<close> Atoi_max [OF \<open>Atoi _ = Some off\<close>] show ?thesis
      by (simp add: parseOffsetLimit_def Let_def bad_requestI findBooksMinLimit_def findBooksMaxLimit_def)
  qed
qed

lemma parseOwnerID_spec: "parseOwnerID c = Inl c' \<Longrightarrow> bad_request c c'"
  by (auto simp: parseOwnerID_def Let_def bad_requestI split: option.splits if_splits)

text \<open>
  C25. Bounds: a query string is either answered with 400 and an error body, or parsed into a
  page of one to 100 books from a non-negative offset, sorted by a column of the allowlist; a
  limit above 100 is cut to 100.
\<close>

theorem book_list_query_bounds:
  "case parseBookListQuery c of
     Inl c' \<Rightarrow> bad_request c c'
   | Inr q \<Rightarrow> canonical q \<and>
       (\<exists>n. Atoi (TrimSpace (DefaultQuery c ''limit'' ''10'')) = Some n \<and> q_Limit q = min n 100)"
proof (cases "parseOffsetLimit c")
  case (Inl c')
  with parseOffsetLimit_spec [of c] show ?thesis by (simp add: parseBookListQuery_def)
next
  case (Inr ol)
  then obtain off l where ol: "parseOffsetLimit c = Inr (off, l)" by (cases ol) simp
  show ?thesis
  proof (cases "parseOwnerID c")
    case (Inl c')
    with ol parseOwnerID_spec [OF Inl] show ?thesis by (simp add: parseBookListQuery_def Let_def)
  next
    case (Inr ow)
    with ol parseOffsetLimit_spec [of c] show ?thesis
      by (simp add: parseBookListQuery_def Let_def bad_requestI canonical_def del: ToLower.simps)
  qed
qed

section \<open>What a listing holds\<close>

text \<open>
  \<open>strings.ToLower\<close> leaves the three characters of the escaping alone and makes no new ones:
  lowering a filter text commutes with escaping it.
\<close>

definition lower_law :: "(string \<Rightarrow> string) \<Rightarrow> bool" where
  "lower_law lower \<longleftrightarrow> (\<forall>v. lower (escapeLikePattern v) = escapeLikePattern (lower v))"

lemma lower_char_escape: "map lower_char (escape_char c) = escape_char (lower_char c)"
proof (cases "lower_char c = c")
  case True
  have "lower_char (CHR 0x5C) = CHR 0x5C" by code_simp
  with True show ?thesis by (auto simp: escape_char_def)
next
  case False
  obtain b0 b1 b2 b3 b4 b5 b6 b7 where c: "c = Char b0 b1 b2 b3 b4 b5 b6 b7" by (cases c)
  have up: "65 \<le> (of_char c :: nat)" "of_char c \<le> (90 :: nat)"
    using False by (auto simp: lower_char_def Let_def simp del: of_char_Char split: if_splits)
  then have low: "lower_char c = Char b0 b1 b2 b3 b4 True b6 b7"
    unfolding lower_char_def Let_def by (simp del: of_char_Char) (simp add: c)
  with False have "\<not> b5" by (auto simp: c)
  moreover have "b6 \<or> b7"
  proof (rule ccontr)
    assume "\<not> (b6 \<or> b7)"
    with up(1) \<open>\<not> b5\<close> show False by (simp add: c of_bool_def split: if_splits)
  qed
  ultimately have "escape_char c = [c] \<or> c \<in> set [CHR 0x5C, CHR ''_'']" "escape_char (lower_char c) = [lower_char c]"
    unfolding low by (auto simp: escape_char_def c)
  moreover have "c \<notin> set [CHR 0x5C, CHR ''_'']" using up by auto
  ultimately show ?thesis by auto
qed

lemma lower_char_law: "lower_law (map lower_char)"
  by (simp add: lower_law_def escapeLikePattern_def map_concat o_def lower_char_escape)

text \<open>The books a query asks for: literal substrings of title and author, and the owner.\<close>

definition wanted :: "pg \<Rightarrow> (string \<Rightarrow> string) \<Rightarrow> BookListQuery \<Rightarrow> book_row \<Rightarrow> bool" where
  "wanted s lower q r \<longleftrightarrow>
     (q_TitleLike q \<noteq> '''' \<longrightarrow> sublist (lower (q_TitleLike q)) (pg_lower s (br_Title r))) \<and>
     (q_AuthorLike q \<noteq> '''' \<longrightarrow> sublist (lower (q_AuthorLike q)) (pg_lower s (br_Author r))) \<and>
     (\<forall>i. q_OwnerID q = Some i \<longrightarrow> br_OwnerID r = toInt64 i)"

lemma row_matches_wanted: "lower_law lower \<Longrightarrow> row_matches s lower q r \<longleftrightarrow> wanted s lower q r"
  by (auto simp: row_matches_def wanted_def lower_law_def like_pattern_sublist split: option.splits)

lemma run_list_step: "run_list lower q (s\<lparr>pg_step := k\<rparr>) = run_list lower q s"
  by (simp add: run_list_def row_matches_def [abs_def] row_le_def [abs_def] sort_value_def [abs_def] cong: filter_cong)

lemma store_List_done: "store_List lower q s = (Inr bs, s') \<Longrightarrow> bs = map bookFromDB (run_list lower q s) \<and> same_tables s s' \<and>
    run_list l2 q2 s' = run_list l2 q2 s"
  unfolding store_List_run
  by (auto dest!: pg_exec_InrD simp: run_list_step same_tables_def)

text \<open>
  The page that the statement returns: of a list that holds every matching book once and nothing else, in order.
\<close>

lemma run_list_is_page:
  assumes "lower_law lower" and "pg_ok st"
  shows "\<exists>rows. run_list lower q st = page (q_Offset q) (q_Limit q) rows \<and>
    set rows = {r \<in> set (pg_books st). wanted st lower q r} \<and> distinct (map br_ID rows) \<and>
    sorted_wrt (row_le st (norm_sort (q_Sort q)) (norm_order (q_Order q))) rows"
proof -
  let ?f = "filter (row_matches st lower q) (pg_books st)"
  let ?rows = "sort_rows (row_le st (norm_sort (q_Sort q)) (norm_order (q_Order q))) ?f"
  have "distinct (map br_ID (pg_books st))" using assms(2) by (simp add: pg_ok_def key_ok_def)
  then have "distinct (map br_ID ?rows)" by (simp add: distinct_sort_rows distinct_map_filter)
  moreover have "set ?rows = {r \<in> set (pg_books st). wanted st lower q r}"
    by (simp add: set_sort_rows row_matches_wanted [OF assms(1)])
  moreover have "run_list lower q st = page (q_Offset q) (q_Limit q) ?rows" by (simp add: run_list_def)
  ultimately show ?thesis using sorted_sort_rows by blast
qed

text \<open>A page and the page after it are the longer page.\<close>

lemma run_list_pages_fit:
  assumes "0 \<le> off" and "0 \<le> l" and "0 \<le> m"
  shows "run_list lower (q\<lparr>q_Offset := off, q_Limit := l\<rparr>) st @
      run_list lower (q\<lparr>q_Offset := off + l, q_Limit := m\<rparr>) st =
      run_list lower (q\<lparr>q_Offset := off, q_Limit := l + m\<rparr>) st"
proof -
  have match: "row_matches st lower (q\<lparr>q_Offset := x, q_Limit := y\<rparr>) = row_matches st lower q" for x y
    by (simp add: fun_eq_iff row_matches_def)
  have run: "run_list lower (q\<lparr>q_Offset := x, q_Limit := y\<rparr>) st =
      page x y (sort_rows (row_le st (norm_sort (q_Sort q)) (norm_order (q_Order q))) (filter (row_matches st lower q) (pg_books st)))"
    for x y by (simp add: run_list_def match)
  show ?thesis unfolding run by (rule page_append [OF assms])
qed

definition demo_query :: BookListQuery where
  "demo_query =
     \<lparr>q_Offset = 0, q_Limit = 10, q_TitleLike = ''o'', q_AuthorLike = [], q_OwnerID = None,
      q_Sort = ''title'', q_Order = ''desc''\<rparr>"

end
