(* ===== verification/Book_Cache.thy ===== *)
theory Book_Cache
  imports List_Theorems
begin

text \<open>
  The list cache of the book service: pages are stored in Redis under keys that hold a
  generation number, and a committed mutation raises the generation unless Redis refuses. \<open>pages_ok\<close> says that
  the entries of the current generation are pages of some given tables, and that no entry belongs to a later
  generation: what each call of the service does to it.
\<close>

section \<open>Keys\<close>

lemma cut_unique: "c \<notin> set a \<Longrightarrow> c \<notin> set b \<Longrightarrow> a @ c # x = b @ c # y \<longleftrightarrow> a = b \<and> x = y"
proof (induction a arbitrary: b)
  case Nil
  then show ?case by (cases b) auto
next
  case (Cons d a)
  then show ?case by (cases b) auto
qed

lemma plain_decimal: "CHR ''_'' \<notin> set (show_nat n)" "CHR ''_'' \<notin> set (show_int i)"
  using show_nat_digits [of n] show_int_alphabet [of i] by (auto simp: decimal_alphabet_def)

lemma plain_hex: "CHR ''_'' \<notin> set (hex_encode s)"
  using set_hex_encode [of s] by (auto simp: hex_alphabet_def)

definition owner_part :: "uint option \<Rightarrow> string" where
  "owner_part ow = (case ow of None \<Rightarrow> ''_'' | Some i \<Rightarrow> show_nat (unat i))"

lemma owner_part_unique:
  "owner_part a @ CHR ''_'' # x = owner_part b @ CHR ''_'' # y \<longleftrightarrow> a = b \<and> x = y"
proof -
  have hd: "hd (show_nat n) \<noteq> CHR ''_''" for n
    using plain_decimal(1) [of n] hd_in_set [OF show_nat_nonempty [of n]] by metis
  have first: "show_nat n @ z \<noteq> CHR ''_'' # z'" for n z z'
    using hd [of n] show_nat_nonempty [of n] by (cases "show_nat n") simp_all
  show ?thesis
  proof (cases a; cases b)
    fix i j assume "a = Some i" "b = Some j"
    then show ?thesis
      by (simp add: owner_part_def cut_unique [OF plain_decimal(1) plain_decimal(1)] show_nat_inj word_unat_eq_iff)
  qed (simp_all add: owner_part_def first first [symmetric])
qed

lemma order_part_unique:
  assumes "d \<in> {''asc'', ''desc''}" and "e \<in> {''asc'', ''desc''}"
  shows "s @ ''_order_'' @ d = t @ ''_order_'' @ e \<longleftrightarrow> s = t \<and> d = e"
proof (cases "d = e")
  case False
  have "rev (u @ ''_order_'' @ ''asc'') ! 2 \<noteq> rev (v @ ''_order_'' @ ''desc'') ! 2" for u v by simp
  with False assms show ?thesis by (metis insert_iff singletonD)
qed simp

text \<open>The key of a page determines its generation and its query.\<close>

lemma cache_key_unique:
  assumes "canonical q" and "canonical p"
  shows "BooksListDataCacheKey g q = BooksListDataCacheKey h p \<longleftrightarrow> g = h \<and> q = p"
proof
  assume eq: "BooksListDataCacheKey g q = BooksListDataCacheKey h p"
  note cut = cut_unique [OF plain_decimal(2) plain_decimal(2)] cut_unique [OF plain_hex plain_hex]
  from eq have "g = h \<and> q_Offset q = q_Offset p \<and> q_Limit q = q_Limit p \<and> q_TitleLike q = q_TitleLike p \<and>
      q_AuthorLike q = q_AuthorLike p \<and> q_OwnerID q = q_OwnerID p \<and>
      q_Sort q @ ''_order_'' @ q_Order q = q_Sort p @ ''_order_'' @ q_Order p"
    by (simp add: BooksListDataCacheKey_def owner_part_def [symmetric] cut owner_part_unique show_int_inj hex_encode_inj)
  with assms order_part_unique [of "q_Order q" "q_Order p" "q_Sort q" "q_Sort p"]
  show "g = h \<and> q = p" by (auto simp: canonical_def)
qed simp

lemma cache_key_gen: "BooksListDataCacheKey g q \<noteq> BooksListCacheGenKey"
  by (simp add: BooksListDataCacheKey_def BooksListCacheGenKey_def)

section \<open>What a listing depends on\<close>

definition list_view :: "pg \<Rightarrow> book_row list \<times> (string \<Rightarrow> string) \<times> (string \<Rightarrow> string)" where
  "list_view s = (pg_books s, pg_lower s, pg_strxfrm s)"

lemma list_view_run: "list_view s = list_view t \<Longrightarrow> run_list lower q s = run_list lower q t"
proof -
  assume "list_view s = list_view t"
  then have "row_matches s lower q = row_matches t lower q" "row_le s c d = row_le t c d" "pg_books s = pg_books t" for c d
    by (auto simp: list_view_def fun_eq_iff row_matches_def row_le_def sort_value_def Let_def)
  then show ?thesis by (simp add: run_list_def)
qed

lemma list_view_step [simp]: "list_view (s\<lparr>pg_step := k\<rparr>) = list_view s"
  by (simp add: list_view_def)

lemma list_view_exec:
  assumes "\<And>now u. list_view (snd (f now u)) = list_view u"
  shows "list_view (snd (pg_exec db f s)) = list_view s"
  by (rule pg_exec_rule) (simp_all add: assms)

lemma update_nothing:
  assumes "sql_first (\<lambda>r. br_ID r = i) (sql_update (\<lambda>r. br_ID r = i) f rows) = None" and "\<And>r. br_ID (f r) = br_ID r"
  shows "sql_update (\<lambda>r. br_ID r = i) f rows = rows"
  using assms
  by (induction rows) (auto simp: sql_update_def sql_first_def split: if_splits)

lemma delete_nothing: "sql_count p rows = 0 \<Longrightarrow> sql_delete p rows = rows"
  by (induction rows) (auto simp: sql_count_def sql_delete_def split: if_splits)

lemma store_view:
  "list_view (snd (store_List lower q s)) = list_view s"
  "list_view (snd (store_FirstByID i s)) = list_view s"
proof -
  show "list_view (snd (store_List lower q s)) = list_view s"
    unfolding store_List_run by (rule list_view_exec) simp
  have "list_view (snd (q_GetBook Pool j s)) = list_view s" for j
    unfolding q_GetBook_def by (rule list_view_exec) simp
  then show "list_view (snd (store_FirstByID i s)) = list_view s"
    by (simp add: store_FirstByID_def split: prod.split sum.split) (metis snd_conv)
qed

lemma stmt_errors_view:
  "q_CreateBook Pool arg s = (Inl e, s') \<Longrightarrow> list_view s' = list_view s"
  "q_UpdateBookFields Pool i t a s = (Inl e, s') \<Longrightarrow> list_view s' = list_view s"
  "q_PatchBookFields Pool i t' a' s = (Inl e, s') \<Longrightarrow> list_view s' = list_view s"
  "q_DeleteBook Pool i s = (Inl e, s') \<Longrightarrow> list_view s' = list_view s"
  "q_DeleteBook Pool i s = (Inr 0, s') \<Longrightarrow> list_view s' = list_view s"
proof -
  show "q_CreateBook Pool arg s = (Inl e, s') \<Longrightarrow> list_view s' = list_view s"
    unfolding q_CreateBook_def by (drule pg_exec_InlD) (auto simp: list_view_def Let_def split: if_splits)
  show "q_UpdateBookFields Pool i t a s = (Inl e, s') \<Longrightarrow> list_view s' = list_view s"
    unfolding q_UpdateBookFields_def
    by (drule pg_exec_InlD) (auto simp: list_view_def Let_def query_row_Inl intro!: update_nothing)
  show "q_PatchBookFields Pool i t' a' s = (Inl e, s') \<Longrightarrow> list_view s' = list_view s"
    unfolding q_PatchBookFields_def
    by (drule pg_exec_InlD) (auto simp: list_view_def Let_def query_row_Inl intro!: update_nothing)
  show "q_DeleteBook Pool i s = (Inl e, s') \<Longrightarrow> list_view s' = list_view s"
    unfolding q_DeleteBook_def by (drule pg_exec_InlD) (auto simp: list_view_def)
  show "q_DeleteBook Pool i s = (Inr 0, s') \<Longrightarrow> list_view s' = list_view s"
    unfolding q_DeleteBook_def by (drule pg_exec_InrD) (auto simp: list_view_def delete_nothing)
qed

lemma store_errors_view:
  "store_Create b s = (Inl e, s') \<Longrightarrow> list_view s' = list_view s"
  "store_UpdateFields i t a s = (Inl e, s') \<Longrightarrow> list_view s' = list_view s"
  "store_PatchFields i t' a' s = (Inl e, s') \<Longrightarrow> list_view s' = list_view s"
  "store_DeleteByID i s = (Inl e, s') \<Longrightarrow> list_view s' = list_view s"
  using store_view(2) [of i s]
  by (auto simp: store_Create_def store_UpdateFields_def store_PatchFields_def store_DeleteByID_def
      split: op_cases dest: stmt_errors_view)

section \<open>The invariant\<close>

text \<open>The generation Redis holds; the counter has no deadline.\<close>

definition generation :: "redis_content \<Rightarrow> int" where
  "generation m =
     (case m BooksListCacheGenKey of
        None \<Rightarrow> 0 | Some (v, d) \<Rightarrow> (case ParseInt v of None \<Rightarrow> 0 | Some n \<Rightarrow> n))"

definition counter_ok :: "redis_content \<Rightarrow> bool" where
  "counter_ok m \<longleftrightarrow> m BooksListCacheGenKey = None \<or>
     (\<exists>n. 0 \<le> n \<and> n \<le> max_int64 \<and> m BooksListCacheGenKey = Some (show_int n, None))"

text \<open>
  \<open>encoding/json\<close> reads back what it wrote of a list of books, with repaired strings. PostgreSQL stores
  valid UTF-8 only: of a table with valid text the books come back as they are.
\<close>

definition json_book :: "Book \<Rightarrow> Book" where
  "json_book b = b\<lparr>b_Title := json_text (b_Title b), b_Author := json_text (b_Author b)\<rparr>"

definition json_law :: "json_lib \<Rightarrow> bool" where
  "json_law json \<longleftrightarrow> (\<forall>bs v. json_Marshal json bs = Inr v \<longrightarrow> json_Unmarshal json v = Inr (map json_book bs))"

definition text_valid :: "pg \<Rightarrow> bool" where
  "text_valid st \<longleftrightarrow> (\<forall>r \<in> set (pg_books st). valid_utf8 (br_Title r) \<and> valid_utf8 (br_Author r))"

text \<open>The page of a table that a query asks for.\<close>

definition page_of :: "(string \<Rightarrow> string) \<Rightarrow> BookListQuery \<Rightarrow> pg \<Rightarrow> Book list" where
  "page_of lower q st = map bookFromDB (run_list lower q st)"

lemma page_of_view: "list_view s = list_view t \<Longrightarrow> page_of lower q s = page_of lower q t"
  by (simp add: page_of_def list_view_run [of s t])

lemma text_valid_view: "list_view s = list_view t \<Longrightarrow> text_valid s = text_valid t"
  by (simp add: list_view_def text_valid_def)

lemma set_page: "set (page off l xs) \<subseteq> set xs"
  by (auto simp: page_def dest: in_set_takeD in_set_dropD)

lemma page_of_text:
  assumes "text_valid st"
  shows "map json_book (page_of lower q st) = page_of lower q st"
proof -
  have "json_book (bookFromDB r) = bookFromDB r" if "r \<in> set (run_list lower q st)" for r
  proof -
    have "r \<in> set (pg_books st)"
      using that set_page unfolding run_list_def by (fastforce simp: set_sort_rows)
    with assms show ?thesis by (simp add: text_valid_def json_book_def bookFromDB_def valid_utf8_def)
  qed
  then show ?thesis by (simp add: page_of_def)
qed

text \<open>
  The pages of the current generation are pages of some of the given tables, and no page is of a later
  generation.
\<close>

definition pages_ok :: "json_lib \<Rightarrow> (string \<Rightarrow> string) \<Rightarrow> redis_content \<Rightarrow> pg set \<Rightarrow> bool" where
  "pages_ok json lower m S \<longleftrightarrow>
     (\<forall>g q v d. canonical q \<longrightarrow> m (BooksListDataCacheKey g q) = Some (v, d) \<longrightarrow>
        g \<le> generation m \<and>
        (g = generation m \<longrightarrow> (\<exists>T \<in> S. json_Marshal json (page_of lower q T) = Inr v)))"

definition coherent ::
  "json_lib \<Rightarrow> (string \<Rightarrow> string) \<Rightarrow> ('r \<Rightarrow> redis_content) \<Rightarrow> (pg, 'r, 'p) world \<Rightarrow> bool" where
  "coherent json lower content w \<longleftrightarrow>
     counter_ok (content (w_redis w)) \<and> pages_ok json lower (content (w_redis w)) {w_store w}"

lemma generation_eqs:
  "m BooksListCacheGenKey = None \<Longrightarrow> generation m = 0"
  "m BooksListCacheGenKey = Some (show_int n, None) \<Longrightarrow> 0 \<le> n \<Longrightarrow> n \<le> max_int64 \<Longrightarrow> generation m = n"
  by (simp_all add: generation_def ParseInt_show_int min_int64_def)

lemma generation_nonneg: "counter_ok m \<Longrightarrow> 0 \<le> generation m"
  by (auto simp: counter_ok_def generation_eqs)

lemma pages_okD:
  "pages_ok json lower m S \<Longrightarrow> canonical q \<Longrightarrow> m (BooksListDataCacheKey g q) = Some (v, d) \<Longrightarrow>
    g \<le> generation m \<and> (g = generation m \<longrightarrow> (\<exists>T \<in> S. json_Marshal json (page_of lower q T) = Inr v))"
  unfolding pages_ok_def by blast

lemma pages_okI:
  assumes "\<And>g q v d. canonical q \<Longrightarrow> m (BooksListDataCacheKey g q) = Some (v, d) \<Longrightarrow>
    g \<le> generation m \<and> (g = generation m \<longrightarrow> (\<exists>T \<in> S. json_Marshal json (page_of lower q T) = Inr v))"
  shows "pages_ok json lower m S"
  using assms unfolding pages_ok_def by blast

lemma pages_ok_mono: "pages_ok json lower m S \<Longrightarrow> S \<subseteq> S' \<Longrightarrow> pages_ok json lower m S'"
  by (intro pages_okI) (auto dest!: pages_okD)

text \<open>Dropping pages, and keys that are none of the book service's, do not matter.\<close>

definition book_page_key :: "string \<Rightarrow> bool" where
  "book_page_key k \<longleftrightarrow> starts_with ''books_g'' k"

lemma data_key_is_page: "book_page_key (BooksListDataCacheKey g q)"
  by (simp add: book_page_key_def BooksListDataCacheKey_def)

lemma pages_ok_less:
  assumes "pages_ok json lower m S" and "m' BooksListCacheGenKey = m BooksListCacheGenKey"
    and "\<And>k. book_page_key k \<Longrightarrow> m' k = m k \<or> m' k = None"
  shows "pages_ok json lower m' S"
proof (rule pages_okI)
  have gen: "generation m' = generation m" using assms(2) by (simp add: generation_def)
  fix g q v d assume "canonical q" "m' (BooksListDataCacheKey g q) = Some (v, d)"
  with assms(3) [OF data_key_is_page, of g q] pages_okD [OF assms(1), of q g v d]
  show "g \<le> generation m' \<and> (g = generation m' \<longrightarrow> (\<exists>T \<in> S. json_Marshal json (page_of lower q T) = Inr v))"
    by (auto simp: gen)
qed

text \<open>A page of one of the tables may be stored under any generation up to the current one.\<close>

lemma pages_ok_store:
  assumes ok: "pages_ok json lower m S" and q: "canonical q" and g: "g \<le> generation m"
    and v: "T \<in> S" "json_Marshal json (page_of lower q T) = Inr v"
  shows "pages_ok json lower (m(BooksListDataCacheKey g q \<mapsto> (v, d))) S"
proof (rule pages_okI)
  let ?m = "m(BooksListDataCacheKey g q \<mapsto> (v, d))"
  have gen: "generation ?m = generation m" using cache_key_gen [of g q] by (simp add: generation_def)
  fix h p u e assume p: "canonical p" and e: "?m (BooksListDataCacheKey h p) = Some (u, e)"
  have "h \<le> generation m \<and> (h = generation m \<longrightarrow> (\<exists>T \<in> S. json_Marshal json (page_of lower p T) = Inr u))"
  proof (cases "h = g \<and> p = q")
    case True
    with e g v show ?thesis by auto
  next
    case False
    with e cache_key_unique [OF p q, of h g] have "m (BooksListDataCacheKey h p) = Some (u, e)" by simp
    with pages_okD [OF ok p] show ?thesis by blast
  qed
  then show "h \<le> generation ?m \<and> (h = generation ?m \<longrightarrow> (\<exists>T \<in> S. json_Marshal json (page_of lower p T) = Inr u))"
    unfolding gen .
qed

lemma counter_up:
  assumes ok: "counter_ok m" and inc: "incr_entry now None (m BooksListCacheGenKey) = Some (e, n)"
  shows "counter_ok (m(BooksListCacheGenKey \<mapsto> e)) \<and> generation (m(BooksListCacheGenKey \<mapsto> e)) = generation m + 1"
proof -
  let ?m = "m(BooksListCacheGenKey \<mapsto> e)"
  have e: "e = (show_int (generation m + 1), None) \<and> generation m + 1 \<le> max_int64"
  proof (cases "m BooksListCacheGenKey")
    case None
    with inc show ?thesis by (auto simp: incr_entry_def live_def generation_def max_int64_def)
  next
    case (Some x)
    with ok obtain k where k: "0 \<le> k" "k \<le> max_int64" "m BooksListCacheGenKey = Some (show_int k, None)"
      by (auto simp: counter_ok_def)
    with inc show ?thesis
      by (auto simp: incr_entry_def live_def generation_eqs ParseInt_show_int min_int64_def split: if_splits)
  qed
  have "generation ?m = generation m + 1"
    by (rule generation_eqs(2)) (use e generation_nonneg [OF ok] in auto)
  moreover have "counter_ok ?m" using e generation_nonneg [OF ok] by (auto simp: counter_ok_def intro!: exI [of _ "generation m + 1"])
  ultimately show ?thesis by simp
qed

text \<open>Raising the generation leaves all pages behind, whatever the table is now.\<close>

lemma counter_raised:
  assumes ok: "counter_ok m" "pages_ok json lower m S" and inc: "incr_entry now None (m BooksListCacheGenKey) = Some (e, n)"
  shows "pages_ok json lower (m(BooksListCacheGenKey \<mapsto> e)) S'"
proof (rule pages_okI)
  let ?m = "m(BooksListCacheGenKey \<mapsto> e)"
  have gen: "generation ?m = generation m + 1" using counter_up [where m = m, OF ok(1) inc] by simp
  fix g q v d assume "canonical q" "?m (BooksListDataCacheKey g q) = Some (v, d)"
  with pages_okD [OF ok(2), of q g v d] cache_key_gen [of g q] have "g \<le> generation m" by simp
  then show "g \<le> generation ?m \<and> (g = generation ?m \<longrightarrow> (\<exists>T \<in> S'. json_Marshal json (page_of lower q T) = Inr v))"
    by (simp only: gen) linarith
qed

section \<open>The cache between the service's calls\<close>

lemma got:
  assumes "redis_laws redis content clock" and "c_Get redis k r = (x, r')"
  shows "content r' = content r" "x = Inr v \<Longrightarrow> live (clock r) (content r k) = Some v"
    "x = Inl (Sentinel ErrRedisNil) \<Longrightarrow> live (clock r) (content r k) = None"
  using redis_lawsD(1) [OF assms(1)] assms(2) unfolding get_law_def by blast+

lemma put:
  assumes "redis_laws redis content clock" and "c_Set redis k v d r = (x, r')" and "0 < d"
  shows "content r' = content r \<or> (\<exists>dl. content r' = (content r)(k \<mapsto> (v, dl)))"
proof (cases "is_ok x")
  case True
  with redis_lawsD(2) [OF assms(1)] assms(2,3) show ?thesis unfolding set_law_def by blast
next
  case False
  with redis_lawsD(2) [OF assms(1)] assms(2) show ?thesis unfolding set_law_def by blast
qed

text \<open>Reading the generation: the current one, or 0 when Redis does not answer.\<close>

lemma cacheGeneration_cases:
  assumes laws: "redis_laws redis content clock" and svc: "sv_redis s = Some redis"
    and ok: "counter_ok (content (w_redis w))"
  obtains g r where "cacheGeneration s w = (g, w\<lparr>w_redis := r\<rparr>)" "content r = content (w_redis w)"
    "g \<le> generation (content (w_redis w))"
    "answers redis BooksListCacheGenKey (w_redis w) \<Longrightarrow> g = generation (content (w_redis w))"
proof -
  let ?G = BooksListCacheGenKey
  obtain x r where get: "c_Get redis ?G (w_redis w) = (x, r)" by (cases "c_Get redis ?G (w_redis w)")
  note law = got [OF laws get]
  show thesis
  proof (cases x)
    case (Inl e)
    have "generation (content (w_redis w)) = 0" if "e = Sentinel ErrRedisNil"
      using law(3) Inl that ok by (auto simp: counter_ok_def live_def generation_eqs)
    with that [of 0 r] get Inl law(1) generation_nonneg [OF ok] show thesis
      by (auto simp: cacheGeneration_def svc on_redis_eq answers_def)
  next
    case (Inr v)
    obtain n where n: "0 \<le> n" "n \<le> max_int64" "content (w_redis w) ?G = Some (show_int n, None)" "v = show_int n"
      using law(2) [OF Inr] ok by (auto simp: counter_ok_def live_def)
    with that [of n r] get Inr law(1) show thesis
      by (simp add: cacheGeneration_def svc on_redis_eq ParseInt_show_int min_int64_def generation_eqs)
  qed
qed

text \<open>A page that is found is one of the tables', when it is of the current generation.\<close>

lemma page_found:
  assumes "json_law json" and "pages_ok json lower m S" and "canonical q"
    and "live now (m (BooksListDataCacheKey (generation m) q)) = Some v"
  shows "\<exists>T \<in> S. json_Unmarshal json v = Inr (map json_book (page_of lower q T))"
proof -
  obtain d where "m (BooksListDataCacheKey (generation m) q) = Some (v, d)"
    using assms(4) by (auto simp: live_def split: option.splits if_splits)
  with pages_okD [OF assms(2,3)] obtain T where "T \<in> S" "json_Marshal json (page_of lower q T) = Inr v" by blast
  with assms(1) show ?thesis by (auto simp: json_law_def)
qed

text \<open>A miss loads the current page and stores it.\<close>

definition load_page ::
  "json_lib \<Rightarrow> (string \<Rightarrow> string) \<Rightarrow> 'r Cache \<Rightarrow> string \<Rightarrow> BookListQuery \<Rightarrow> (pg, 'r, 'p) world \<Rightarrow>
     (go_error + Book list) \<times> (pg, 'r, 'p) world" where
  "load_page json lower redis k q w =
     (case store_List lower q (w_store w) of
        (Inl e, st) \<Rightarrow> (Inl (fmtError ErrListBooksDB e), w\<lparr>w_store := st\<rparr>)
      | (Inr loaded, st) \<Rightarrow>
          (case json_Marshal json loaded of
             Inl e \<Rightarrow> (Inl (fmtError ErrListBooksMarshal e), w\<lparr>w_store := st\<rparr>)
           | Inr v \<Rightarrow>
               (case c_Set redis k v minute (w_redis w) of
                  (Inl e, r) \<Rightarrow> (Inl (fmtError ErrListBooksRedis e), w\<lparr>w_redis := r, w_store := st\<rparr>)
                | (Inr _, r) \<Rightarrow> (Inr loaded, w\<lparr>w_redis := r, w_store := st\<rparr>))))"

text \<open>
  What a call leaves: the counter as it was, and pages of the same tables; the table is seen as before.
\<close>

definition reads_only ::
  "json_lib \<Rightarrow> (string \<Rightarrow> string) \<Rightarrow> pg set \<Rightarrow> pg \<Rightarrow> redis_content \<Rightarrow> pg \<Rightarrow> redis_content \<Rightarrow> bool" where
  "reads_only json lower S st m st' m' \<longleftrightarrow>
     list_view st' = list_view st \<and> m' BooksListCacheGenKey = m BooksListCacheGenKey \<and> pages_ok json lower m' S"

lemma load_page_reads:
  assumes laws: "redis_laws redis content clock" and ok: "pages_ok json lower (content (w_redis w)) S" "w_store w \<in> S"
    and q: "canonical q" and g: "g \<le> generation (content (w_redis w))"
    and run: "load_page json lower redis (BooksListDataCacheKey g q) q w = (x, w')"
  shows "reads_only json lower S (w_store w) (content (w_redis w)) (w_store w') (content (w_redis w')) \<and>
    (\<forall>bs. x = Inr bs \<longrightarrow> bs = page_of lower q (w_store w))"
proof -
  let ?k = "BooksListDataCacheKey g q"
  obtain l st where load: "store_List lower q (w_store w) = (l, st)" by (cases "store_List lower q (w_store w)")
  have view: "list_view st = list_view (w_store w)" using store_view(1) [of lower q "w_store w"] load by simp
  show ?thesis
  proof (cases "\<exists>loaded v. l = Inr loaded \<and> json_Marshal json loaded = Inr v")
    case False
    with run load view ok show ?thesis by (auto simp: load_page_def reads_only_def split: sum.splits)
  next
    case True
    then obtain loaded v where l: "l = Inr loaded" "json_Marshal json loaded = Inr v" by blast
    have bs: "loaded = page_of lower q (w_store w)" using store_List_done load l(1) by (auto simp: page_of_def)
    obtain z r where set: "c_Set redis ?k v minute (w_redis w) = (z, r)" by (cases "c_Set redis ?k v minute (w_redis w)")
    have w': "w_store w' = st" "w_redis w' = r" "\<forall>bs'. x = Inr bs' \<longrightarrow> bs' = loaded"
      using run load l set by (auto simp: load_page_def split: sum.splits)
    have "(0 :: int) < minute" by (simp add: minute_def)
    then consider "content r = content (w_redis w)" | d where "content r = (content (w_redis w))(?k \<mapsto> (v, d))"
      using put [OF laws set] by blast
    then have "pages_ok json lower (content r) S \<and>
        content r BooksListCacheGenKey = content (w_redis w) BooksListCacheGenKey"
    proof cases
      case 1
      with ok show ?thesis by simp
    next
      case (2 d)
      have "pages_ok json lower (content r) S"
        unfolding 2 by (rule pages_ok_store [OF ok(1) q g ok(2)]) (use l(2) bs in simp)
      with 2 cache_key_gen [of g q] show ?thesis by simp
    qed
    with w' bs view show ?thesis by (simp add: reads_only_def)
  qed
qed

text \<open>
  A listing returns a page of one of the tables, once the generation was read, if their text is valid; and
  in any case it only reads.
\<close>

lemma ListBooks_reads:
  assumes laws: "redis_laws redis content clock"
    and svc: "sv_store s = SQLCBookStore lower" "sv_redis s = Some redis" "listSF s = (\<lambda>k. None)"
    and json: "json_law json" and q: "canonical q"
    and ok: "counter_ok (content (w_redis w))" "pages_ok json lower (content (w_redis w)) S" "w_store w \<in> S"
    and run: "ListBooks json s q w = (x, w')"
  shows "reads_only json lower S (w_store w) (content (w_redis w)) (w_store w') (content (w_redis w')) \<and>
    (answers redis BooksListCacheGenKey (w_redis w) \<longrightarrow> (\<forall>T \<in> S. text_valid T) \<longrightarrow>
      (\<forall>bs. x = Inr bs \<longrightarrow> (\<exists>T \<in> S. bs = page_of lower q T)))"
proof -
  obtain g r where g: "cacheGeneration s w = (g, w\<lparr>w_redis := r\<rparr>)" "content r = content (w_redis w)"
      "g \<le> generation (content (w_redis w))"
      "answers redis BooksListCacheGenKey (w_redis w) \<Longrightarrow> g = generation (content (w_redis w))"
    by (rule cacheGeneration_cases [OF laws svc(2) ok(1)]) blast
  let ?k = "BooksListDataCacheKey g q"
  obtain y r1 where get: "c_Get redis ?k r = (y, r1)" by (cases "c_Get redis ?k r")
  have r1: "content r1 = content (w_redis w)" using got(1) [OF laws get] g(2) by simp
  show ?thesis
  proof (cases y)
    case (Inl e)
    let ?w = "w\<lparr>w_redis := r1\<rparr>"
    have "ListBooks json s q w = load_page json lower redis ?k q ?w"
      using get Inl by (simp add: ListBooks_def load_page_def svc g(1) on_redis_eq on_store_eq SQLCBookStore_def Let_def
          split: sum.split prod.split)
    with run have load: "load_page json lower redis ?k q ?w = (x, w')" by simp
    have ok1: "pages_ok json lower (content (w_redis ?w)) S" "w_store ?w \<in> S" "g \<le> generation (content (w_redis ?w))"
      using ok g(3) r1 by simp_all
    from load_page_reads [OF laws ok1(1,2) q ok1(3) load] ok(3) r1 show ?thesis by auto
  next
    case (Inr v)
    then have hit: "ListBooks json s q w =
        ((case json_Unmarshal json v of Inl e \<Rightarrow> Inl (fmtError ErrListBooksUnmarshal e) | Inr bs \<Rightarrow> Inr bs),
         w\<lparr>w_redis := r1\<rparr>)"
      using get by (simp add: ListBooks_def svc(2) g(1) on_redis_eq Let_def split: sum.split)
    have "\<exists>T \<in> S. json_Unmarshal json v = Inr (map json_book (page_of lower q T))"
      if "answers redis BooksListCacheGenKey (w_redis w)"
      using page_found [OF json ok(2) q] got(2) [OF laws get Inr] g(2) g(4) [OF that] by simp
    moreover have "\<exists>T \<in> S. bs = page_of lower q T"
      if "T \<in> S" "\<forall>T \<in> S. text_valid T" "bs = map json_book (page_of lower q T)" for T bs
      using that page_of_text by blast
    ultimately have "\<exists>T \<in> S. bs = page_of lower q T"
      if "answers redis BooksListCacheGenKey (w_redis w)" "\<forall>T \<in> S. text_valid T" "x = Inr bs" for bs
      using hit run that by auto
    moreover have "reads_only json lower S (w_store w) (content (w_redis w)) (w_store w') (content (w_redis w'))"
      using hit run r1 ok(2) by (auto simp: reads_only_def)
    ultimately show ?thesis by blast
  qed
qed

section \<open>Mutations\<close>

text \<open>A mutation either changes nothing that a listing depends on, or is a commit and what follows it.\<close>

lemma store_update_cases:
  assumes "store_FirstByID i (w_store w) = (y, st)" and "\<And>u e u'. stmt u = (Inl e, u') \<Longrightarrow> list_view u' = list_view u"
    and svc: "sv_store s = SQLCBookStore lower"
  shows "(\<exists>u et b. snd (owned s a i stmt et' f w) = after_commit s et b (w\<lparr>w_store := u\<rparr>)) \<or>
    (\<exists>u. snd (owned s a i stmt et' f w) = w\<lparr>w_store := u\<rparr> \<and> list_view u = list_view (w_store w))"
proof -
  have view: "list_view st = list_view (w_store w)" using store_view(2) [of i "w_store w"] assms(1) by simp
  obtain z u where z: "stmt st = (z, u)" by (cases "stmt st")
  show ?thesis
  proof (cases "\<exists>b x. y = Inr b \<and> b_OwnerID b = a \<and> z = Inr x")
    case True
    with assms(1) z have "\<exists>b. snd (owned s a i stmt et' f w) = after_commit s et' b (w\<lparr>w_store := u\<rparr>)"
      by (auto simp: owned_def svc SQLCBookStore_def)
    then show ?thesis by blast
  next
    case False
    then have "snd (owned s a i stmt et' f w) = w\<lparr>w_store := st\<rparr> \<or>
        (\<exists>e. z = Inl e) \<and> snd (owned s a i stmt et' f w) = w\<lparr>w_store := u\<rparr>"
      using assms(1) z by (auto simp: owned_def svc SQLCBookStore_def split: sum.splits)
    moreover have "list_view u = list_view (w_store w)" if "\<exists>e. z = Inl e" using that z assms(2) view by auto
    ultimately show ?thesis using view by blast
  qed
qed

lemma mutation_cases:
  assumes "actor_of op \<noteq> None" and svc: "sv_store s = SQLCBookStore lower"
  obtains u et b where "run_op json s op w = after_commit s et b (w\<lparr>w_store := u\<rparr>)"
  | u where "run_op json s op w = w\<lparr>w_store := u\<rparr>" "list_view u = list_view (w_store w)"
proof -
  have owned: "(\<exists>u et b. snd (owned s a i stmt et' f w) = after_commit s et b (w\<lparr>w_store := u\<rparr>)) \<or>
      (\<exists>u. snd (owned s a i stmt et' f w) = w\<lparr>w_store := u\<rparr> \<and> list_view u = list_view (w_store w))"
    if "\<And>u e u'. stmt u = (Inl e, u') \<Longrightarrow> list_view u' = list_view u"
    for a i f et' and stmt :: "pg \<Rightarrow> (go_error + 'x) \<times> pg"
    by (rule store_update_cases [OF surjective_pairing that svc])
  have "(\<exists>u et b. run_op json s op w = after_commit s et b (w\<lparr>w_store := u\<rparr>)) \<or>
      (\<exists>u. run_op json s op w = w\<lparr>w_store := u\<rparr> \<and> list_view u = list_view (w_store w))"
  proof (cases op)
    case (CreateOp a t au)
    obtain z u where "store_Create (newBook a t au) (w_store w) = (z, u)" by (cases "store_Create (newBook a t au) (w_store w)")
    with CreateOp store_errors_view(1) [of "newBook a t au" "w_store w" _ u] show ?thesis
      by (cases z) (auto simp: create_eq svc SQLCBookStore_def)
  next
    case (ReplaceOp a i t au)
    then show ?thesis using owned [OF store_errors_view(2)] by (simp add: owned_eqs svc SQLCBookStore_def)
  next
    case (PatchOp a i t au)
    then show ?thesis using owned [OF store_errors_view(3)] by (simp add: owned_eqs svc SQLCBookStore_def)
  next
    case (DeleteOp a i)
    then show ?thesis using owned [OF store_errors_view(4)] by (simp add: owned_eqs svc SQLCBookStore_def)
  qed (use assms(1) in simp_all)
  with that show thesis by blast
qed

text \<open>What a commit does to the cache: the generation rises, unless Redis refuses the increment.\<close>

lemma commit_cache:
  assumes laws: "redis_laws redis content clock" and svc: "sv_redis s = Some redis"
    and ok: "counter_ok (content (w_redis w))" "pages_ok json lower (content (w_redis w)) S"
  shows "content (w_redis (after_commit s et b w)) = content (w_redis w) \<or>
    (counter_ok (content (w_redis (after_commit s et b w))) \<and>
     generation (content (w_redis (after_commit s et b w))) = generation (content (w_redis w)) + 1 \<and>
     (\<forall>S'. pages_ok json lower (content (w_redis (after_commit s et b w))) S'))"
proof -
  let ?G = BooksListCacheGenKey
  obtain x r where inc: "c_Incr redis ?G (w_redis w) = (x, r)" by (cases "c_Incr redis ?G (w_redis w)")
  then have redis: "w_redis (after_commit s et b w) = r" by (simp add: after_commit_redis svc)
  note law = redis_lawsD(3) [OF laws, of ?G "w_redis w", unfolded inc]
  show ?thesis
  proof (cases x)
    case (Inl e)
    with law show ?thesis by (simp add: redis counted_def)
  next
    case (Inr n)
    with law obtain e where
      e: "incr_entry (clock (w_redis w)) None (content (w_redis w) ?G) = Some (e, n)" "content r = (content (w_redis w))(?G \<mapsto> e)"
      by (auto simp: counted_def)
    with counter_up [where m = "content (w_redis w)", OF ok(1) e(1)] counter_raised [OF ok e(1)] show ?thesis by (simp add: redis)
  qed
qed

end
