(* ===== verification/Cache_Theorems.thy ===== *)
theory Cache_Theorems
  imports Book_Cache
begin

text \<open>
  The properties of listings of the deployed service, whose pages come from Redis or from the database: after
  any calls they are current up to increments of the generation that Redis refused; they are pages of the
  sorted matching books; and consecutive pages fit.
\<close>

section \<open>Runs\<close>

text \<open>
  A state of a run: the world, the tables there have been since the generation last rose, and whether an
  increment is owed: since then a mutation changed the table while Redis refused to increment.
\<close>

record ('r, 'p) cached =
  ca_world :: "(pg, 'r, 'p) world"
  ca_tables :: "pg set"
  ca_owing :: bool

definition cache_start :: "(pg, 'r, 'p) world \<Rightarrow> ('r, 'p) cached" where
  "cache_start w = \<lparr>ca_world = w, ca_tables = {w_store w}, ca_owing = False\<rparr>"

definition refuses :: "(pg, 'r, 'p) BookService \<Rightarrow> (pg, 'r, 'p) world \<Rightarrow> bool" where
  "refuses s w =
     (case sv_redis s of
        None \<Rightarrow> False
      | Some redis \<Rightarrow> \<not> is_ok (fst (c_Incr redis BooksListCacheGenKey (w_redis w))))"

definition observe ::
  "bool \<Rightarrow> ('r \<Rightarrow> redis_content) \<Rightarrow> ('r, 'p) cached \<Rightarrow> (pg, 'r, 'p) world \<Rightarrow> ('r, 'p) cached" where
  "observe refused content c w =
     (if generation (content (w_redis (ca_world c))) < generation (content (w_redis w))
      then \<lparr>ca_world = w, ca_tables = {w_store w}, ca_owing = False\<rparr>
      else \<lparr>ca_world = w, ca_tables = insert (w_store w) (ca_tables c),
            ca_owing = (ca_owing c \<or> (refused \<and> list_view (w_store w) \<noteq> list_view (w_store (ca_world c))))\<rparr>)"

text \<open>
  The service's calls, in any order and with any outcome, where listings are canonical; and what happens
  elsewhere: time passes, pages lapse, other keys of Redis and other tables change.
\<close>

inductive cache_step ::
  "json_lib \<Rightarrow> (pg, 'r, 'p) BookService \<Rightarrow> ('r \<Rightarrow> redis_content) \<Rightarrow> ('r, 'p) cached \<Rightarrow> ('r, 'p) cached \<Rightarrow> bool"
  for json s content where
  call: "(\<And>q. op = ListOp q \<Longrightarrow> canonical q) \<Longrightarrow>
      cache_step json s content c (observe (refuses s (ca_world c)) content c (run_op json s op (ca_world c)))"
| elsewhere: "list_view (w_store w) = list_view (w_store (ca_world c)) \<Longrightarrow>
      content (w_redis w) BooksListCacheGenKey = content (w_redis (ca_world c)) BooksListCacheGenKey \<Longrightarrow>
      (\<And>k. book_page_key k \<Longrightarrow> content (w_redis w) k = content (w_redis (ca_world c)) k \<or> content (w_redis w) k = None) \<Longrightarrow>
      cache_step json s content c (observe False content c w)"

text \<open>Listings see all the tables as the given one.\<close>

definition seen_as :: "pg \<Rightarrow> pg set \<Rightarrow> bool" where
  "seen_as st S \<longleftrightarrow> list_view ` S \<subseteq> {list_view st}"

lemma seen_asD: "seen_as st S \<Longrightarrow> T \<in> S \<Longrightarrow> list_view T = list_view st"
  unfolding seen_as_def by blast

lemma seen_as_simps: "seen_as st {st}" "seen_as st S \<Longrightarrow> list_view st' = list_view st \<Longrightarrow> seen_as st' (insert st' S)"
  unfolding seen_as_def by auto

definition cache_ok ::
  "json_lib \<Rightarrow> (string \<Rightarrow> string) \<Rightarrow> ('r \<Rightarrow> redis_content) \<Rightarrow> ('r, 'p) cached \<Rightarrow> bool" where
  "cache_ok json lower content c \<longleftrightarrow>
     counter_ok (content (w_redis (ca_world c))) \<and>
     pages_ok json lower (content (w_redis (ca_world c))) (ca_tables c) \<and> w_store (ca_world c) \<in> ca_tables c \<and>
     (\<not> ca_owing c \<longrightarrow> seen_as (w_store (ca_world c)) (ca_tables c))"

lemma cache_start_ok: "coherent json lower content w \<Longrightarrow> cache_ok json lower content (cache_start w)"
  by (simp add: coherent_def cache_ok_def cache_start_def seen_as_simps)

text \<open>What a step of a run may do to the cache, whatever it does to the table.\<close>

definition cache_moves :: "json_lib \<Rightarrow> (string \<Rightarrow> string) \<Rightarrow> pg set \<Rightarrow> redis_content \<Rightarrow> redis_content \<Rightarrow> bool" where
  "cache_moves json lower S m m' \<longleftrightarrow> counter_ok m' \<and>
     (generation m' = generation m \<and> pages_ok json lower m' S \<or>
      generation m' = generation m + 1 \<and> (\<forall>S'. pages_ok json lower m' S'))"

lemma same_counter:
  "m' BooksListCacheGenKey = m BooksListCacheGenKey \<Longrightarrow> generation m' = generation m \<and> (counter_ok m' \<longleftrightarrow> counter_ok m)"
  by (simp add: generation_def counter_ok_def)

lemma observe_ok:
  assumes "cache_ok json lower content c" and "cache_moves json lower (ca_tables c) (content (w_redis (ca_world c))) (content (w_redis w))"
    and "list_view (w_store w) = list_view (w_store (ca_world c)) \<or> refused \<or>
      generation (content (w_redis (ca_world c))) < generation (content (w_redis w))"
  shows "cache_ok json lower content (observe refused content c w)"
proof (cases "generation (content (w_redis (ca_world c))) < generation (content (w_redis w))")
  case True
  with assms(2) have "counter_ok (content (w_redis w))" "pages_ok json lower (content (w_redis w)) {w_store w}"
    by (simp_all add: cache_moves_def)
  with True show ?thesis by (simp add: cache_ok_def observe_def seen_as_simps)
next
  case False
  with assms(2) have "counter_ok (content (w_redis w))" "pages_ok json lower (content (w_redis w)) (ca_tables c)"
    by (simp_all add: cache_moves_def)
  then have "counter_ok (content (w_redis w))" "pages_ok json lower (content (w_redis w)) (insert (w_store w) (ca_tables c))"
    by (simp_all add: pages_ok_mono [OF _ subset_insertI])
  moreover have "seen_as (w_store w) (insert (w_store w) (ca_tables c))"
    if "\<not> ca_owing c" "list_view (w_store w) = list_view (w_store (ca_world c))"
    using assms(1) that seen_as_simps(2) [of "w_store (ca_world c)" "ca_tables c" "w_store w"] by (simp add: cache_ok_def)
  ultimately show ?thesis using False assms(3) by (auto simp: cache_ok_def observe_def)
qed

lemma commit_moves:
  assumes laws: "redis_laws redis content clock" and svc: "sv_store s = SQLCBookStore lower" "sv_redis s = Some redis"
    and op: "actor_of op \<noteq> None"
    and ok: "counter_ok (content (w_redis w))" "pages_ok json lower (content (w_redis w)) S"
  shows "cache_moves json lower S (content (w_redis w)) (content (w_redis (run_op json s op w)))"
  using op svc(1)
proof (cases rule: mutation_cases [of op s lower json w, case_names commit same])
  case (commit u et b)
  let ?v = "w\<lparr>w_store := u\<rparr>"
  have "counter_ok (content (w_redis ?v))" "pages_ok json lower (content (w_redis ?v)) S" using ok by simp_all
  from commit_cache [OF laws svc(2) this, of et b] show ?thesis
  proof
    assume "content (w_redis (after_commit s et b ?v)) = content (w_redis ?v)"
    with ok show ?thesis unfolding commit by (simp add: cache_moves_def)
  qed (simp add: commit cache_moves_def)
next
  case (same u)
  with ok show ?thesis by (simp add: cache_moves_def)
qed

lemma run_op_moves:
  assumes laws: "redis_laws redis content clock"
    and svc: "sv_store s = SQLCBookStore lower" "sv_redis s = Some redis" "listSF s = (\<lambda>k. None)"
    and json: "json_law json" and canon: "\<And>q. op = ListOp q \<Longrightarrow> canonical q"
    and ok: "counter_ok (content (w_redis w))" "pages_ok json lower (content (w_redis w)) S" "w_store w \<in> S"
  shows "cache_moves json lower S (content (w_redis w)) (content (w_redis (run_op json s op w)))"
proof (cases op)
  case (ListOp q)
  obtain x w' where run: "ListBooks json s q w = (x, w')" by (cases "ListBooks json s q w")
  with ListBooks_reads [OF laws svc json canon [OF ListOp] ok run] same_counter [of "content (w_redis w')" "content (w_redis w)"] ok(1) ListOp
  show ?thesis by (simp add: reads_only_def cache_moves_def)
next
  case (GetOp i)
  with ok show ?thesis by (simp add: GetBook_def on_store_eq cache_moves_def)
qed (use commit_moves [OF laws svc(1,2) _ ok(1,2), of op] in simp_all)

text \<open>A call that changes the table raises the generation, unless Redis refuses the increment.\<close>

lemma change_raises:
  assumes laws: "redis_laws redis content clock" and svc: "sv_store s = SQLCBookStore lower" "sv_redis s = Some redis"
    and counter: "counter_ok (content (w_redis w))" and changed: "list_view (w_store (run_op json s op w)) \<noteq> list_view (w_store w)"
  shows "refuses s w \<or> generation (content (w_redis w)) < generation (content (w_redis (run_op json s op w)))"
proof -
  have "actor_of op \<noteq> None"
  proof
    assume "actor_of op = None"
    then consider q where "op = ListOp q" | i where "op = GetOp i" by (cases op) auto
    then have "list_view (w_store (run_op json s op w)) = list_view (w_store w)"
    proof cases
      case (1 q)
      with ListBooks_store [of json s q w] store_view(1) [of lower q "w_store w"] svc(1) show ?thesis
        by (auto simp: SQLCBookStore_def)
    next
      case (2 i)
      with store_view(2) [of i "w_store w"] svc(1) show ?thesis by (simp add: GetBook_def SQLCBookStore_def on_store_eq)
    qed
    with changed show False ..
  qed
  then show ?thesis using svc(1)
  proof (cases rule: mutation_cases [of op s lower json w, case_names commit same])
    case (commit u et b)
    obtain x r where inc: "c_Incr redis BooksListCacheGenKey (w_redis w) = (x, r)"
      by (cases "c_Incr redis BooksListCacheGenKey (w_redis w)")
    show ?thesis
    proof (cases x)
      case (Inl e)
      with inc show ?thesis by (simp add: refuses_def svc(2) is_ok_def)
    next
      case (Inr n)
      with redis_lawsD(3) [OF laws, of BooksListCacheGenKey "w_redis w"] inc obtain e where
        e: "incr_entry (clock (w_redis w)) None (content (w_redis w) BooksListCacheGenKey) = Some (e, n)"
          "content r = (content (w_redis w))(BooksListCacheGenKey \<mapsto> e)" by (auto simp: counted_def)
      from counter_up [where m = "content (w_redis w)", OF counter e(1)] commit inc e(2) show ?thesis
        by (simp add: after_commit_redis svc(2))
    qed
  next
    case (same u)
    with changed show ?thesis by simp
  qed
qed

lemma cache_step_ok:
  assumes laws: "redis_laws redis content clock"
    and svc: "sv_store s = SQLCBookStore lower" "sv_redis s = Some redis" "listSF s = (\<lambda>k. None)"
    and json: "json_law json" and step: "cache_step json s content c c'" and ok: "cache_ok json lower content c"
  shows "cache_ok json lower content c'"
  using step
proof (cases rule: cache_step.cases)
  case (call op)
  have "counter_ok (content (w_redis (ca_world c)))" "pages_ok json lower (content (w_redis (ca_world c))) (ca_tables c)"
    "w_store (ca_world c) \<in> ca_tables c" using ok by (simp_all add: cache_ok_def)
  from observe_ok [OF ok run_op_moves [OF laws svc json call(2) this]] change_raises [OF laws svc(1,2) this(1)]
  show ?thesis unfolding call(1) by blast
next
  case (elsewhere w)
  from ok have "pages_ok json lower (content (w_redis (ca_world c))) (ca_tables c)" by (simp add: cache_ok_def)
  then have "pages_ok json lower (content (w_redis w)) (ca_tables c)"
    by (rule pages_ok_less) (rule elsewhere(3), rule elsewhere(4))
  with ok same_counter [of "content (w_redis w)" "content (w_redis (ca_world c))", OF elsewhere(3)]
  have "cache_moves json lower (ca_tables c) (content (w_redis (ca_world c))) (content (w_redis w))"
    by (simp add: cache_moves_def cache_ok_def)
  from observe_ok [OF ok this] elsewhere(2) show ?thesis unfolding elsewhere(1) by blast
qed

lemma cache_run_ok:
  assumes laws: "redis_laws redis content clock"
    and svc: "sv_store s = SQLCBookStore lower" "sv_redis s = Some redis" "listSF s = (\<lambda>k. None)"
    and json: "json_law json" and start: "coherent json lower content w"
    and run: "(cache_step json s content)\<^sup>*\<^sup>* (cache_start w) c"
  shows "cache_ok json lower content c"
  using run cache_start_ok [OF start]
  by (induction rule: rtranclp_induct) (auto intro: cache_step_ok [OF laws svc json])

section \<open>Listings are current\<close>

text \<open>One listing in a state of a run.\<close>

lemma listing_current:
  assumes laws: "redis_laws redis content clock"
    and svc: "sv_store s = SQLCBookStore lower" "sv_redis s = Some redis" "listSF s = (\<lambda>k. None)"
    and json: "json_law json" and ok: "cache_ok json lower content c" and paid: "\<not> ca_owing c"
    and q: "canonical q" and up: "answers redis BooksListCacheGenKey (w_redis (ca_world c))"
    and valid: "text_valid (w_store (ca_world c))" and list: "ListBooks json s q (ca_world c) = (Inr bs, w)"
  shows "bs = page_of lower q (w_store (ca_world c))" "list_view (w_store w) = list_view (w_store (ca_world c))"
    "cache_ok json lower content (observe False content c w)" "\<not> ca_owing (observe False content c w)"
    "ca_world (observe False content c w) = w"
proof -
  have inv: "counter_ok (content (w_redis (ca_world c)))" "pages_ok json lower (content (w_redis (ca_world c))) (ca_tables c)"
    "w_store (ca_world c) \<in> ca_tables c" using ok by (simp_all add: cache_ok_def)
  have views: "list_view T = list_view (w_store (ca_world c))" if "T \<in> ca_tables c" for T
    using ok paid seen_asD [OF _ that] by (simp add: cache_ok_def)
  have "\<forall>T \<in> ca_tables c. text_valid T" using valid text_valid_view [OF views] by blast
  with ListBooks_reads [OF laws svc json q inv list] up obtain T where T: "T \<in> ca_tables c" "bs = page_of lower q T" by blast
  then show "bs = page_of lower q (w_store (ca_world c))" using page_of_view [OF views] by simp
  show view: "list_view (w_store w) = list_view (w_store (ca_world c))"
    using ListBooks_reads [OF laws svc json q inv list] by (simp add: reads_only_def)
  have "cache_moves json lower (ca_tables c) (content (w_redis (ca_world c))) (content (w_redis w))"
    using run_op_moves [OF laws svc json _ inv, of "ListOp q"] q list by simp
  then show "cache_ok json lower content (observe False content c w)" by (rule observe_ok [OF ok]) (simp add: view)
  show "\<not> ca_owing (observe False content c w)" "ca_world (observe False content c w) = w" using view paid by (simp_all add: observe_def)
qed

text \<open>
  C20. Coherence of the cache: from a cache that is empty or coherent, after any calls of the service that do not
  overlap, in any order, with any outcome and with any
  lapse of cached pages, a listing that could read the generation returns the page of a table there has been
  since the generation last rose. That is the table as it is now, unless a mutation after that was committed while
  Redis refused to increment the generation, an error the service ignores. PostgreSQL holds valid UTF-8, and
  nothing but the service writes the keys of the cache. (Calls that overlap are the subject of Book_Race.)
\<close>

theorem cached_listing_current:
  assumes laws: "redis_laws redis content clock"
    and svc: "sv_store s = SQLCBookStore lower" "sv_redis s = Some redis" "listSF s = (\<lambda>k. None)"
    and json: "json_law json"
    and start: "coherent json lower content w0" and run: "(cache_step json s content)\<^sup>*\<^sup>* (cache_start w0) c"
    and q: "canonical q" and up: "answers redis BooksListCacheGenKey (w_redis (ca_world c))"
    and valid: "\<forall>T \<in> ca_tables c. text_valid T"
    and list: "ListBooks json s q (ca_world c) = (Inr bs, w')"
  shows "(\<exists>T \<in> ca_tables c. bs = map bookFromDB (run_list lower q T)) \<and>
    (\<not> ca_owing c \<longrightarrow> bs = map bookFromDB (run_list lower q (w_store (ca_world c))))"
proof -
  have ok: "cache_ok json lower content c" by (rule cache_run_ok [OF laws svc json start run])
  then have inv: "counter_ok (content (w_redis (ca_world c)))" "pages_ok json lower (content (w_redis (ca_world c))) (ca_tables c)"
    "w_store (ca_world c) \<in> ca_tables c" by (simp_all add: cache_ok_def)
  with ListBooks_reads [OF laws svc json q inv list] up valid listing_current(1) [OF laws svc json ok _ q up _ list] show ?thesis
    by (auto simp: page_of_def)
qed

section \<open>What a listing holds\<close>

text \<open>
  C23. A listing of the deployed service, with the cache in any state that calls one after another have left it
  in from a coherent one, no refused increment owed and the generation readable, is the requested page of a list that holds every stored book matching the
  filters once and nothing else, sorted by the allowlisted column and direction with ties by
  key. Filters are literal: no character of a filter acts as a wildcard.
\<close>

theorem listing_is_page_of_matches:
  assumes laws: "redis_laws redis content clock"
    and svc: "sv_store s = SQLCBookStore lower" "sv_redis s = Some redis" "listSF s = (\<lambda>k. None)"
    and json: "json_law json" and lower: "lower_law lower"
    and start: "coherent json lower content w0" and run: "(cache_step json s content)\<^sup>*\<^sup>* (cache_start w0) c"
    and paid: "\<not> ca_owing c" and db: "pg_ok (w_store (ca_world c))" "text_valid (w_store (ca_world c))"
    and q: "canonical q" and up: "answers redis BooksListCacheGenKey (w_redis (ca_world c))"
    and list: "ListBooks json s q (ca_world c) = (Inr bs, w')"
  shows "\<exists>rows. bs = map bookFromDB (page (q_Offset q) (q_Limit q) rows) \<and>
    set rows = {r \<in> set (pg_books (w_store (ca_world c))). wanted (w_store (ca_world c)) lower q r} \<and> distinct (map br_ID rows) \<and>
    sorted_wrt (row_le (w_store (ca_world c)) (norm_sort (q_Sort q)) (norm_order (q_Order q))) rows"
proof -
  have "bs = page_of lower q (w_store (ca_world c))"
    by (rule listing_current(1) [OF laws svc json cache_run_ok [OF laws svc json start run] paid q up db(2) list])
  with run_list_is_page [OF lower db(1), of q] show ?thesis by (auto simp: page_of_def)
qed

text \<open>
  C24. Pages fit: while no book changes, a page and the page after it are together the longer
  page from the first one's offset, whether they come from Redis or from the database; paging neither skips
  nor repeats a book. As before, the cache is as calls have left it, no refused increment is owed and Redis answers
  for the generation.
\<close>

theorem consecutive_pages_fit:
  assumes laws: "redis_laws redis content clock"
    and svc: "sv_store s = SQLCBookStore lower" "sv_redis s = Some redis" "listSF s = (\<lambda>k. None)"
    and json: "json_law json"
    and start: "coherent json lower content w0" and run: "(cache_step json s content)\<^sup>*\<^sup>* (cache_start w0) c"
    and paid: "\<not> ca_owing c" and valid: "text_valid (w_store (ca_world c))"
    and q: "canonical (q\<lparr>q_Offset := off, q_Limit := l\<rparr>)" "canonical (q\<lparr>q_Offset := off + l, q_Limit := m\<rparr>)"
      "canonical (q\<lparr>q_Offset := off, q_Limit := l + m\<rparr>)"
    and up: "answers redis BooksListCacheGenKey (w_redis (ca_world c))" "answers redis BooksListCacheGenKey (w_redis w1)"
      "answers redis BooksListCacheGenKey (w_redis w2)"
    and xs: "ListBooks json s (q\<lparr>q_Offset := off, q_Limit := l\<rparr>) (ca_world c) = (Inr xs, w1)"
    and ys: "ListBooks json s (q\<lparr>q_Offset := off + l, q_Limit := m\<rparr>) w1 = (Inr ys, w2)"
    and zs: "ListBooks json s (q\<lparr>q_Offset := off, q_Limit := l + m\<rparr>) w2 = (Inr zs, w3)"
  shows "xs @ ys = zs"
proof -
  note step = listing_current [OF laws svc json]
  let ?c1 = "observe False content c w1"
  note one = step [OF cache_run_ok [OF laws svc json start run] paid q(1) up(1) valid xs]
  have valid1: "text_valid (w_store (ca_world ?c1))" using valid text_valid_view [OF one(2)] one(5) by simp
  note two = step [OF one(3,4) q(2), unfolded one(5), OF up(2) valid1 [unfolded one(5)] ys]
  let ?c2 = "observe False content ?c1 w2"
  have valid2: "text_valid (w_store w2)" using valid1 text_valid_view [OF two(2)] one(5) by simp
  note three = step [OF two(3,4) q(3), unfolded two(5), OF up(3) valid2 zs]
  have "page_of lower p (w_store w1) = page_of lower p (w_store (ca_world c))"
    "page_of lower p (w_store w2) = page_of lower p (w_store w1)" for p
    using page_of_view [OF one(2)] page_of_view [OF two(2)] by simp_all
  with one(1) two(1) three(1)
    run_list_pages_fit [of off l m lower q "w_store (ca_world c)"] q show ?thesis
    by (simp add: page_of_def canonical_def flip: map_append)
qed

section \<open>Runs of the service\<close>

text \<open>A cached page that a deletion leaves behind.\<close>

definition demo_first_book :: Book where
  "demo_first_book = bookFromDB (demo_book 1 1 ''Go'' ''Pike'')"

definition demo_pages_json :: json_lib where
  "demo_pages_json =
     \<lparr>json_Marshal = (\<lambda>bs. if bs = [] then Inr ''[]'' else if bs = [demo_first_book] then Inr ''[1]''
        else Inl (ErrText ''json: unsupported value'')),
      json_Unmarshal = (\<lambda>v. if v = ''[]'' then Inr [] else if v = ''[1]'' then Inr [demo_first_book]
        else Inl (ErrText ''invalid character''))\<rparr>"

definition demo_cached :: "(pg, redis_mem, unit) BookService" where
  "demo_cached = NewBookService (SQLCBookStore (map lower_char)) (Some mem_redis) None"

definition demo_page_world :: "(pg, redis_mem, unit) world" where
  "demo_page_world = demo_world demo_pg
     \<lparr>rm_content = [BooksListDataCacheKey 0 demo_query \<mapsto> (''[1]'', Some minute)], rm_now = 0, rm_down = False\<rparr> ()"

lemma demo_ascii: "valid_utf8 ''Go''" "valid_utf8 ''Pike''" "valid_utf8 ''C''" "valid_utf8 ''Ritchie''"
  by (rule valid_ascii, simp add: ascii_def byte_in_def)+

lemma demo_pages_law: "json_law demo_pages_json"
proof -
  have "json_book demo_first_book = demo_first_book"
    using demo_ascii by (simp add: json_book_def demo_first_book_def bookFromDB_def demo_book_def valid_utf8_def)
  then show ?thesis by (simp add: json_law_def demo_pages_json_def)
qed

lemma demo_query_canonical: "canonical demo_query"
  by (simp add: canonical_def demo_query_def BookListSortFields_def max_int64_def)

lemma demo_matches:
  "row_matches s (map lower_char) demo_query (demo_book i ow t a) \<longleftrightarrow> contains (pg_lower s t) (map lower_char ''o'')"
  by (simp add: row_matches_wanted [OF lower_char_law] wanted_def demo_query_def demo_book_def contains_sublist)

lemma demo_contains:
  "contains (map lower_char ''Go'') (map lower_char ''o'')" "\<not> contains (map lower_char ''C'') (map lower_char ''o'')"
  by code_simp+

definition demo_after_delete :: pg where
  "demo_after_delete = demo_pg\<lparr>pg_books := [demo_book 2 2 ''C'' ''Ritchie''], pg_step := 2\<rparr>"

lemma demo_tables:
  "pg_books demo_pg = [demo_book 1 1 ''Go'' ''Pike'', demo_book 2 2 ''C'' ''Ritchie'']" "pg_lower demo_pg = map lower_char"
  "pg_books demo_after_delete = [demo_book 2 2 ''C'' ''Ritchie'']" "pg_lower demo_after_delete = map lower_char"
  "pg_step demo_after_delete = 2" "pg_fault demo_after_delete k = None"
  by (simp_all add: demo_pg_def demo_after_delete_def)

lemma demo_query_page: "q_Offset demo_query = 0" "q_Limit demo_query = 10"
  by (simp_all add: demo_query_def)

lemma demo_pages:
  "run_list (map lower_char) demo_query demo_pg = [demo_book 1 1 ''Go'' ''Pike'']"
  "run_list (map lower_char) demo_query demo_after_delete = []"
  using demo_contains by (simp_all only: run_list_def demo_matches demo_tables demo_query_page filter.simps if_True if_False
      sort_rows.simps insert_row.simps page_def Let_def) simp_all

lemma demo_text: "text_valid demo_pg" "text_valid demo_after_delete"
  using demo_ascii by (simp_all add: text_valid_def demo_tables demo_book_def)

lemma demo_page_coherent: "coherent demo_pages_json (map lower_char) rm_content demo_page_world"
proof -
  let ?m = "[BooksListDataCacheKey 0 demo_query \<mapsto> (''[1]'', Some minute)]"
  have g: "?m BooksListCacheGenKey = None" using cache_key_gen [of 0 demo_query] by simp
  have "json_Marshal demo_pages_json (page_of (map lower_char) demo_query demo_pg) = Inr ''[1]''"
    by (simp add: page_of_def demo_pages demo_pages_json_def demo_first_book_def)
  then have "pages_ok demo_pages_json (map lower_char) ?m {demo_pg}"
    using generation_eqs(1) [of ?m, OF g] by (intro pages_okI) (auto simp: cache_key_unique demo_query_canonical split: if_splits)
  with g show ?thesis by (simp add: coherent_def counter_ok_def demo_page_world_def demo_world_def)
qed

lemma demo_cached_eqs:
  "sv_store demo_cached = SQLCBookStore (map lower_char)" "sv_redis demo_cached = Some mem_redis"
  "listSF demo_cached = (\<lambda>k. None)" "sv_publisher demo_cached = None"
  by (simp_all add: demo_cached_def NewBookService_def)

definition demo_bumped :: redis_mem where
  "demo_bumped =
     \<lparr>rm_content = [BooksListDataCacheKey 0 demo_query \<mapsto> (''[1]'', Some minute), BooksListCacheGenKey \<mapsto> (''1'', None)],
      rm_now = 0, rm_down = False\<rparr>"

lemma demo_bump: "c_Incr mem_redis BooksListCacheGenKey (w_redis demo_page_world) = (Inr 1, demo_bumped)"
proof -
  have "show_int 1 = ''1''" by code_simp
  then show ?thesis
    using cache_key_gen [of 0 demo_query]
    by (simp add: mem_redis_def rm_exec_def rm_incr_def incr_entry_def live_def demo_page_world_def demo_world_def demo_bumped_def)
qed

lemma demo_page_deleted:
  "run_op demo_pages_json demo_cached (DeleteOp 1 1) demo_page_world =
     demo_page_world\<lparr>w_store := demo_after_delete, w_redis := demo_bumped\<rparr>"
proof -
  have del: "store_DeleteByID 1 (demo_db 1) = (Inr (), demo_after_delete)"
    by (simp add: store_DeleteByID_def q_DeleteBook_def pg_exec_def demo_db_def demo_pg_def demo_after_delete_def
        sql_count_def sql_delete_def demo_ids demo_book_def eval_nat_numeral)
  have "w_store demo_page_world = demo_db 0" by (simp add: demo_page_world_def demo_world_def demo_db_0)
  then show ?thesis
    using demo_books(1) [of 0] del demo_bump
    by (simp add: owned_eqs owned_def demo_cached_eqs SQLCBookStore_def bookFromDB_def demo_book_def demo_ids
        after_commit_def bumpListCacheGeneration_def publishBookEvent_def on_redis_eq)
qed

lemma demo_page_listed:
  "\<exists>bs w'. ListBooks demo_pages_json demo_cached demo_query
     (demo_page_world\<lparr>w_store := demo_after_delete, w_redis := demo_bumped\<rparr>) = (Inr bs, w')"
proof -
  have one: "ParseInt ''1'' = Some 1" by code_simp
  have gen: "c_Get mem_redis BooksListCacheGenKey demo_bumped = (Inr ''1'', demo_bumped)"
    by (simp add: mem_redis_def rm_exec_def demo_bumped_def live_def)
  have "rm_content demo_bumped (BooksListDataCacheKey 1 demo_query) = None"
    using cache_key_gen [of 1 demo_query] by (simp add: demo_bumped_def cache_key_unique demo_query_canonical)
  then have page: "c_Get mem_redis (BooksListDataCacheKey 1 demo_query) demo_bumped = (Inl (Sentinel ErrRedisNil), demo_bumped)"
    by (simp add: mem_redis_def rm_exec_def live_def) (simp add: demo_bumped_def)
  have rows: "\<exists>st. store_List (map lower_char) demo_query demo_after_delete = (Inr [], st)"
    by (simp add: store_List_run pg_exec_def demo_tables run_list_step demo_pages Let_def)
  have set: "\<exists>r. c_Set mem_redis k v d demo_bumped = (Inr (), r)" for k v d
    by (simp add: mem_redis_def rm_exec_def) (simp add: demo_bumped_def)
  show ?thesis
    using gen page rows set [of "BooksListDataCacheKey 1 demo_query" "''[]''" minute]
    by (auto simp: ListBooks_def cacheGeneration_def demo_cached_eqs on_redis_eq on_store_eq SQLCBookStore_def one
        demo_pages_json_def Let_def)
qed

definition demo_deleted_world :: "(pg, redis_mem, unit) world" where
  "demo_deleted_world = demo_page_world\<lparr>w_store := demo_after_delete, w_redis := demo_bumped\<rparr>"

definition demo_deleted_state :: "(redis_mem, unit) cached" where
  "demo_deleted_state = \<lparr>ca_world = demo_deleted_world, ca_tables = {demo_after_delete}, ca_owing = False\<rparr>"

lemma demo_deleted_run: "(cache_step demo_pages_json demo_cached rm_content)\<^sup>*\<^sup>* (cache_start demo_page_world) demo_deleted_state"
proof -
  have start: "ca_world (cache_start demo_page_world) = demo_page_world" by (simp add: cache_start_def)
  have step: "cache_step demo_pages_json demo_cached rm_content (cache_start demo_page_world)
      (observe (refuses demo_cached demo_page_world) rm_content (cache_start demo_page_world) demo_deleted_world)"
    using cache_step.call [of "DeleteOp 1 1" demo_pages_json demo_cached rm_content "cache_start demo_page_world"]
    unfolding start demo_page_deleted demo_deleted_world_def by blast
  have "generation (rm_content (w_redis demo_page_world)) = 0"
    using cache_key_gen [of 0 demo_query] by (intro generation_eqs(1)) (simp add: demo_page_world_def demo_world_def)
  moreover have "generation (rm_content demo_bumped) = 1"
  proof -
    have "ParseInt ''1'' = Some 1" by code_simp
    then show ?thesis by (simp add: generation_def demo_bumped_def)
  qed
  ultimately have "observe (refuses demo_cached demo_page_world) rm_content (cache_start demo_page_world) demo_deleted_world = demo_deleted_state"
    by (simp add: observe_def start demo_deleted_state_def demo_deleted_world_def)
  with step show ?thesis by (simp add: r_into_rtranclp)
qed

lemma demo_answers_gen: "\<not> rm_down r \<Longrightarrow> answers mem_redis BooksListCacheGenKey r"
  by (auto simp: answers_def mem_redis_def rm_exec_def split: option.split)

theorem cached_listing_current_witness:
  "rm_content (w_redis (ca_world demo_deleted_state)) (BooksListDataCacheKey 0 demo_query) = Some (''[1]'', Some minute) \<and>
   fst (ListBooks demo_pages_json demo_cached demo_query (ca_world demo_deleted_state)) = Inr []"
proof -
  obtain bs w' where list: "ListBooks demo_pages_json demo_cached demo_query (ca_world demo_deleted_state) = (Inr bs, w')"
    using demo_page_listed by (auto simp: demo_deleted_state_def demo_deleted_world_def)
  have up: "answers mem_redis BooksListCacheGenKey (w_redis (ca_world demo_deleted_state))"
    by (rule demo_answers_gen) (simp add: demo_deleted_state_def demo_deleted_world_def demo_bumped_def)
  have valid: "\<forall>T \<in> ca_tables demo_deleted_state. text_valid T" by (simp add: demo_deleted_state_def demo_text)
  from cached_listing_current [OF mem_redis_laws demo_cached_eqs(1-3) demo_pages_law demo_page_coherent demo_deleted_run
      demo_query_canonical up valid list]
  have "bs = []" by (simp add: demo_deleted_state_def demo_pages)
  with list show ?thesis
    using cache_key_gen [of 0 demo_query] by (simp add: demo_deleted_state_def demo_deleted_world_def demo_bumped_def)
qed

text \<open>A first listing of the demonstration table finds the cached page.\<close>

lemma demo_page_hit:
  "ListBooks demo_pages_json demo_cached demo_query demo_page_world = (Inr [demo_first_book], demo_page_world)"
proof -
  have gen: "c_Get mem_redis BooksListCacheGenKey (w_redis demo_page_world) = (Inl (Sentinel ErrRedisNil), w_redis demo_page_world)"
    using cache_key_gen [of 0 demo_query] by (simp add: mem_redis_def rm_exec_def live_def demo_page_world_def demo_world_def)
  have hit: "c_Get mem_redis (BooksListDataCacheKey 0 demo_query) (w_redis demo_page_world) = (Inr ''[1]'', w_redis demo_page_world)"
    by (simp add: mem_redis_def rm_exec_def live_def demo_page_world_def demo_world_def minute_def)
  have "json_Unmarshal demo_pages_json ''[1]'' = Inr [demo_first_book]" by (simp add: demo_pages_json_def)
  with gen hit show ?thesis by (simp add: ListBooks_def cacheGeneration_def demo_cached_eqs on_redis_eq Let_def)
qed

lemma demo_page_store: "w_store demo_page_world = demo_pg" "\<not> rm_down (w_redis demo_page_world)"
  by (simp_all add: demo_page_world_def demo_world_def)

theorem listing_is_page_of_matches_witness:
  "\<exists>rows. [demo_first_book] = map bookFromDB (page 0 10 rows) \<and> set rows = {demo_book 1 1 ''Go'' ''Pike''}"
proof -
  have "wanted demo_pg (map lower_char) demo_query r \<longleftrightarrow> row_matches demo_pg (map lower_char) demo_query r" for r
    by (simp add: row_matches_wanted [OF lower_char_law])
  moreover have "row_matches demo_pg (map lower_char) demo_query (demo_book 1 1 ''Go'' ''Pike'')"
    "\<not> row_matches demo_pg (map lower_char) demo_query (demo_book 2 2 ''C'' ''Ritchie'')"
    using demo_contains unfolding demo_matches demo_tables(2) .
  moreover have "set (pg_books demo_pg) = {demo_book 1 1 ''Go'' ''Pike'', demo_book 2 2 ''C'' ''Ritchie''}"
    by (simp add: demo_tables)
  ultimately have matching: "{r \<in> set (pg_books demo_pg). wanted demo_pg (map lower_char) demo_query r} = {demo_book 1 1 ''Go'' ''Pike''}"
    by blast
  have state: "ca_world (cache_start demo_page_world) = demo_page_world" "\<not> ca_owing (cache_start demo_page_world)"
    by (simp_all add: cache_start_def)
  have db: "pg_ok demo_pg" using demo_books_start by simp
  from listing_is_page_of_matches [OF mem_redis_laws demo_cached_eqs(1-3) demo_pages_law lower_char_law demo_page_coherent
      rtranclp.rtrancl_refl state(2), unfolded state(1) demo_page_store(1), OF db demo_text(1) demo_query_canonical
      demo_answers_gen [OF demo_page_store(2)] demo_page_hit]
  show ?thesis unfolding matching demo_query_page by (elim exE conjE) (intro exI conjI)
qed

text \<open>Three listings over an empty cache.\<close>

definition demo_cold :: "nat \<Rightarrow> redis_content \<Rightarrow> (pg, redis_mem, unit) world" where
  "demo_cold k m = demo_world (demo_db k) \<lparr>rm_content = m, rm_now = 0, rm_down = False\<rparr> ()"

definition demo_part :: "int \<Rightarrow> int \<Rightarrow> BookListQuery" where
  "demo_part off l = demo_query\<lparr>q_Offset := off, q_Limit := l\<rparr>"

lemma demo_part_canonical: "0 \<le> off \<Longrightarrow> off \<le> 10 \<Longrightarrow> 1 \<le> l \<Longrightarrow> l \<le> 100 \<Longrightarrow> canonical (demo_part off l)"
  using demo_query_canonical by (simp add: canonical_def demo_part_def max_int64_def)

lemma demo_cold_listed:
  assumes "m BooksListCacheGenKey = None" and "m (BooksListDataCacheKey 0 q) = None"
    and "json_Marshal demo_pages_json (page_of (map lower_char) q demo_pg) = Inr v"
  shows "ListBooks demo_pages_json demo_cached q (demo_cold k m) =
    (Inr (page_of (map lower_char) q demo_pg), demo_cold (Suc k) (m(BooksListDataCacheKey 0 q \<mapsto> (v, Some minute))))"
proof -
  have same: "run_list (map lower_char) q (demo_db n) = run_list (map lower_char) q demo_pg" for n
    by (simp add: demo_db_def run_list_step)
  have db: "pg_step (demo_db k) = k" "pg_fault (demo_db k) n = None" "(demo_db k)\<lparr>pg_step := j\<rparr> = demo_db j" for n j
    by (simp_all add: demo_db_def demo_pg_def)
  have load: "store_List (map lower_char) q (demo_db k) = (Inr (page_of (map lower_char) q demo_pg), demo_db (Suc k))"
    by (simp add: store_List_run pg_exec_def db same page_of_def Let_def)
  let ?r = "\<lparr>rm_content = m, rm_now = 0, rm_down = False\<rparr>"
  have gets: "c_Get mem_redis BooksListCacheGenKey ?r = (Inl (Sentinel ErrRedisNil), ?r)"
    "c_Get mem_redis (BooksListDataCacheKey 0 q) ?r = (Inl (Sentinel ErrRedisNil), ?r)"
    using assms(1,2) by (simp_all add: mem_redis_def rm_exec_def live_def)
  have set: "c_Set mem_redis (BooksListDataCacheKey 0 q) v minute ?r =
      (Inr (), \<lparr>rm_content = m(BooksListDataCacheKey 0 q \<mapsto> (v, Some minute)), rm_now = 0, rm_down = False\<rparr>)"
    by (simp add: mem_redis_def rm_exec_def minute_def)
  show ?thesis
    by (simp add: ListBooks_def cacheGeneration_def demo_cached_eqs on_redis_eq on_store_eq SQLCBookStore_def demo_cold_def
        demo_world_def load gets set assms(3) Let_def)
qed

lemma demo_parts:
  "page_of (map lower_char) (demo_part off l) demo_pg = map bookFromDB (page off l [demo_book 1 1 ''Go'' ''Pike''])"
proof -
  have "row_matches demo_pg (map lower_char) (demo_part off l) = row_matches demo_pg (map lower_char) demo_query"
    by (simp add: fun_eq_iff row_matches_def demo_part_def)
  then have "filter (row_matches demo_pg (map lower_char) (demo_part off l)) (pg_books demo_pg) = [demo_book 1 1 ''Go'' ''Pike'']"
    using demo_contains by (simp only: demo_tables demo_matches filter.simps if_True if_False)
  then show ?thesis by (simp add: page_of_def run_list_def demo_part_def)
qed

theorem consecutive_pages_fit_witness:
  "page_of (map lower_char) (demo_part 0 1) demo_pg @ page_of (map lower_char) (demo_part 1 1) demo_pg =
     page_of (map lower_char) (demo_part 0 2) demo_pg \<and> page_of (map lower_char) (demo_part 0 2) demo_pg = [demo_first_book]"
proof -
  let ?k = "\<lambda>off l. BooksListDataCacheKey 0 (demo_part off l)"
  let ?m1 = "[?k 0 1 \<mapsto> (''[1]'', Some minute)]"
  let ?m2 = "?m1(?k 1 1 \<mapsto> (''[]'', Some minute))"
  let ?c = "cache_start (demo_cold 0 Map.empty)"
  have canon: "canonical (demo_part 0 1)" "canonical (demo_part 1 1)" "canonical (demo_part 0 2)"
    by (simp_all add: demo_part_canonical)
  have parts: "page_of (map lower_char) (demo_part 0 1) demo_pg = [demo_first_book]"
      "page_of (map lower_char) (demo_part 1 1) demo_pg = []" "page_of (map lower_char) (demo_part 0 2) demo_pg = [demo_first_book]"
    by (simp_all add: demo_parts page_def demo_first_book_def)
  have differ: "demo_part 1 1 \<noteq> demo_part 0 1" "demo_part 0 2 \<noteq> demo_part 0 1" "demo_part 0 2 \<noteq> demo_part 1 1"
    by (simp_all add: demo_part_def demo_query_def)
  then have keys: "?k 1 1 \<noteq> ?k 0 1" "?k 0 2 \<noteq> ?k 0 1" "?k 0 2 \<noteq> ?k 1 1"
    by (simp_all add: cache_key_unique canon)
  have codes: "json_Marshal demo_pages_json [demo_first_book] = Inr ''[1]''" "json_Marshal demo_pages_json [] = Inr ''[]''"
    by (simp_all add: demo_pages_json_def)
  have xs: "ListBooks demo_pages_json demo_cached (demo_part 0 1) (demo_cold 0 Map.empty) = (Inr [demo_first_book], demo_cold 1 ?m1)"
    using demo_cold_listed [of Map.empty "demo_part 0 1" "''[1]''" 0] codes parts by simp
  have ys: "ListBooks demo_pages_json demo_cached (demo_part 1 1) (demo_cold 1 ?m1) = (Inr [], demo_cold 2 ?m2)"
    using demo_cold_listed [of ?m1 "demo_part 1 1" "''[]''" 1] codes parts keys cache_key_gen [of 0 "demo_part 0 1"]
    by (simp add: numeral_2_eq_2)
  obtain w3 where zs: "ListBooks demo_pages_json demo_cached (demo_part 0 2) (demo_cold 2 ?m2) = (Inr [demo_first_book], w3)"
    using demo_cold_listed [of ?m2 "demo_part 0 2" "''[1]''" 2] codes parts keys cache_key_gen [of 0 "demo_part 0 1"]
      cache_key_gen [of 0 "demo_part 1 1"] by simp
  have start: "coherent demo_pages_json (map lower_char) rm_content (demo_cold 0 Map.empty)"
    by (simp add: coherent_def counter_ok_def pages_ok_def demo_cold_def demo_world_def)
  have up: "answers mem_redis BooksListCacheGenKey (w_redis (demo_cold j n))" for j n
    by (rule demo_answers_gen) (simp add: demo_cold_def demo_world_def)
  have state: "ca_world ?c = demo_cold 0 Map.empty" "\<not> ca_owing ?c" by (simp_all add: cache_start_def)
  have valid: "text_valid (w_store (ca_world ?c))"
    unfolding state(1) using demo_text(1) by (simp add: demo_cold_def demo_world_def text_valid_def demo_db_def)
  have "[demo_first_book] @ [] = [demo_first_book]"
    by (rule consecutive_pages_fit [OF mem_redis_laws demo_cached_eqs(1-3) demo_pages_law start rtranclp.rtrancl_refl state(2) valid,
          where q = demo_query and off = 0 and l = 1 and m = 1])
      (use canon xs ys zs up in \<open>simp_all add: state demo_part_def\<close>)
  then show ?thesis by (simp add: parts)
qed

section \<open>When Redis fails\<close>

text \<open>
  When Redis answers for the page but not for the generation, the service falls back to
  generation 0 and may serve a page from before a mutation, until that page lapses.
\<close>

definition demo_flaky :: "redis_mem Cache" where
  "demo_flaky = mem_redis\<lparr>c_Get := (\<lambda>k r.
     if k = BooksListCacheGenKey then (Inl (ErrText ''i/o timeout''), r) else c_Get mem_redis k r)\<rparr>"

theorem unread_generation_serves_old_page:
  "fst (ListBooks demo_pages_json (demo_cached\<lparr>sv_redis := Some demo_flaky\<rparr>) demo_query
      (demo_page_world\<lparr>w_store := demo_after_delete, w_redis := demo_bumped\<rparr>)) = Inr [demo_first_book] \<and>
    run_list (map lower_char) demo_query demo_after_delete = []"
proof -
  let ?s = "demo_cached\<lparr>sv_redis := Some demo_flaky\<rparr>"
  have page: "c_Get demo_flaky (BooksListDataCacheKey 0 demo_query) demo_bumped = (Inr ''[1]'', demo_bumped)"
    using cache_key_gen [of 0 demo_query]
    by (simp add: demo_flaky_def mem_redis_def rm_exec_def demo_bumped_def live_def minute_def)
  have gen: "c_Get demo_flaky BooksListCacheGenKey demo_bumped = (Inl (ErrText ''i/o timeout''), demo_bumped)"
    by (simp add: demo_flaky_def)
  have json: "json_Unmarshal demo_pages_json ''[1]'' = Inr [demo_first_book]" by (simp add: demo_pages_json_def)
  have "fst (ListBooks demo_pages_json ?s demo_query
      (demo_page_world\<lparr>w_store := demo_after_delete, w_redis := demo_bumped\<rparr>)) = Inr [demo_first_book]"
    by (simp add: ListBooks_def cacheGeneration_def on_redis_eq page gen json Let_def)
  then show ?thesis by (simp add: demo_pages)
qed

text \<open>
  When Redis refuses the increment after a deletion, which \<open>bumpListCacheGeneration\<close> ignores, the deletion succeeds
  and the page from before it is served.
\<close>

definition demo_refusing :: "redis_mem Cache" where
  "demo_refusing = mem_redis\<lparr>c_Incr := (\<lambda>k r. (Inl (ErrText ''READONLY''), r))\<rparr>"

theorem refused_increment_serves_old_page:
  "let s = demo_cached\<lparr>sv_redis := Some demo_refusing\<rparr>;
       (x, w) = svc_DeleteBook s 1 1 demo_page_world
   in x = Inr () \<and> w_store w = demo_after_delete \<and>
      fst (ListBooks demo_pages_json s demo_query w) = Inr [demo_first_book] \<and>
      run_list (map lower_char) demo_query (w_store w) = []"
proof -
  let ?s = "demo_cached\<lparr>sv_redis := Some demo_refusing\<rparr>"
  let ?w = "demo_page_world\<lparr>w_store := demo_after_delete\<rparr>"
  have del: "store_DeleteByID 1 (demo_db 1) = (Inr (), demo_after_delete)"
    by (simp add: store_DeleteByID_def q_DeleteBook_def pg_exec_def demo_db_def demo_pg_def demo_after_delete_def
        sql_count_def sql_delete_def demo_ids demo_book_def eval_nat_numeral)
  have store: "w_store demo_page_world = demo_db 0" by (simp add: demo_page_world_def demo_world_def demo_db_0)
  have inc: "c_Incr demo_refusing k r = (Inl (ErrText ''READONLY''), r)" for k r by (simp add: demo_refusing_def)
  have deleted: "svc_DeleteBook ?s 1 1 demo_page_world = (Inr (), ?w)"
    using demo_books(1) [of 0] del store inc
    by (simp add: owned_eqs owned_def demo_cached_eqs SQLCBookStore_def bookFromDB_def demo_book_def demo_ids
        after_commit_def bumpListCacheGeneration_def publishBookEvent_def on_redis_eq)
  let ?r = "w_redis demo_page_world"
  have gets: "c_Get demo_refusing BooksListCacheGenKey ?r = (Inl (Sentinel ErrRedisNil), ?r)"
    "c_Get demo_refusing (BooksListDataCacheKey 0 demo_query) ?r = (Inr ''[1]'', ?r)"
    using cache_key_gen [of 0 demo_query]
    by (simp_all add: demo_refusing_def mem_redis_def rm_exec_def live_def demo_page_world_def demo_world_def minute_def)
  have json: "json_Unmarshal demo_pages_json ''[1]'' = Inr [demo_first_book]" by (simp add: demo_pages_json_def)
  have "fst (ListBooks demo_pages_json ?s demo_query w) = Inr [demo_first_book]" if "w_redis w = ?r" for w
    by (simp add: ListBooks_def cacheGeneration_def on_redis_eq that gets json Let_def)
  then have "fst (ListBooks demo_pages_json ?s demo_query ?w) = Inr [demo_first_book]" by simp
  then show ?thesis by (simp add: deleted demo_pages)
qed

end
