(* ===== verification/Book_Race.thy ===== *)
theory Book_Race
  imports Cache_Theorems
begin

text \<open>
  The list cache under concurrency. A listing is four calls, on Redis and on the database, and a
  mutation is a committed statement followed by an increment of the generation; requests interleave
  between them. Any number of clients list and mutate: a listing that reads the generation while no
  mutation stands between its commit and its increment returns the page of the table as it was at
  some moment between that read and the end of the listing.
\<close>

section \<open>A listing in steps\<close>

text \<open>
  Where a client is in \<open>ListBooks\<close>: with the generation, after a miss, with the loaded page and its
  serialisation, or done with the result.
\<close>

datatype list_pc =
    Idle
  | Keyed BookListQuery int
  | Missed BookListQuery int
  | Loaded BookListQuery int "Book list" string
  | Listed BookListQuery "go_error + Book list"

fun list_step ::
  "json_lib \<Rightarrow> ('s, 'r, 'p) BookService \<Rightarrow> 'r Cache \<Rightarrow> list_pc \<Rightarrow> ('s, 'r, 'p) world \<Rightarrow> list_pc \<times> ('s, 'r, 'p) world" where
  "list_step json s redis (Keyed q gen) w =
     (case on_redis (c_Get redis (BooksListDataCacheKey gen q)) w of
        (Inr cachedBooks, w) \<Rightarrow>
          (case json_Unmarshal json cachedBooks of
             Inl e \<Rightarrow> (Listed q (Inl (fmtError ErrListBooksUnmarshal e)), w)
           | Inr books \<Rightarrow> (Listed q (Inr books), w))
      | (Inl _, w) \<Rightarrow> (Missed q gen, w))"
| "list_step json s redis (Missed q gen) w =
     (case on_store (bk_List (sv_store s) q) w of
        (Inl e, w) \<Rightarrow> (Listed q (Inl (fmtError ErrListBooksDB e)), w)
      | (Inr loaded, w) \<Rightarrow>
          (case json_Marshal json loaded of
             Inl e \<Rightarrow> (Listed q (Inl (fmtError ErrListBooksMarshal e)), w)
           | Inr serializedBooks \<Rightarrow> (Loaded q gen loaded serializedBooks, w)))"
| "list_step json s redis (Loaded q gen loaded serializedBooks) w =
     (case on_redis (c_Set redis (BooksListDataCacheKey gen q) serializedBooks minute) w of
        (Inl e, w) \<Rightarrow> (Listed q (Inl (fmtError ErrListBooksRedis e)), w)
      | (Inr _, w) \<Rightarrow> (Listed q (Inr loaded), w))"
| "list_step json s redis pc w = (pc, w)"

text \<open>Without interruption the steps are the listing.\<close>

lemma list_steps_run:
  assumes "sv_redis s = Some redis" and "listSF s = (\<lambda>k. None)"
    and "cacheGeneration s w = (gen, w0)" and "ListBooks json s q w = (x, w')"
  shows "((\<lambda>(pc, v). list_step json s redis pc v) ^^ 3) (Keyed q gen, w0) = (Listed q x, w')"
  using assms
  by (auto simp: ListBooks_def eval_nat_numeral split: sum.splits prod.splits)

section \<open>Clients at once\<close>

text \<open>
  Besides the world and the clients' positions, the record holds what the claim is about: how many
  mutations have committed and not raised the generation yet, the tables a client has seen since it
  read the generation, and whether no mutation was under way at that moment.
\<close>

record ('r, 'p) race =
  rc_world :: "(pg, 'r, 'p) world"
  rc_client :: "nat \<Rightarrow> list_pc"
  rc_pending :: nat
  rc_seen :: "nat \<Rightarrow> pg set"
  rc_clean :: "nat \<Rightarrow> bool"

fun listing :: "list_pc \<Rightarrow> bool" where
  "listing Idle = False"
| "listing (Listed q x) = False"
| "listing _ = True"

text \<open>
  The steps. \<open>joined\<close> is \<open>singleflight\<close>: a client that missed may get the page that another one
  loaded for the same key, or its error. A commit puts any table in the place of the current one; pages may lapse,
  time may pass, and other keys and tables may change at any moment.
\<close>

inductive race_step ::
  "json_lib \<Rightarrow> (pg, 'r, 'p) BookService \<Rightarrow> 'r Cache \<Rightarrow> ('r \<Rightarrow> redis_content) \<Rightarrow> ('r, 'p) race \<Rightarrow> ('r, 'p) race \<Rightarrow> bool"
  for json s redis content where
  begin_list: "\<not> listing (rc_client c i) \<Longrightarrow> canonical q \<Longrightarrow> cacheGeneration s (rc_world c) = (gen, w) \<Longrightarrow>
      race_step json s redis content c
        (c\<lparr>rc_world := w, rc_client := (rc_client c)(i := Keyed q gen), rc_seen := (rc_seen c)(i := {w_store w}),
           rc_clean := (rc_clean c)(i := rc_pending c = 0 \<and> answers redis BooksListCacheGenKey (w_redis (rc_world c)))\<rparr>)"
| go: "listing (rc_client c i) \<Longrightarrow> list_step json s redis (rc_client c i) (rc_world c) = (pc, w) \<Longrightarrow>
      race_step json s redis content c (c\<lparr>rc_world := w, rc_client := (rc_client c)(i := pc)\<rparr>)"
| joined: "rc_client c i = Missed q gen \<Longrightarrow> rc_client c j = Loaded q gen loaded v \<Longrightarrow>
      race_step json s redis content c (c\<lparr>rc_client := (rc_client c)(i := Listed q (Inr loaded))\<rparr>)"
| joined_error: "rc_client c i = Missed q gen \<Longrightarrow>
      race_step json s redis content c (c\<lparr>rc_client := (rc_client c)(i := Listed q (Inl e))\<rparr>)"
| commit: "race_step json s redis content c
      (c\<lparr>rc_world := (rc_world c)\<lparr>w_store := st\<rparr>, rc_pending := Suc (rc_pending c),
         rc_seen := (\<lambda>i. if listing (rc_client c i) then insert st (rc_seen c i) else rc_seen c i)\<rparr>)"
| bump: "rc_pending c = Suc n \<Longrightarrow> is_ok (fst (c_Incr redis BooksListCacheGenKey (w_redis (rc_world c)))) \<Longrightarrow>
      race_step json s redis content c
        (c\<lparr>rc_world := bumpListCacheGeneration s (rc_world c), rc_pending := n\<rparr>)"
| elsewhere: "list_view (w_store w) = list_view (w_store (rc_world c)) \<Longrightarrow>
      content (w_redis w) BooksListCacheGenKey = content (w_redis (rc_world c)) BooksListCacheGenKey \<Longrightarrow>
      (\<And>k. book_page_key k \<Longrightarrow> content (w_redis w) k = content (w_redis (rc_world c)) k \<or> content (w_redis w) k = None) \<Longrightarrow>
      race_step json s redis content c (c\<lparr>rc_world := w\<rparr>)"

section \<open>Calls of the service as steps\<close>

text \<open>
  Whole calls of the service are runs of this relation: a mutation fails without a change that
  listings see, or is a commit, an increment and the publication; a listing is a start and at most
  three steps.
\<close>

lemma race_mutation:
  assumes op: "actor_of op \<noteq> None" and svc: "sv_store s = SQLCBookStore lower" "sv_redis s = Some redis"
    and up: "is_ok (fst (c_Incr redis BooksListCacheGenKey (w_redis (rc_world c))))"
  shows "\<exists>S. (race_step json s redis content)\<^sup>*\<^sup>* c (c\<lparr>rc_seen := S, rc_world := run_op json s op (rc_world c)\<rparr>)"
    (is "\<exists>S. ?R\<^sup>*\<^sup>* c (?end S)")
  using op svc(1)
proof (cases rule: mutation_cases [of op s lower json "rc_world c", case_names commit same])
  case (commit u et b)
  let ?S = "\<lambda>i. if listing (rc_client c i) then insert u (rc_seen c i) else rc_seen c i"
  let ?w = "(rc_world c)\<lparr>w_store := u\<rparr>"
  let ?c1 = "c\<lparr>rc_world := ?w, rc_pending := Suc (rc_pending c), rc_seen := ?S\<rparr>"
  let ?c2 = "?c1\<lparr>rc_world := bumpListCacheGeneration s ?w, rc_pending := rc_pending c\<rparr>"
  have "?R c ?c1" by (rule race_step.commit)
  then have one: "?R\<^sup>*\<^sup>* c ?c1" by (rule r_into_rtranclp [of ?R])
  have "?R ?c1 ?c2"
    using race_step.bump [of ?c1 "rc_pending c" redis json s content] up by simp
  with one have two: "?R\<^sup>*\<^sup>* c ?c2" by (rule rtranclp.rtrancl_into_rtrancl [of ?R])
  have "?R ?c2 (?c2\<lparr>rc_world := after_commit s et b ?w\<rparr>)"
    by (rule race_step.elsewhere) (simp_all add: after_commit_redis bumpListCacheGeneration_def svc(2) on_redis_eq split: prod.split)
  with two have "?R\<^sup>*\<^sup>* c (?c2\<lparr>rc_world := after_commit s et b ?w\<rparr>)" by (rule rtranclp.rtrancl_into_rtrancl [of ?R])
  then have "?R\<^sup>*\<^sup>* c (?end ?S)" by (simp add: commit)
  then show ?thesis by (rule exI [where P = "\<lambda>S. ?R\<^sup>*\<^sup>* c (?end S)"])
next
  case (same u)
  have "?R c (c\<lparr>rc_world := run_op json s op (rc_world c)\<rparr>)"
    by (rule race_step.elsewhere) (simp_all add: same)
  then have "?R\<^sup>*\<^sup>* c (?end (rc_seen c))" by (simp add: r_into_rtranclp)
  then show ?thesis by (rule exI [where P = "\<lambda>S. ?R\<^sup>*\<^sup>* c (?end S)"])
qed

lemma list_step_done: "\<not> listing pc \<Longrightarrow> list_step json s redis pc w = (pc, w)"
  by (cases pc) simp_all

lemma race_go:
  assumes "((\<lambda>(pc, v). list_step json s redis pc v) ^^ n) (rc_client c i, rc_world c) = (pc, w)"
  shows "(race_step json s redis content)\<^sup>*\<^sup>* c (c\<lparr>rc_world := w, rc_client := (rc_client c)(i := pc)\<rparr>)"
  using assms
proof (induction n arbitrary: pc w)
  case 0
  then have "pc = rc_client c i" "w = rc_world c" by simp_all
  then have "c\<lparr>rc_world := w, rc_client := (rc_client c)(i := pc)\<rparr> = c" by simp
  then show ?case by (simp only: rtranclp.rtrancl_refl)
next
  case (Suc n)
  let ?R = "race_step json s redis content"
  obtain pc' w' where before: "((\<lambda>(pc, v). list_step json s redis pc v) ^^ n) (rc_client c i, rc_world c) = (pc', w')"
    by (cases "((\<lambda>(pc, v). list_step json s redis pc v) ^^ n) (rc_client c i, rc_world c)")
  let ?c = "c\<lparr>rc_world := w', rc_client := (rc_client c)(i := pc')\<rparr>"
  have run: "?R\<^sup>*\<^sup>* c ?c" by (rule Suc.IH [OF before])
  have step: "list_step json s redis pc' w' = (pc, w)" using Suc.prems before by simp
  show ?case
  proof (cases "listing pc'")
    case True
    then have "?R ?c (c\<lparr>rc_world := w, rc_client := (rc_client c)(i := pc)\<rparr>)"
      using race_step.go [of ?c i json s redis pc w content] step by simp
    with run show ?thesis by (rule rtranclp.rtrancl_into_rtrancl [of ?R])
  next
    case False
    then have same: "pc' = pc" "w' = w" using step by (simp_all add: list_step_done)
    from run show ?thesis by (simp only: same)
  qed
qed

text \<open>A client that is not interrupted ends with the result and in the world of the whole listing.\<close>

lemma race_listing:
  assumes idle: "\<not> listing (rc_client c i)" and q: "canonical q"
    and svc: "sv_redis s = Some redis" "listSF s = (\<lambda>k. None)" and run: "ListBooks json s q (rc_world c) = (x, w)"
  shows "\<exists>S b. (race_step json s redis content)\<^sup>*\<^sup>* c
    (c\<lparr>rc_seen := S, rc_clean := b, rc_world := w, rc_client := (rc_client c)(i := Listed q x)\<rparr>)"
proof -
  let ?R = "race_step json s redis content"
  obtain g v where gen: "cacheGeneration s (rc_world c) = (g, v)" by (cases "cacheGeneration s (rc_world c)")
  let ?S = "(rc_seen c)(i := {w_store v})"
  let ?b = "(rc_clean c)(i := rc_pending c = 0 \<and> answers redis BooksListCacheGenKey (w_redis (rc_world c)))"
  let ?c = "c\<lparr>rc_world := v, rc_client := (rc_client c)(i := Keyed q g), rc_seen := ?S, rc_clean := ?b\<rparr>"
  have first: "?R c ?c" by (rule race_step.begin_list [OF idle q gen])
  have "?R\<^sup>*\<^sup>* ?c (?c\<lparr>rc_world := w, rc_client := (rc_client ?c)(i := Listed q x)\<rparr>)"
    using list_steps_run [OF svc gen run] by (intro race_go [where n = 3]) simp
  with first have "?R\<^sup>*\<^sup>* c (?c\<lparr>rc_world := w, rc_client := (rc_client ?c)(i := Listed q x)\<rparr>)"
    by (rule converse_rtranclp_into_rtranclp [of ?R])
  moreover have "?c\<lparr>rc_world := w, rc_client := (rc_client ?c)(i := Listed q x)\<rparr> =
      c\<lparr>rc_seen := ?S, rc_clean := ?b, rc_world := w, rc_client := (rc_client c)(i := Listed q x)\<rparr>"
    by simp
  ultimately show ?thesis by (intro exI) simp
qed

section \<open>The invariant\<close>

fun holds :: "list_pc \<Rightarrow> (BookListQuery \<times> int) option" where
  "holds (Keyed q g) = Some (q, g)"
| "holds (Missed q g) = Some (q, g)"
| "holds (Loaded q g l v) = Some (q, g)"
| "holds _ = None"

lemma listing_holds: "listing pc \<longleftrightarrow> holds pc \<noteq> None"
  by (cases pc) simp_all

text \<open>The books are the page of one of the tables.\<close>

definition page_in :: "(string \<Rightarrow> string) \<Rightarrow> pg set \<Rightarrow> BookListQuery \<Rightarrow> Book list \<Rightarrow> bool" where
  "page_in lower S q bs \<longleftrightarrow> (\<exists>T \<in> S. bs = map bookFromDB (run_list lower q T))"

text \<open>What is read back from the cache is such a page if the text of the tables is valid.\<close>

definition served :: "(string \<Rightarrow> string) \<Rightarrow> pg set \<Rightarrow> BookListQuery \<Rightarrow> Book list \<Rightarrow> bool" where
  "served lower S q bs \<longleftrightarrow> ((\<forall>T \<in> S. text_valid T) \<longrightarrow> page_in lower S q bs)"

text \<open>All that is cached under a generation, or loaded for it, is a page of one of the tables.\<close>

definition fresh ::
  "json_lib \<Rightarrow> (string \<Rightarrow> string) \<Rightarrow> redis_content \<Rightarrow> (nat \<Rightarrow> list_pc) \<Rightarrow> int \<Rightarrow> pg set \<Rightarrow> bool" where
  "fresh json lower m cl g S \<longleftrightarrow>
     (\<forall>q v d. canonical q \<longrightarrow> m (BooksListDataCacheKey g q) = Some (v, d) \<longrightarrow>
        (\<exists>bs. json_Marshal json bs = Inr v \<and> page_in lower S q bs)) \<and>
     (\<forall>i q l v. cl i = Loaded q g l v \<longrightarrow> page_in lower S q l)"

text \<open>No page and no client is ahead of the generation; what is loaded is what is serialised.\<close>

definition bounded :: "json_lib \<Rightarrow> redis_content \<Rightarrow> (nat \<Rightarrow> list_pc) \<Rightarrow> bool" where
  "bounded json m cl \<longleftrightarrow> counter_ok m \<and>
     (\<forall>g q e. canonical q \<longrightarrow> m (BooksListDataCacheKey g q) = Some e \<longrightarrow> g \<le> generation m) \<and>
     (\<forall>i q g. holds (cl i) = Some (q, g) \<longrightarrow> canonical q \<and> g \<le> generation m) \<and>
     (\<forall>i q g l v. cl i = Loaded q g l v \<longrightarrow> json_Marshal json l = Inr v)"

text \<open>What a client that started clean may see and return.\<close>

definition client_ok ::
  "json_lib \<Rightarrow> (string \<Rightarrow> string) \<Rightarrow> redis_content \<Rightarrow> pg \<Rightarrow> (nat \<Rightarrow> list_pc) \<Rightarrow> list_pc \<Rightarrow> pg set \<Rightarrow> bool" where
  "client_ok json lower m st cl pc S \<longleftrightarrow>
     (\<forall>q g. holds pc = Some (q, g) \<longrightarrow> (\<exists>T \<in> S. list_view T = list_view st) \<and> fresh json lower m cl g S) \<and>
     (\<forall>q bs. pc = Listed q (Inr bs) \<longrightarrow> served lower S q bs)"

definition race_ok ::
  "json_lib \<Rightarrow> (string \<Rightarrow> string) \<Rightarrow> redis_content \<Rightarrow> pg \<Rightarrow> (nat \<Rightarrow> list_pc) \<Rightarrow> nat \<Rightarrow> (nat \<Rightarrow> pg set) \<Rightarrow> (nat \<Rightarrow> bool) \<Rightarrow> bool" where
  "race_ok json lower m st cl pending seen clean \<longleftrightarrow> bounded json m cl \<and>
     (pending = 0 \<longrightarrow> fresh json lower m cl (generation m) {st}) \<and>
     (\<forall>i. clean i \<longrightarrow> client_ok json lower m st cl (cl i) (seen i))"

lemma page_in_mono: "page_in lower S q bs \<Longrightarrow> S \<subseteq> S' \<Longrightarrow> page_in lower S' q bs"
  by (auto simp: page_in_def)

lemma served_mono: "served lower S q bs \<Longrightarrow> S \<subseteq> S' \<Longrightarrow> served lower S' q bs"
  by (auto simp: served_def intro: page_in_mono)

lemma page_in_served: "page_in lower S q bs \<Longrightarrow> served lower S q bs"
  by (simp add: served_def)

lemma page_in_read: "page_in lower S q bs \<Longrightarrow> served lower S q (map json_book bs)"
  unfolding served_def page_in_def page_of_def [symmetric] using page_of_text [of _ lower q] by metis

lemma page_in_view: "list_view st' = list_view st \<Longrightarrow> page_in lower {st'} q bs = page_in lower {st} q bs"
  using list_view_run [of st' st] by (simp add: page_in_def)

lemma page_in_now: "T \<in> S \<Longrightarrow> list_view T = list_view st \<Longrightarrow> page_in lower S q (map bookFromDB (run_list lower q st))"
  unfolding page_in_def by (rule bexI [of _ T]) (simp_all add: list_view_run [of T st])

lemma fresh_mono:
  assumes "fresh json lower m cl g S" and "S \<subseteq> S'"
  shows "fresh json lower m cl g S'"
proof -
  have "page_in lower S q bs \<longrightarrow> page_in lower S' q bs" for q bs using page_in_mono assms(2) by blast
  with assms(1) show ?thesis by (simp add: fresh_def) metis
qed

lemma fresh_view:
  assumes "list_view st' = list_view st"
  shows "fresh json lower m cl g {st'} = fresh json lower m cl g {st}"
  by (simp only: fresh_def page_in_view [OF assms])

lemma fresh_client:
  assumes "fresh json lower m cl g S" and "\<And>q l v. pc = Loaded q g l v \<Longrightarrow> page_in lower S q l"
  shows "fresh json lower m (cl(i := pc)) g S"
  using assms by (auto simp: fresh_def)

lemma fresh_less:
  assumes "fresh json lower m cl g S" and "\<And>k. book_page_key k \<Longrightarrow> m' k = m k \<or> m' k = None"
  shows "fresh json lower m' cl g S"
  using assms(1) assms(2) [OF data_key_is_page] unfolding fresh_def by (metis option.distinct(1))

lemma fresh_put:
  assumes "fresh json lower m cl g S" and "canonical q" and "json_Marshal json l = Inr v"
    and "h = g \<Longrightarrow> page_in lower S q l"
  shows "fresh json lower (m(BooksListDataCacheKey h q \<mapsto> (v, d))) cl g S"
proof -
  have "\<exists>bs. json_Marshal json bs = Inr u \<and> page_in lower S p bs"
    if "canonical p" and "(m(BooksListDataCacheKey h q \<mapsto> (v, d))) (BooksListDataCacheKey g p) = Some (u, e)" for p u e
  proof (cases "h = g \<and> q = p")
    case True
    with that(2) assms(3,4) show ?thesis by auto
  next
    case False
    with that cache_key_unique [OF that(1) assms(2), of g h] have "m (BooksListDataCacheKey g p) = Some (u, e)" by auto
    with assms(1) that(1) show ?thesis unfolding fresh_def by blast
  qed
  with assms(1) show ?thesis by (simp add: fresh_def)
qed

lemma fresh_later:
  assumes "bounded json m cl" and "generation m < g" and "m' = m(BooksListCacheGenKey := e)"
  shows "fresh json lower m' cl g S"
proof -
  have "m' (BooksListDataCacheKey g q) = None" if "canonical q" for q
    using assms(1,2) that cache_key_gen [of g q] unfolding bounded_def assms(3)
    by (cases "m (BooksListDataCacheKey g q)") force+
  moreover have "cl i \<noteq> Loaded q g l v" for i q l v
    using assms(1,2) unfolding bounded_def by (metis holds.simps(3) linorder_not_le)
  ultimately show ?thesis by (simp add: fresh_def)
qed

section \<open>The steps keep it\<close>

lemma ok_pages_less:
  assumes "race_ok json lower m st cl pending seen clean" and "list_view st' = list_view st"
    and "m' BooksListCacheGenKey = m BooksListCacheGenKey" and "\<And>k. book_page_key k \<Longrightarrow> m' k = m k \<or> m' k = None"
  shows "race_ok json lower m' st' cl pending seen clean"
proof -
  have gen: "generation m' = generation m" using assms(3) by (simp add: generation_def)
  have less: "fresh json lower m cl g S \<Longrightarrow> fresh json lower m' cl g S" for g S by (erule fresh_less) (rule assms(4))
  have "bounded json m' cl"
    using assms(1,3) assms(4) [OF data_key_is_page] unfolding race_ok_def bounded_def gen counter_ok_def
    by (metis option.distinct(1))
  moreover have "fresh json lower m' cl (generation m') {st'}" if "pending = 0"
    using assms(1) that unfolding race_ok_def gen by (intro less) (simp add: fresh_view [OF assms(2)])
  moreover have "client_ok json lower m' st' cl (cl i) (seen i)" if "clean i" for i
    using assms(1) that less unfolding race_ok_def client_ok_def assms(2) by blast
  ultimately show ?thesis by (simp add: race_ok_def)
qed

lemma ok_client:
  assumes "race_ok json lower m st cl pending seen clean"
    and "\<And>q g. holds pc = Some (q, g) \<Longrightarrow> holds (cl i) = Some (q, g)"
    and "\<And>q g l v. pc = Loaded q g l v \<Longrightarrow> l = map bookFromDB (run_list lower q st) \<and> json_Marshal json l = Inr v"
    and "\<And>q bs. pc = Listed q (Inr bs) \<Longrightarrow> clean i \<Longrightarrow> served lower (seen i) q bs"
  shows "race_ok json lower m st (cl(i := pc)) pending seen clean"
proof -
  have "bounded json m (cl(i := pc))"
    using assms(1-3) unfolding race_ok_def bounded_def by (auto split: if_splits)
  moreover have "fresh json lower m (cl(i := pc)) (generation m) {st}" if "pending = 0"
    using assms(1) that unfolding race_ok_def by (intro fresh_client) (auto dest: assms(3) simp: page_in_def)
  moreover have "client_ok json lower m st (cl(i := pc)) ((cl(i := pc)) j) (seen j)" if j: "clean j" for j
  proof -
    have cl: "client_ok json lower m st cl (cl j) (seen j)" using assms(1) j by (simp add: race_ok_def)
    have "fresh json lower m (cl(i := pc)) g (seen j) \<and> (\<exists>T \<in> seen j. list_view T = list_view st)"
      if "holds ((cl(i := pc)) j) = Some (q, g)" for q g
    proof -
      from that assms(2) have "holds (cl j) = Some (q, g)" by (auto split: if_splits)
      with cl have "fresh json lower m cl g (seen j)" "\<exists>T \<in> seen j. list_view T = list_view st" by (auto simp: client_ok_def)
      then show ?thesis by (auto intro!: fresh_client intro: page_in_now dest!: assms(3))
    qed
    moreover have "served lower (seen j) q bs" if "(cl(i := pc)) j = Listed q (Inr bs)" for q bs
      using that cl assms(4) j by (auto simp: client_ok_def split: if_splits)
    ultimately show ?thesis by (auto simp: client_ok_def)
  qed
  ultimately show ?thesis by (simp add: race_ok_def)
qed

lemma ok_put:
  assumes "race_ok json lower m st cl pending seen clean" and "cl i = Loaded q g l v"
  shows "race_ok json lower (m(BooksListDataCacheKey g q \<mapsto> (v, d))) st cl pending seen clean"
proof -
  let ?m = "m(BooksListDataCacheKey g q \<mapsto> (v, d))"
  have gen: "generation ?m = generation m" using cache_key_gen [of g q] by (simp add: generation_def)
  have i: "holds (cl i) = Some (q, g)" by (simp add: assms(2))
  have b: "bounded json m cl" using assms(1) by (simp add: race_ok_def)
  then have own: "canonical q" "g \<le> generation m" "json_Marshal json l = Inr v"
    using i assms(2) unfolding bounded_def by blast+
  have "h \<le> generation m" if "canonical p" "?m (BooksListDataCacheKey h p) = Some e" for h p e
    using that own(1,2) b cache_key_unique [OF that(1) own(1), of h g] unfolding bounded_def by (auto split: if_splits)
  then have "bounded json ?m cl"
    using b cache_key_gen [of g q] unfolding bounded_def gen by (simp add: counter_ok_def)
  moreover have put: "fresh json lower ?m cl h S" if "fresh json lower m cl h S" for h S
    using that by (rule fresh_put [OF _ own(1,3)]) (use that assms(2) in \<open>unfold fresh_def, blast\<close>)
  ultimately show ?thesis using assms(1) by (auto simp: race_ok_def client_ok_def gen)
qed

lemma ok_begin:
  assumes "race_ok json lower m st cl pending seen clean" and "canonical q" and "g \<le> generation m"
    and "b \<Longrightarrow> pending = 0 \<and> g = generation m"
  shows "race_ok json lower m st (cl(i := Keyed q g)) pending (seen(i := {st})) (clean(i := b))"
proof -
  have "bounded json m (cl(i := Keyed q g))"
    using assms(1-3) unfolding race_ok_def bounded_def by (auto split: if_splits)
  moreover have keep: "fresh json lower m (cl(i := Keyed q g)) h S" if "fresh json lower m cl h S" for h S
    using that by (rule fresh_client) simp
  ultimately show ?thesis using assms(1,4) by (auto simp: race_ok_def client_ok_def)
qed

lemma ok_commit:
  assumes "race_ok json lower m st cl pending seen clean"
  shows "race_ok json lower m st' cl (Suc pending) (\<lambda>i. if listing (cl i) then insert st' (seen i) else seen i) clean"
  using assms
  by (auto simp: race_ok_def client_ok_def listing_holds intro: served_mono [OF _ subset_insertI] fresh_mono [OF _ subset_insertI])

lemma ok_bump:
  assumes ok: "race_ok json lower m st cl pending seen clean"
    and inc: "incr_entry now None (m BooksListCacheGenKey) = Some (e, n)"
  shows "race_ok json lower (m(BooksListCacheGenKey \<mapsto> e)) st cl pending' seen clean"
proof -
  let ?m = "m(BooksListCacheGenKey \<mapsto> e)"
  have b: "bounded json m cl" using ok by (simp add: race_ok_def)
  then have "counter_ok m" by (simp add: bounded_def)
  then have gen: "counter_ok ?m" "generation ?m = generation m + 1" using counter_up [where m = m, OF _ inc] by simp_all
  have page: "?m (BooksListDataCacheKey g q) = m (BooksListDataCacheKey g q)" for g q
    using cache_key_gen [of g q] by simp
  have "bounded json ?m cl" using b gen unfolding bounded_def page by fastforce
  moreover have "fresh json lower ?m cl (generation ?m) {st}"
    by (rule fresh_later [OF b]) (simp_all add: gen)
  moreover have "fresh json lower ?m cl g S = fresh json lower m cl g S" for g S by (simp only: fresh_def page)
  ultimately show ?thesis using ok by (simp add: race_ok_def client_ok_def)
qed

lemma freshD:
  "fresh json lower m cl g S \<Longrightarrow> canonical q \<Longrightarrow> m (BooksListDataCacheKey g q) = Some (v, d) \<Longrightarrow>
    \<exists>bs. json_Marshal json bs = Inr v \<and> page_in lower S q bs"
  unfolding fresh_def by blast

lemma freshL: "fresh json lower m cl g S \<Longrightarrow> cl i = Loaded q g l v \<Longrightarrow> page_in lower S q l"
  unfolding fresh_def by blast

lemma ok_start:
  assumes "coherent json lower content w"
  shows "race_ok json lower (content (w_redis w)) (w_store w) (\<lambda>i. Idle) 0 (\<lambda>i. {}) (\<lambda>i. False)"
  using assms by (fastforce simp: coherent_def pages_ok_def page_of_def race_ok_def bounded_def fresh_def page_in_def)

lemma list_step_ok:
  assumes laws: "redis_laws redis content clock" and svc: "sv_store s = SQLCBookStore lower" and json: "json_law json"
    and ok: "race_ok json lower (content (w_redis w)) (w_store w) cl pending seen clean"
    and i: "listing (cl i)" and step: "list_step json s redis (cl i) w = (pc, w')"
  shows "race_ok json lower (content (w_redis w')) (w_store w') (cl(i := pc)) pending seen clean"
proof -
  have mine: "fresh json lower (content (w_redis w)) cl g (seen i)" if "holds (cl i) = Some (q, g)" "clean i" for q g
    using ok that by (auto simp: race_ok_def client_ok_def)
  have canon: "canonical q" if "holds (cl i) = Some (q, g)" for q g
    using ok that by (auto simp: race_ok_def bounded_def)
  show ?thesis
  proof (cases "cl i")
    case (Keyed q g)
    obtain y r where get: "c_Get redis (BooksListDataCacheKey g q) (w_redis w) = (y, r)"
      by (cases "c_Get redis (BooksListDataCacheKey g q) (w_redis w)")
    have same: "content r = content (w_redis w)" by (rule got(1) [OF laws get])
    show ?thesis
    proof (cases y)
      case (Inl e)
      with step get Keyed have "pc = Missed q g" "w' = w\<lparr>w_redis := r\<rparr>" by (simp_all add: on_redis_eq)
      with Keyed same show ?thesis by (auto intro: ok_client [OF ok])
    next
      case (Inr v)
      with step get Keyed have out: "w' = w\<lparr>w_redis := r\<rparr>" "pc = Listed q (case json_Unmarshal json v of
          Inl e \<Rightarrow> Inl (fmtError ErrListBooksUnmarshal e) | Inr bs \<Rightarrow> Inr bs)"
        by (simp_all add: on_redis_eq split: sum.splits)
      obtain d where page: "content (w_redis w) (BooksListDataCacheKey g q) = Some (v, d)"
        using got(2) [OF laws get Inr] by (auto simp: live_def split: option.splits if_splits)
      have "served lower (seen i) q bs" if un: "json_Unmarshal json v = Inr bs" and cl: "clean i" for bs
      proof -
        obtain bs' where "json_Marshal json bs' = Inr v" "page_in lower (seen i) q bs'"
          using freshD [OF mine [of q g] canon [of q g] page] cl Keyed by auto
        moreover from this(1) json un have "bs = map json_book bs'" by (auto simp: json_law_def)
        ultimately show ?thesis by (simp add: page_in_read)
      qed
      with Keyed same out show ?thesis by (auto intro!: ok_client [OF ok] split: sum.splits)
    qed
  next
    case (Missed q g)
    obtain y st where load: "store_List lower q (w_store w) = (y, st)" by (cases "store_List lower q (w_store w)")
    have view: "list_view st = list_view (w_store w)" using store_view(1) [of lower q "w_store w"] load by simp
    have w': "w' = w\<lparr>w_store := st\<rparr>" and pc: "(\<exists>e. pc = Listed q (Inl e)) \<or>
        (\<exists>l v. y = Inr l \<and> json_Marshal json l = Inr v \<and> pc = Loaded q g l v)"
      using step load Missed by (auto simp: svc SQLCBookStore_def on_store_eq split: sum.splits)
    have "l = map bookFromDB (run_list lower q st)" if "y = Inr l" for l
      using store_List_done [of lower q "w_store w" l st] load that list_view_run [OF view, of lower q] by simp
    note page = this
    have base: "race_ok json lower (content (w_redis w)) st cl pending seen clean"
      by (rule ok_pages_less [OF ok view]) simp_all
    from pc have "race_ok json lower (content (w_redis w)) st (cl(i := pc)) pending seen clean"
    proof (elim disjE exE conjE)
      fix e assume "pc = Listed q (Inl e)"
      then show ?thesis by (intro ok_client [OF base]) simp_all
    next
      fix l v assume l: "y = Inr l" "json_Marshal json l = Inr v" "pc = Loaded q g l v"
      show ?thesis
        by (rule ok_client [OF base]) (use l page [OF l(1)] Missed in simp_all)
    qed
    with w' show ?thesis by simp
  next
    case (Loaded q g l v)
    obtain y r where set: "c_Set redis (BooksListDataCacheKey g q) v minute (w_redis w) = (y, r)"
      by (cases "c_Set redis (BooksListDataCacheKey g q) v minute (w_redis w)")
    have w': "w' = w\<lparr>w_redis := r\<rparr>" and pc: "(\<exists>e. pc = Listed q (Inl e)) \<or> pc = Listed q (Inr l)"
      using step set Loaded by (auto simp: on_redis_eq split: sum.splits)
    have page: "served lower (seen i) q l" if "clean i"
      using freshL [OF mine [of q g] Loaded] that Loaded by (simp add: page_in_served)
    have "(0 :: int) < minute" by (simp add: minute_def)
    then have put: "race_ok json lower (content r) (w_store w) cl pending seen clean"
      using put [OF laws set] ok_put [OF ok Loaded] ok by auto
    have "race_ok json lower (content r) (w_store w) (cl(i := pc)) pending seen clean"
      by (rule ok_client [OF put]) (use pc page in auto)
    with w' show ?thesis by simp
  qed (use i in simp_all)
qed

lemma race_step_ok:
  assumes laws: "redis_laws redis content clock"
    and svc: "sv_store s = SQLCBookStore lower" "sv_redis s = Some redis" and json: "json_law json"
    and step: "race_step json s redis content c c'"
    and ok: "race_ok json lower (content (w_redis (rc_world c))) (w_store (rc_world c)) (rc_client c) (rc_pending c) (rc_seen c) (rc_clean c)"
  shows "race_ok json lower (content (w_redis (rc_world c'))) (w_store (rc_world c')) (rc_client c') (rc_pending c') (rc_seen c') (rc_clean c')"
  using step
proof (cases rule: race_step.cases)
  case (begin_list i q gen w)
  have counter: "counter_ok (content (w_redis (rc_world c)))" using ok by (simp add: race_ok_def bounded_def)
  obtain g r where "cacheGeneration s (rc_world c) = (g, (rc_world c)\<lparr>w_redis := r\<rparr>)"
      "content r = content (w_redis (rc_world c))" "g \<le> generation (content (w_redis (rc_world c)))"
      "answers redis BooksListCacheGenKey (w_redis (rc_world c)) \<Longrightarrow> g = generation (content (w_redis (rc_world c)))"
    by (rule cacheGeneration_cases [OF laws svc(2) counter]) blast
  with begin_list ok_begin [OF ok begin_list(3), of gen "rc_pending c = 0 \<and> answers redis BooksListCacheGenKey (w_redis (rc_world c))" i]
  show ?thesis by auto
next
  case (go i pc w)
  with list_step_ok [OF laws svc(1) json ok] show ?thesis by simp
next
  case (joined i q gen j loaded v)
  have "page_in lower (rc_seen c i) q loaded" if "rc_clean c i"
  proof (rule freshL [where cl = "rc_client c", OF _ joined(3)])
    have "holds (rc_client c i) = Some (q, gen)" by (simp add: joined(2))
    with ok that show "fresh json lower (content (w_redis (rc_world c))) (rc_client c) gen (rc_seen c i)"
      by (simp add: race_ok_def client_ok_def)
  qed
  then show ?thesis by (simp add: joined(1)) (rule ok_client [OF ok], auto intro: page_in_served)
next
  case (joined_error i q gen e)
  then show ?thesis by (simp add: joined_error(1)) (rule ok_client [OF ok], auto)
next
  case (commit st)
  with ok_commit [OF ok] show ?thesis by simp
next
  case (bump n)
  obtain x r where inc: "c_Incr redis BooksListCacheGenKey (w_redis (rc_world c)) = (x, r)"
    by (cases "c_Incr redis BooksListCacheGenKey (w_redis (rc_world c))")
  with bump obtain k where "x = Inr k" by (cases x) auto
  with redis_lawsD(3) [OF laws, of BooksListCacheGenKey "w_redis (rc_world c)"] inc obtain e where
    "incr_entry (clock (w_redis (rc_world c))) None (content (w_redis (rc_world c)) BooksListCacheGenKey) = Some (e, k)"
    "content r = (content (w_redis (rc_world c)))(BooksListCacheGenKey \<mapsto> e)" by (auto simp: counted_def)
  with ok_bump [OF ok this(1)] inc bump show ?thesis
    by (simp add: bumpListCacheGeneration_def svc(2) on_redis_eq)
next
  case (elsewhere w)
  with ok_pages_less [OF ok] show ?thesis by simp
qed

section \<open>Runs\<close>

text \<open>At the start nobody lists, and the cache holds current pages or none.\<close>

definition race_start :: "(pg, 'r, 'p) world \<Rightarrow> ('r, 'p) race" where
  "race_start w =
     \<lparr>rc_world = w, rc_client = (\<lambda>i. Idle), rc_pending = 0, rc_seen = (\<lambda>i. {}), rc_clean = (\<lambda>i. False)\<rparr>"

text \<open>
  C21. A listing among concurrent listings and mutations: however the calls to Redis and to the
  database interleave, a listing that read the generation while no mutation stood between its
  commit and its increment returns the page of a table that was current at some moment between
  that read and its end, be the page cached, loaded, or shared by \<open>singleflight\<close>. PostgreSQL holds valid
  UTF-8.
\<close>

theorem concurrent_listing_fresh:
  assumes laws: "redis_laws redis content clock"
    and svc: "sv_store s = SQLCBookStore lower" "sv_redis s = Some redis" and json: "json_law json"
    and start: "coherent json lower content w" and run: "(race_step json s redis content)\<^sup>*\<^sup>* (race_start w) c"
    and listed: "rc_client c i = Listed q (Inr bs)" "rc_clean c i" and valid: "\<forall>T \<in> rc_seen c i. text_valid T"
  shows "\<exists>T \<in> rc_seen c i. bs = map bookFromDB (run_list lower q T)"
proof -
  from run have "race_ok json lower (content (w_redis (rc_world c))) (w_store (rc_world c)) (rc_client c)
      (rc_pending c) (rc_seen c) (rc_clean c)"
  proof (induction rule: rtranclp_induct)
    case base
    show ?case using ok_start [OF start] by (simp add: race_start_def)
  next
    case (step c c')
    from race_step_ok [OF laws svc json step(2,3)] show ?case .
  qed
  with listed have "served lower (rc_seen c i) q bs" by (simp add: race_ok_def client_ok_def)
  with valid show ?thesis by (simp add: served_def page_in_def)
qed

text \<open>A listing that hits the cache while another client's deletion has committed and not raised the generation.\<close>

definition demo_race :: "(redis_mem, unit) race" where
  "demo_race =
     \<lparr>rc_world = demo_page_world\<lparr>w_store := demo_after_delete\<rparr>, rc_client = (\<lambda>i. Idle)(0 := Listed demo_query (Inr [demo_first_book])),
      rc_pending = 1, rc_seen = (\<lambda>i. {})(0 := {demo_after_delete, demo_pg}), rc_clean = (\<lambda>i. False)(0 := True)\<rparr>"

lemma demo_race_run: "(race_step demo_pages_json demo_cached mem_redis rm_content)\<^sup>*\<^sup>* (race_start demo_page_world) demo_race"
proof -
  let ?R = "race_step demo_pages_json demo_cached mem_redis rm_content"
  let ?c0 = "race_start demo_page_world"
  let ?c1 = "?c0\<lparr>rc_client := (rc_client ?c0)(0 := Keyed demo_query 0), rc_seen := (rc_seen ?c0)(0 := {demo_pg}),
      rc_clean := (rc_clean ?c0)(0 := True)\<rparr>"
  let ?c2 = "?c1\<lparr>rc_world := (rc_world ?c1)\<lparr>w_store := demo_after_delete\<rparr>, rc_pending := 1,
      rc_seen := (rc_seen ?c0)(0 := {demo_after_delete, demo_pg})\<rparr>"
  have miss: "c_Get mem_redis BooksListCacheGenKey (w_redis demo_page_world) = (Inl (Sentinel ErrRedisNil), w_redis demo_page_world)"
    using cache_key_gen [of 0 demo_query]
    by (simp add: mem_redis_def rm_exec_def live_def demo_page_world_def demo_world_def)
  have gen: "cacheGeneration demo_cached demo_page_world = (0, demo_page_world)"
    using miss by (simp add: cacheGeneration_def demo_cached_eqs on_redis_eq)
  have up: "answers mem_redis BooksListCacheGenKey (w_redis demo_page_world)" using miss by (simp add: answers_def)
  have store: "w_store demo_page_world = demo_pg" by (simp add: demo_page_world_def demo_world_def)
  have "?R ?c0 ?c1"
    using race_step.begin_list [of ?c0 0 demo_query demo_cached 0 demo_page_world demo_pages_json mem_redis rm_content] gen
    by (simp add: race_start_def demo_query_canonical up store)
  moreover have "?R ?c1 ?c2"
    using race_step.commit [of demo_pages_json demo_cached mem_redis rm_content ?c1 demo_after_delete]
    by (simp add: race_start_def fun_upd_def if_distrib cong: if_cong)
  moreover have "?R ?c2 demo_race"
  proof -
    let ?w = "demo_page_world\<lparr>w_store := demo_after_delete\<rparr>"
    have "c_Get mem_redis (BooksListDataCacheKey 0 demo_query) (w_redis ?w) = (Inr ''[1]'', w_redis ?w)"
      by (simp add: mem_redis_def rm_exec_def live_def demo_page_world_def demo_world_def minute_def)
    moreover have "json_Unmarshal demo_pages_json ''[1]'' = Inr [demo_first_book]" by (simp add: demo_pages_json_def)
    ultimately have "list_step demo_pages_json demo_cached mem_redis (Keyed demo_query 0) ?w = (Listed demo_query (Inr [demo_first_book]), ?w)"
      by (simp add: on_redis_eq)
    then show ?thesis
      using race_step.go [of ?c2 0 demo_pages_json demo_cached mem_redis "Listed demo_query (Inr [demo_first_book])" ?w rm_content]
      by (simp add: race_start_def demo_race_def)
  qed
  ultimately show ?thesis by (meson rtranclp.rtrancl_into_rtrancl rtranclp.rtrancl_refl)
qed

theorem concurrent_listing_fresh_witness:
  "rc_client demo_race 0 = Listed demo_query (Inr [demo_first_book]) \<and>
   run_list (map lower_char) demo_query (w_store (rc_world demo_race)) = [] \<and>
   (\<exists>T. T \<in> rc_seen demo_race 0 \<and> [demo_first_book] = map bookFromDB (run_list (map lower_char) demo_query T))"
proof -
  have "\<exists>T \<in> rc_seen demo_race 0. [demo_first_book] = map bookFromDB (run_list (map lower_char) demo_query T)"
    by (rule concurrent_listing_fresh [OF mem_redis_laws demo_cached_eqs(1,2) demo_pages_law demo_page_coherent demo_race_run])
      (simp_all add: demo_race_def demo_text)
  then show ?thesis by (auto simp: demo_race_def demo_pages)
qed

end
