(* ===== verification/Auth_Theorems.thy ===== *)
theory Auth_Theorems
  imports Demo_Auth
begin

text \<open>
  The properties of login, refresh, logout and registration, for the user service as the
  router builds it (\<open>router_users\<close>) over the SQL stores, whatever the cryptographic library and
  whatever fails in the database. Each is a lemma of the contract \<open>auth_service\<close> read on the
  program's definitions, followed by an instance on the small database of theory Demo.
\<close>

text \<open>The tokens of the database without the stamp the database writes itself.\<close>

definition cores :: "pg \<Rightarrow> string \<Rightarrow> RefreshToken option" where
  "cores s = map_option token_core \<circ> tokens_of s"

definition family_revoked :: "string \<Rightarrow> pg \<Rightarrow> bool" where
  "family_revoked f s \<longleftrightarrow>
     (\<forall>h t. tokens_of s h = Some t \<longrightarrow> tk_FamilyID t = f \<longrightarrow> tk_RevokedAt t \<noteq> None)"

lemma cores_core: "cores = router_auth.core"
  by (simp add: fun_eq_iff cores_def router_auth.core_def)

lemma revoked_dead_family: "family_revoked = router_auth.dead_family"
  by (simp add: fun_eq_iff family_revoked_def router_auth.dead_family_def)

lemma cores_revoked:
  "router_auth.revoked_family s f at =
     map_option (token_core \<circ> revoke_if (\<lambda>t. tk_FamilyID t = f) at) \<circ> tokens_of s"
  by (simp add: router_auth.revoked_family_def)

text \<open>The rows of the small database, by the hashes of their tokens.\<close>

lemma demo_tokens:
  "tokens_of demo_pg (HashRefreshToken demo_lib ''r1'') = Some (refreshFromDB (demo_tok 1 1 ''r1'' ''f1'' None))"
  "tokens_of demo_pg (HashRefreshToken demo_lib ''r2'') = Some (refreshFromDB (demo_tok 2 1 ''r2'' ''f1'' (Some 1)))"
  by (simp_all add: tokens_of_def table_of_def sql_first_def demo_pg_def demo_hash demo_tok_def hex_encode_inj)

lemma demo_start: "w_store demo_pgworld = demo_pg" "pg_ok (w_store demo_pgworld)"
  using demo_pg_ok by (simp_all add: demo_pgworld_def demo_world_def)

section \<open>Refresh tokens\<close>

text \<open>
  C2. A refresh token is good for one refresh: once \<open>Refresh\<close> has answered with new
  credentials, no later presentation of the same plaintext succeeds, whatever sequence of
  logins, refreshes, logouts and registrations runs in between.
\<close>

theorem refresh_single_use:
  assumes "pg_ok (w_store w)"
    and "Refresh lib (router_users redis rt) p w = (Inr pr, w1)"
    and "w2 = fold (run_auth lib (router_users redis rt)) ops w1"
  shows "\<not> is_ok (fst (Refresh lib (router_users redis rt) p w2))"
  by (rule router_auth.single_use [OF assms])

theorem refresh_single_use_witness:
  "\<exists>pr w1. Refresh demo_lib demo_svc ''r1'' demo_pgworld = (Inr pr, w1) \<and>
     \<not> is_ok (fst (Refresh demo_lib demo_svc ''r1'' (run_auth demo_lib demo_svc (LoginOp ''ann'' ''pw'') w1)))"
  using demo_refresh refresh_single_use [OF demo_start(2), of demo_lib None demo_rt "''r1''" _ _ _
      "[LoginOp ''ann'' ''pw'']"] by fastforce

text \<open>
  C3. Replaying a spent refresh token that has neither expired nor been revoked is answered as
  reuse and revokes every token of its family; the only other answer is a storage error, and
  then no token has changed.
\<close>

theorem refresh_replay_revokes_family:
  assumes ok: "pg_ok (w_store w)" and p: "p \<noteq> ''''"
    and row: "tokens_of (w_store w) (HashRefreshToken lib p) = Some row"
    and spent: "tk_ConsumedAt row \<noteq> None" and live: "tk_RevokedAt row = None"
      "rt_time (w_rt w) (rt_tick (w_rt w)) \<le> tk_ExpiresAt row"
    and run: "Refresh lib (router_users redis rt) p w = (r, w')"
  shows "(r = Inl (Sentinel ErrRefreshReuse) \<and> family_revoked (tk_FamilyID row) (w_store w')) \<or>
    ((\<exists>c. r = Inl (fmtError ErrRefreshPersist c)) \<and> tokens_of (w_store w') = tokens_of (w_store w))"
proof -
  have "r = Inl (Sentinel ErrRefreshReuse) \<or> (\<exists>c. r = Inl (fmtError ErrRefreshPersist c))"
    using router_auth.replay_is_reuse [OF ok p row spent live, of redis rt] run by simp
  then show ?thesis
  proof
    assume reuse: "r = Inl (Sentinel ErrRefreshReuse)"
    from router_auth.reuse_kills_family [OF ok run [unfolded reuse]] row reuse show ?thesis
      by (simp add: revoked_dead_family)
  next
    assume "\<exists>c. r = Inl (fmtError ErrRefreshPersist c)"
    with router_auth.Refresh_spec [OF ok run refl] show ?thesis by (auto simp: fmtError_def)
  qed
qed

theorem refresh_replay_revokes_family_witness:
  "\<exists>r w'. Refresh demo_lib demo_svc ''r2'' demo_pgworld = (r, w') \<and>
    ((r = Inl (Sentinel ErrRefreshReuse) \<and> family_revoked ''f1'' (w_store w')) \<or>
     ((\<exists>c. r = Inl (fmtError ErrRefreshPersist c)) \<and> tokens_of (w_store w') = tokens_of demo_pg))"
proof -
  obtain r w' where run: "Refresh demo_lib demo_svc ''r2'' demo_pgworld = (r, w')" by fastforce
  have row: "tokens_of (w_store demo_pgworld) (HashRefreshToken demo_lib ''r2'') =
      Some (refreshFromDB (demo_tok 2 1 ''r2'' ''f1'' (Some 1)))" by (simp add: demo_start(1) demo_tokens(2))
  show ?thesis
    using refresh_replay_revokes_family [OF demo_start(2) _ row _ _ _ run] run
    by (simp add: demo_start(1) demo_tok_def refreshFromDB_def hour_def demo_pgworld_at demo_rt_at_def demo_rt_def)
qed

text \<open>
  C4. A revoked family stays dead: after any sequence of calls in which no login draws the
  family's own random identifier anew, no token stored under that family can be refreshed.
\<close>

theorem revoked_family_stays_dead:
  assumes "pg_ok (w_store w)" and "family_revoked f (w_store w)"
    and "undrawn lib (router_users redis rt) f ops w"
    and "w' = fold (run_auth lib (router_users redis rt)) ops w"
    and "tokens_of (w_store w') (HashRefreshToken lib p) = Some row" and "tk_FamilyID row = f"
  shows "\<not> is_ok (fst (Refresh lib (router_users redis rt) p w'))"
  by (rule router_auth.dead_refused [OF assms(1) assms(2) [unfolded revoked_dead_family] assms(3-)])

text \<open>A database whose family \<open>''f1''\<close> is revoked.\<close>

definition demo_revoked :: pg where
  "demo_revoked = demo_pg\<lparr>pg_tokens := [(demo_tok 1 1 ''r1'' ''f1'' None)\<lparr>tr_RevokedAt := Some 1\<rparr>]\<rparr>"

theorem revoked_family_stays_dead_witness:
  "\<not> is_ok (fst (Refresh demo_lib demo_svc ''r1'' (demo_at demo_revoked 0 0)))"
proof -
  have "pg_ok demo_revoked"
    by (simp add: pg_ok_def demo_revoked_def demo_pg_def key_ok_def demo_book_def demo_user_def demo_tok_def
        max_int64_def)
  moreover have "family_revoked ''f1'' demo_revoked"
    by (auto simp: family_revoked_def tokens_of_def table_of_def sql_first_def demo_revoked_def demo_tok_def
        refreshFromDB_def split: if_splits)
  moreover have "tokens_of demo_revoked (HashRefreshToken demo_lib ''r1'') =
      Some (refreshFromDB ((demo_tok 1 1 ''r1'' ''f1'' None)\<lparr>tr_RevokedAt := Some 1\<rparr>))"
    by (simp add: tokens_of_def table_of_def sql_first_def demo_revoked_def demo_tok_def demo_hash)
  ultimately show ?thesis
    using revoked_family_stays_dead [of "demo_at demo_revoked 0 0" "''f1''" demo_lib None demo_rt "[]"]
    by (simp add: refreshFromDB_def demo_tok_def)
qed

text \<open>
  C13. What a refresh does, on every branch. It succeeds only for an active token that has not
  expired; then the token is spent, one new active token of the same family and user is stored,
  with the whole lifetime ahead, and the access token is issued for that user. Answering reuse
  revokes the family. Any other error leaves all tokens as they were. Users never change.
\<close>

theorem refresh_outcome:
  assumes "pg_ok (w_store w)" and "Refresh lib (router_users redis rt) p w = (r, w')"
    and "now = rt_time (w_rt w) (rt_tick (w_rt w))"
  shows "pg_ok (w_store w') \<and> users_of (w_store w') = users_of (w_store w) \<and>
    (case r of
       Inl e \<Rightarrow>
         if e = Sentinel ErrRefreshReuse
         then \<exists>row. tokens_of (w_store w) (HashRefreshToken lib p) = Some row \<and>
           cores (w_store w') = map_option (token_core \<circ>
             revoke_if (\<lambda>t. tk_FamilyID t = tk_FamilyID row) now) \<circ> tokens_of (w_store w)
         else tokens_of (w_store w') = tokens_of (w_store w)
     | Inr pr \<Rightarrow>
         \<exists>row t u. p \<noteq> '''' \<and> tokens_of (w_store w) (HashRefreshToken lib p) = Some row \<and>
           now \<le> tk_ExpiresAt row \<and>
           users_of (w_store w) (u_Username u) = Some u \<and> same_key (u_ID u) (tk_UserID row) \<and>
           issued_by lib w u (tp_AccessToken pr) \<and> length (tp_RefreshToken pr) = 43 \<and>
           tk_active row \<and> tokens_of (w_store w) (HashRefreshToken lib (tp_RefreshToken pr)) = None \<and>
           cores (w_store w') = (cores (w_store w))
             (HashRefreshToken lib p \<mapsto> token_core (row\<lparr>tk_ConsumedAt := Some now\<rparr>),
              HashRefreshToken lib (tp_RefreshToken pr) \<mapsto> token_core t) \<and>
           tk_active t \<and> tk_FamilyID t = tk_FamilyID row \<and> same_key (tk_UserID t) (u_ID u) \<and>
           tk_ExpiresAt t = now + RefreshTokenTTL (w_rt w))"
  by (insert router_auth.Refresh_spec [OF assms], unfold cores_core cores_revoked, elim conjE,
      intro conjI)

theorem refresh_outcome_witness:
  "\<exists>pr w'. Refresh demo_lib demo_svc ''r1'' demo_pgworld = (Inr pr, w') \<and>
     length (tp_RefreshToken pr) = 43 \<and>
     tokens_of demo_pg (HashRefreshToken demo_lib (tp_RefreshToken pr)) = None"
  using demo_refresh refresh_outcome [OF demo_start(2) _ refl, of demo_lib None demo_rt "''r1''"]
  by (fastforce simp: demo_start(1))

section \<open>Login\<close>

text \<open>
  C14. A login succeeds only for a stored user whose password hash matches; it stores one new
  active refresh token for that user, under a freshly drawn family, with the whole lifetime
  ahead, and answers with an access token issued for that user. A failed login changes neither
  users nor tokens.
\<close>

theorem login_outcome:
  assumes "pg_ok (w_store w)" and "Login lib (router_users redis rt) name pw w = (r, w')"
  shows "pg_ok (w_store w') \<and> users_of (w_store w') = users_of (w_store w) \<and>
    (case r of
       Inl e \<Rightarrow> tokens_of (w_store w') = tokens_of (w_store w)
     | Inr pr \<Rightarrow>
         \<exists>u t k rt'. users_of (w_store w) name = Some u \<and> bcrypt_Compare lib (u_Password u) pw \<and>
           NewFamilyID (w_rt w) = (Inr (tk_FamilyID t), rt') \<and>
           issued_by lib w u (tp_AccessToken pr) \<and> length (tp_RefreshToken pr) = 43 \<and>
           tokens_of (w_store w) (HashRefreshToken lib (tp_RefreshToken pr)) = None \<and>
           tokens_of (w_store w') =
             (tokens_of (w_store w))(HashRefreshToken lib (tp_RefreshToken pr) \<mapsto> t) \<and>
           tk_active t \<and> same_key (tk_UserID t) (u_ID u) \<and>
           rt_tick (w_rt w) \<le> k \<and> tk_ExpiresAt t = rt_time (w_rt w) k + RefreshTokenTTL (w_rt w))"
  by (insert router_auth.Login_spec [OF assms], elim conjE, intro conjI)

theorem login_outcome_witness:
  "\<exists>pr w' t. Login demo_lib demo_svc ''ann'' ''pw'' demo_pgworld = (Inr pr, w') \<and>
     tokens_of (w_store w') (HashRefreshToken demo_lib (tp_RefreshToken pr)) = Some t \<and> tk_active t"
  using demo_login login_outcome [OF demo_start(2), of demo_lib None demo_rt "''ann''" "''pw''"]
  by fastforce

section \<open>Registration and logout\<close>

text \<open>
  C15. Registration adds exactly one user, under a name that was free, with the hash of the
  password and the role every new account gets; it refuses passwords above 72 bytes, answers a
  conflict only for a name that is taken, and an error changes nothing. Tokens never change.
\<close>

theorem register_outcome:
  assumes "pg_ok (w_store w)" and "Register lib (router_users redis rt) name pw w = (r, w')"
  shows "pg_ok (w_store w') \<and> tokens_of (w_store w') = tokens_of (w_store w) \<and>
    (case r of
       Inl e \<Rightarrow> users_of (w_store w') = users_of (w_store w) \<and>
         (e = Sentinel ErrRegisterConflict \<longrightarrow> users_of (w_store w) name \<noteq> None)
     | Inr _ \<Rightarrow>
         \<exists>u. length pw \<le> 72 \<and> users_of (w_store w) name = None \<and>
           users_of (w_store w') = (users_of (w_store w))(name \<mapsto> u) \<and>
           u_Username u = name \<and> u_Role u = RoleUser \<and>
           fst (HashPassword lib pw (w_rt w)) = Inr (u_Password u))"
  by (rule router_auth.Register_spec [OF assms])

theorem register_outcome_witness:
  "\<exists>w' u. Register demo_lib demo_svc ''eve'' ''secret'' demo_pgworld = (Inr (), w') \<and>
     users_of (w_store w') ''eve'' = Some u \<and> u_Role u = RoleUser"
  using demo_register register_outcome [OF demo_start(2), of demo_lib None demo_rt "''eve''" "''secret''"]
  by fastforce

text \<open>Whose tokens a logout revokes.\<close>

definition revoked_by_logout :: "crypto_lib \<Rightarrow> pg \<Rightarrow> uint \<Rightarrow> string \<Rightarrow> RefreshToken \<Rightarrow> bool" where
  "revoked_by_logout lib s uid p t \<longleftrightarrow>
     (if p = '''' then same_key (tk_UserID t) uid
      else (\<exists>row. tokens_of s (HashRefreshToken lib p) = Some row \<and> tk_UserID row = uid \<and>
        tk_FamilyID t = tk_FamilyID row))"

text \<open>
  C16. A logout that names a refresh token of the caller revokes exactly that token's family;
  one that names none revokes exactly the caller's tokens; one that names a token of somebody
  else, or an unknown one, revokes nothing. An error changes no token, and users never change.
\<close>

theorem logout_outcome:
  assumes "pg_ok (w_store w)"
    and "Logout lib (router_users redis rt) uid p jti exp w = (r, w')"
    and "now = rt_time (w_rt w) (rt_tick (w_rt w))"
  shows "pg_ok (w_store w') \<and> users_of (w_store w') = users_of (w_store w) \<and>
    (case r of
       Inl e \<Rightarrow> tokens_of (w_store w') = tokens_of (w_store w)
     | Inr _ \<Rightarrow> cores (w_store w') =
         map_option (token_core \<circ> revoke_if (revoked_by_logout lib (w_store w) uid p) now) \<circ>
           tokens_of (w_store w))"
proof -
  have "router_auth.logout_scope lib = revoked_by_logout lib"
    by (simp add: fun_eq_iff router_auth.logout_scope_def revoked_by_logout_def)
  with router_auth.Logout_spec [OF assms] show ?thesis by (simp only: cores_core)
qed

theorem logout_outcome_witness:
  "\<exists>w' t. Logout demo_lib demo_svc 1 ''r1'' '''' time_zero demo_pgworld = (Inr (), w') \<and>
     cores (w_store w') (HashRefreshToken demo_lib ''r1'') = Some t \<and> tk_RevokedAt t \<noteq> None"
proof -
  obtain s where run: "Logout demo_lib demo_svc 1 ''r1'' '''' time_zero demo_pgworld = (Inr (), demo_at s 1 0)"
    using demo_logout [of "''r1''"] by auto
  from logout_outcome [OF demo_start(2) run refl] run show ?thesis
    by (auto simp: demo_start(1) demo_tokens revoked_by_logout_def revoke_if_def token_core_def demo_rows)
qed

end
