(* ===== verification/Http_Theorems.thy ===== *)
theory Http_Theorems
  imports Demo_Http Auth_Theorems
begin

text \<open>
  The properties of the service seen through its HTTP interface: requests to the engine that
  \<open>NewRouter\<close> builds, over third-party middlewares that pass requests on (\<open>libs_transparent\<close>)
  and the SQL database. \<open>key_sizes\<close> says that neither key has \<open>2^64\<close> bytes; \<open>answered\<close> that the
  request left the database, the events and the secrets as they were and disclosed no data.
\<close>

section \<open>Authority over books\<close>

text \<open>
  C1. A stored book changes or disappears only through a \<open>PUT\<close>, \<open>PATCH\<close> or \<open>DELETE\<close> request that
  presents the API key together with a verified access token of the book's owner.
\<close>

theorem books_change_by_owner_only:
  assumes "NewRouter lb pi mongo redis publisher rt = Inr r" and "libs_transparent lb"
    and "(g_Method c, g_FullPath c) \<in> set api_paths" and "key_sizes c w" and "pg_ok (w_store w)"
    and "books_of (w_store w) k = Some b"
    and "books_of (w_store (snd (ServeHTTP r c w))) k \<noteq> Some b"
  shows "\<exists>claims. g_Method c \<in> {''PUT'', ''PATCH'', ''DELETE''} \<and> key_presented c w \<and>
    token_verified (lb_crypto lb) c w claims \<and> cl_UserID claims = b_OwnerID b"
  by (rule book_authority [OF assms]) (auto simp: mutators_def)

theorem books_change_by_owner_only_witness:
  "\<exists>r claims. NewRouter demo_libs demo_pings False None None demo_off = Inr r \<and>
     books_of (w_store (snd (ServeHTTP r
       (demo_request ''DELETE'' ''/api/v1/books/:id'' (demo_header ''ann'')) demo_pgworld))) 1 = None \<and>
     token_verified demo_http_lib (demo_request ''DELETE'' ''/api/v1/books/:id'' (demo_header ''ann''))
       demo_pgworld claims \<and> cl_UserID claims = 1"
proof -
  obtain r :: "(unit, unit) engine" where r: "NewRouter demo_libs demo_pings False None None demo_off = Inr r"
    using demo_router by blast
  let ?c = "demo_request ''DELETE'' ''/api/v1/books/:id'' (demo_header ''ann'')"
  have gone: "books_of (w_store (snd (ServeHTTP r ?c demo_pgworld))) 1 = None" by (rule demo_delete [OF r])
  have here: "(g_Method ?c, g_FullPath ?c) \<in> set api_paths" by (simp add: demo_request_def api_paths_def keyed_routes_def)
  have "books_of (w_store (snd (ServeHTTP r ?c demo_pgworld))) 1 \<noteq>
      Some (bookFromDB (demo_book 1 1 ''Go'' ''Pike''))" by (simp add: gone)
  from books_change_by_owner_only [OF r demo_libs_transparent here demo_keys(1) demo_start(2) demo_book_1 this]
  obtain claims where "g_Method ?c \<in> {''PUT'', ''PATCH'', ''DELETE''} \<and> key_presented ?c demo_pgworld \<and>
      token_verified (lb_crypto (demo_libs :: (unit, unit) libs)) ?c demo_pgworld claims \<and>
      cl_UserID claims = b_OwnerID (bookFromDB (demo_book 1 1 ''Go'' ''Pike''))" ..
  with r gone show ?thesis by (auto simp: demo_libs_def bookFromDB_def demo_book_def demo_ids)
qed

section \<open>The two gates\<close>

text \<open>
  C6. Every route of the API but the health check refuses a request without the configured API
  key: the database, the events and the secrets stay as they were, and the answer carries no data.
\<close>

theorem api_key_gate_closed:
  assumes "NewRouter lb pi mongo redis publisher rt = Inr r" and "libs_transparent lb"
    and "(g_Method c, g_FullPath c) \<in> set keyed_routes" and "key_sizes c w" and "\<not> key_presented c w"
  shows "answered c w (ServeHTTP r c w)"
  by (rule api_key_gate [OF assms])

theorem api_key_gate_closed_witness:
  "\<exists>r. NewRouter demo_libs demo_pings False None None demo_off = Inr r \<and>
     answered (demo_request ''POST'' ''/api/v1/login'' (\<lambda>n. '''')) demo_pgworld
       (ServeHTTP r (demo_request ''POST'' ''/api/v1/login'' (\<lambda>n. '''')) demo_pgworld)"
proof -
  obtain r :: "(unit, unit) engine" where r: "NewRouter demo_libs demo_pings False None None demo_off = Inr r"
    using demo_router by blast
  let ?c = "demo_request ''POST'' ''/api/v1/login'' (\<lambda>n. '''')"
  have "(g_Method ?c, g_FullPath ?c) \<in> set keyed_routes" "key_sizes ?c demo_pgworld" "\<not> key_presented ?c demo_pgworld"
    by (simp_all add: demo_request_def keyed_routes_def key_sizes_def key_presented_def demo_pgworld_def
        demo_world_def demo_key_def)
  from api_key_gate_closed [OF r demo_libs_transparent this] r show ?thesis by blast
qed

text \<open>
  C7. The routes that change books, the logout and the administrator's route refuse a request
  that carries no verified access token in the same way.
\<close>

theorem jwt_gate_closed:
  assumes "NewRouter lb pi mongo redis publisher rt = Inr r" and "libs_transparent lb"
    and "(g_Method c, g_FullPath c) \<in> set jwt_routes" and "key_sizes c w"
    and "\<And>claims. \<not> token_verified (lb_crypto lb) c w claims"
  shows "answered c w (ServeHTTP r c w)"
  by (rule jwt_gate [OF assms])

theorem jwt_gate_closed_witness:
  "\<exists>r. NewRouter demo_libs demo_pings False None None demo_off = Inr r \<and>
     answered (demo_request ''DELETE'' ''/api/v1/books/:id'' demo_key_only) demo_pgworld
       (ServeHTTP r (demo_request ''DELETE'' ''/api/v1/books/:id'' demo_key_only) demo_pgworld)"
proof -
  obtain r :: "(unit, unit) engine" where r: "NewRouter demo_libs demo_pings False None None demo_off = Inr r"
    using demo_router by blast
  let ?c = "demo_request ''DELETE'' ''/api/v1/books/:id'' demo_key_only"
  have here: "(g_Method ?c, g_FullPath ?c) \<in> set jwt_routes" "key_sizes ?c demo_pgworld"
    by (simp_all add: demo_request_def jwt_routes_def key_sizes_def demo_pgworld_def demo_world_def demo_key_def
        demo_key_only_def)
  have "\<not> token_verified (lb_crypto (demo_libs :: (unit, unit) libs)) ?c demo_pgworld claims" for claims
    by (simp add: token_verified_def demo_request_def demo_key_only_def BearerSchema_def starts_with_iff)
  from jwt_gate_closed [OF r demo_libs_transparent here this] r show ?thesis by blast
qed

text \<open>
  C9. The administrator's route answers with data only when the API key and a verified token
  with the administrator's role were presented, and then with the identity of that token: its user
  name, its user identifier and its role.
\<close>

theorem admin_answer_needs_role:
  assumes "NewRouter lb pi mongo redis publisher rt = Inr r" and "libs_transparent lb"
    and "g_Method c = ''GET''" and "g_FullPath c = ''/api/v1/admin/me''" and "key_sizes c w"
    and "\<not> carries_data (g_Body c)" and "carries_data (g_Body (fst (ServeHTTP r c w)))"
  shows "\<exists>claims. key_presented c w \<and> token_verified (lb_crypto lb) c w claims \<and>
    cl_Role claims = RoleAdmin \<and> g_Body (fst (ServeHTTP r c w)) =
      DataAdmin \<lparr>am_Username = cl_Username claims, am_UserID = cl_UserID claims, am_Role = RoleAdmin\<rparr>"
  by (rule admin_answer [OF assms]) auto

theorem admin_answer_needs_role_witness:
  "\<exists>(r :: (unit, unit) engine) claims. NewRouter demo_libs demo_pings False None None demo_off = Inr r \<and>
     cl_Username claims = ''u'' \<and> cl_UserID claims = 2 \<and> cl_Role claims = RoleAdmin \<and>
     token_verified (lb_crypto (demo_libs :: (unit, unit) libs))
       (demo_request ''GET'' ''/api/v1/admin/me'' (demo_header ''bob'')) demo_pgworld claims"
proof -
  obtain r :: "(unit, unit) engine" where r: "NewRouter demo_libs demo_pings False None None demo_off = Inr r"
    using demo_router by blast
  let ?c = "demo_request ''GET'' ''/api/v1/admin/me'' (demo_header ''bob'')"
  have body: "g_Body (fst (ServeHTTP r ?c demo_pgworld)) =
      DataAdmin \<lparr>am_Username = ''u'', am_UserID = 2, am_Role = RoleAdmin\<rparr>" by (rule demo_admin [OF r])
  have at: "g_Method ?c = ''GET''" "g_FullPath ?c = ''/api/v1/admin/me''" "\<not> carries_data (g_Body ?c)"
    by (simp_all add: demo_request_def)
  have "carries_data (g_Body (fst (ServeHTTP r ?c demo_pgworld)))" by (simp add: body)
  from admin_answer_needs_role [OF r demo_libs_transparent at(1,2) demo_keys(1) at(3) this]
  show ?thesis using r unfolding body by auto
qed

section \<open>The database\<close>

text \<open>
  C26. Every request on the API keeps the invariant of the database: primary keys, user names and
  token hashes are unique, identifiers stay positive 63-bit numbers below their sequences.
\<close>

theorem requests_keep_database:
  assumes "NewRouter lb pi mongo redis publisher rt = Inr r" and "libs_transparent lb"
    and "(g_Method c, g_FullPath c) \<in> set api_paths" and "pg_ok (w_store w)"
  shows "pg_ok (w_store (snd (ServeHTTP r c w)))"
  by (rule request_keeps_ok [OF assms])

theorem requests_keep_database_witness:
  "\<exists>r. NewRouter demo_libs demo_pings False None None demo_off = Inr r \<and>
     pg_ok (w_store (snd (ServeHTTP r
       (demo_request ''DELETE'' ''/api/v1/books/:id'' (demo_header ''ann'')) demo_pgworld)))"
proof -
  obtain r :: "(unit, unit) engine" where r: "NewRouter demo_libs demo_pings False None None demo_off = Inr r"
    using demo_router by blast
  have "(g_Method c, g_FullPath c) \<in> set api_paths"
    if "c = demo_request ''DELETE'' ''/api/v1/books/:id'' (demo_header ''ann'')" for c
    using that by (simp add: demo_request_def api_paths_def keyed_routes_def)
  from requests_keep_database [OF r demo_libs_transparent this demo_start(2)] r show ?thesis by blast
qed

end
