(* ===== verification/Token_Theorems.thy ===== *)
theory Token_Theorems
  imports Http_Theorems
begin

text \<open>
  The properties of access tokens and of the two secrets: signing and verification fit
  together, only genuine tokens open the protected routes, a revoked token is refused, and the
  comparison of the API key is exact.
\<close>

section \<open>Access tokens\<close>

lemma char_bound: "of_char (c :: char) < (256 :: nat)"
  using mod_less_divisor [of 256 "of_char c :: nat"] of_char_mod_256 [of c] by simp

lemma b64_digit_ascii: "n < 64 \<Longrightarrow> of_char (b64_digit n) < (128 :: nat)"
proof -
  let ?abc = "''ABCDEFGHIJKLMNOPQRSTUVWXYZabcdefghijklmnopqrstuvwxyz0123456789-_''"
  have "list_all (\<lambda>ch. of_char ch < (128 :: nat)) ?abc" "length ?abc = 64" by simp_all
  then show "n < 64 \<Longrightarrow> of_char (b64_digit n) < (128 :: nat)"
    unfolding b64_digit_def list_all_length by presburger
qed

lemma b64_bounds:
  "x < 256 \<Longrightarrow> y < 256 \<Longrightarrow> (x * 256 + y) * 4 < (64 :: nat) * 4096"
  "x < 256 \<Longrightarrow> y < 256 \<Longrightarrow> z < 256 \<Longrightarrow> (x * 256 + y) * 256 + z < (64 :: nat) * 262144"
  by simp_all

lemma b64_ascii: "ch \<in> set (b64url_encode s) \<Longrightarrow> of_char ch < (128 :: nat)"
proof (induction s rule: b64url_encode.induct)
  case (2 a)
  have "of_char a * 16 div 64 < (64 :: nat)" using char_bound [of a] by (simp add: less_mult_imp_div_less)
  with 2 show ?case by (auto simp: Let_def intro!: b64_digit_ascii)
next
  case (3 a b)
  note bound = b64_bounds(1) [OF char_bound [of a] char_bound [of b]]
  from 3 less_mult_imp_div_less [OF bound] show ?case by (auto simp: Let_def intro!: b64_digit_ascii)
next
  case (4 a b c s)
  note bound = b64_bounds(2) [OF char_bound [of a] char_bound [of b] char_bound [of c]]
  from 4 less_mult_imp_div_less [OF bound] show ?case by (auto simp: Let_def intro!: b64_digit_ascii)
qed simp

lemma role_ascii: "ValidRole role \<Longrightarrow> ch \<in> set role \<Longrightarrow> of_char ch < (128 :: nat)"
  by (auto simp: ValidRole_def RoleUser_def RoleAdmin_def)

lemma opaque_ascii: "fst (NewOpaqueToken rt) = Inr t \<Longrightarrow> ch \<in> set t \<Longrightarrow> of_char ch < (128 :: nat)"
  by (auto simp: NewOpaqueToken_def b64_ascii split: prod.splits option.splits)

text \<open>
  C10. Round trip: the token \<open>GenerateToken\<close> signs is accepted by \<open>JWTAuth\<close> as long as the
  signing key is the same and its expiry, in whole seconds, has not come; the handlers behind it
  then see the user, the name and the role it was signed for, unless the denylist refuses it.
\<close>

theorem access_token_roundtrip:
  fixes w w2 :: "('s, 'r, 'p) world"
  assumes laws: "jwt_laws lib genuine"
    and gen: "GenerateToken lib name uid role w = (Inr tok, w1)"
    and name: "\<forall>ch \<in> set name. of_char ch < (128 :: nat)"
    and header: "g_GetHeader c ''Authorization'' = BearerSchema @ tok" and key: "w_jwtkey w2 = w_jwtkey w"
    and issued: "iat = rt_time (w_rt w) (rt_tick (w_rt w))" "0 \<le> iat"
    and now: "now = rt_time (w_rt w2) (rt_tick (w_rt w2))" "iat \<le> now"
    and fresh: "now < (iat + AccessTokenTTL (w_rt w)) div second * second"
    and range: "iat + AccessTokenTTL (w_rt w) \<le> 9007199254740992 * second"
  shows "\<exists>claims. cl_UserID claims = uid \<and> cl_Username claims = name \<and> cl_Role claims = role \<and>
    JWTAuth lib dl nxt c w2 =
      (case denylist_check dl claims (snd (on_rt time_now w2)) of
         (Some msg, w3) \<Rightarrow> (httperr_Abort 401 msg c, w3)
       | (None, w3) \<Rightarrow> nxt (set_claims claims c) w3)"
proof -
  obtain jti where signed: "uid \<noteq> 0" "ValidRole role" "32 \<le> length (w_jwtkey w)"
      "fst (NewOpaqueToken (w_rt w)) = Inr jti"
      "jwt_SignedString lib SigningMethodHS256 (w_jwtkey w)
         \<lparr>cl_Username = name, cl_UserID = uid, cl_Role = role,
          cl_ExpiresAt = Some (jwt_NumericDate lib (iat + AccessTokenTTL (w_rt w))),
          cl_IssuedAt = Some (jwt_NumericDate lib iat), cl_ID = jti\<rparr> = Inr tok"
    using GenerateToken_done [OF gen] issued(1) by blast
  let ?exp = "(iat + AccessTokenTTL (w_rt w)) div second * second" and ?iat = "iat div second * second"
  let ?claims = "\<lparr>cl_Username = name, cl_UserID = uid, cl_Role = role, cl_ExpiresAt = Some ?exp,
      cl_IssuedAt = Some ?iat, cl_ID = jti\<rparr>"
  have date: "jwt_NumericDate lib t = t div second * second" for t using laws by (simp add: jwt_laws_def)
  have sec: "(0 :: int) < second" by (simp add: second_def)
  have down: "t div second * second \<le> t" for t :: int
    using pos_mod_sign [OF sec, of t] minus_mod_eq_div_mult [of t second] by linarith
  have ttl: "0 < AccessTokenTTL (w_rt w)" by (rule AccessTokenTTL_pos)
  have "0 \<le> ?iat" "0 \<le> ?exp" using issued(2) ttl sec by (simp_all add: pos_imp_zdiv_nonneg_iff)
  moreover have "?iat \<le> 9007199254740992 * second" "?exp \<le> 9007199254740992 * second"
    using down [of iat] down [of "iat + AccessTokenTTL (w_rt w)"] ttl range by linarith+
  ultimately have plain: "jwt_plain ?claims"
    using name role_ascii [OF signed(2)] opaque_ascii [OF signed(4)] by (auto simp: jwt_plain_def)
  have "jwt_SignedString lib SigningMethodHS256 (w_jwtkey w) ?claims = Inr tok" using signed(5) by (simp only: date)
  moreover have "JWTKeyFunc (w_jwtkey w) SigningMethodHS256 = Inr (w_jwtkey w)" by (simp add: JWTKeyFunc_def)
  moreover have "\<forall>i. cl_IssuedAt ?claims = Some i \<longrightarrow> i \<le> now" using down [of iat] now(2) by simp
  moreover have "cl_ExpiresAt ?claims = Some ?exp" by simp
  ultimately have parse: "jwt_Parse lib now tok (JWTKeyFunc (w_jwtkey w)) = Inr (True, ?claims)"
    using laws plain fresh unfolding jwt_laws_def by blast
  have "JWTAuth lib dl nxt c w2 = (case denylist_check dl ?claims (snd (on_rt time_now w2)) of
      (Some msg, w3) \<Rightarrow> (httperr_Abort 401 msg c, w3) | (None, w3) \<Rightarrow> nxt (set_claims ?claims c) w3)"
    using parse signed(1-3) key header now(1)
    by (simp add: JWTAuth_def BearerSchema_def starts_with_iff JWTSigningKey_def MinJWTSecretKeyBytes_def
        on_rt_eq time_now_def Let_def)
  then show ?thesis by (intro exI [of _ ?claims]) simp
qed

text \<open>The bearer header of a token, on an otherwise empty request.\<close>

definition demo_bearer :: "string \<Rightarrow> string \<Rightarrow> string" where
  "demo_bearer tok n = (if n = ''Authorization'' then BearerSchema @ tok else '''')"

definition demo_next :: "(pg, 'r, unit) handler" where
  "demo_next c w = (set_status 204 c, w)"

lemma demo_times:
  "rt_time (demo_rt_at i j) k = 3600000000000 + 1000000000 * int k" "rt_tick (demo_rt_at i j) = i"
  by (simp_all add: demo_rt_at_def demo_rt_def)

theorem access_token_roundtrip_witness:
  "\<exists>tok claims. fst (GenerateToken demo_lib ''ann'' 1 ''user'' demo_pgworld) = Inr tok \<and>
     cl_UserID claims = 1 \<and> cl_Role claims = ''user'' \<and>
     fst (JWTAuth demo_lib NoopDenylist demo_next (demo_request ''GET'' '''' (demo_bearer tok)) (demo_at demo_pg 1 1)) =
       set_status 204 (set_claims claims (demo_request ''GET'' '''' (demo_bearer tok)))"
proof -
  have "w_rt demo_pgworld = demo_rt_at 0 0" "w_jwtkey demo_pgworld = demo_key" "(1 :: uint) \<noteq> 0" "ValidRole ''user''"
    by (simp_all add: demo_pgworld_at ValidRole_def RoleUser_def)
  from demo_generate [OF this, of "''ann''"] obtain tok where
    g: "GenerateToken demo_lib ''ann'' 1 ''user'' demo_pgworld = (Inr tok, demo_at demo_pg 1 1)"
    by (auto simp: demo_pgworld_at)
  let ?c = "demo_request ''GET'' '''' (demo_bearer tok)"
  have "\<exists>claims. cl_UserID claims = 1 \<and> cl_Username claims = ''ann'' \<and> cl_Role claims = ''user'' \<and>
    JWTAuth demo_lib NoopDenylist demo_next ?c (demo_at demo_pg 1 1) =
      (case denylist_check NoopDenylist claims (snd (on_rt time_now (demo_at demo_pg 1 1))) of
         (Some msg, w3) \<Rightarrow> (httperr_Abort 401 msg ?c, w3)
       | (None, w3) \<Rightarrow> demo_next (set_claims claims ?c) w3)"
    by (rule access_token_roundtrip [OF demo_laws g, where iat = 3600000000000 and now = 3601000000000])
      (simp_all add: demo_request_def demo_bearer_def demo_pgworld_at demo_times demo_ttl second_def)
  then obtain claims where "cl_UserID claims = 1" "cl_Role claims = ''user''"
    "JWTAuth demo_lib NoopDenylist demo_next ?c (demo_at demo_pg 1 1) =
      (case denylist_check NoopDenylist claims (snd (on_rt time_now (demo_at demo_pg 1 1))) of
         (Some msg, w3) \<Rightarrow> (httperr_Abort 401 msg ?c, w3)
       | (None, w3) \<Rightarrow> demo_next (set_claims claims ?c) w3)" by blast
  then have "cl_UserID claims = 1 \<and> cl_Role claims = ''user'' \<and>
      fst (JWTAuth demo_lib NoopDenylist demo_next ?c (demo_at demo_pg 1 1)) = set_status 204 (set_claims claims ?c)"
    by (simp add: denylist_check_def NoopDenylist_def demo_next_def Let_def split: option.split)
  with g show ?thesis by (intro exI [of _ tok] exI [of _ claims]) simp
qed

section \<open>Genuine tokens only\<close>

lemma jwt_law_parse:
  assumes "jwt_laws lib genuine" and "jwt_Parse lib now tok kf = Inr (True, c)"
  shows "(\<exists>alg key. kf alg = Inr key \<and> genuine alg key tok c) \<and> (\<forall>e. cl_ExpiresAt c = Some e \<longrightarrow> now < e)"
  using assms(1) [unfolded jwt_laws_def, THEN conjunct2, THEN conjunct1, rule_format, OF assms(2)] by simp

text \<open>
  C8. Whatever gets past the guards of a protected route carries a bearer token that is genuine
  under HS256 and the configured key and that had not expired when the clock was read; a token
  for another algorithm or key, or an expired one, never does.
\<close>

theorem protected_needs_genuine_token:
  assumes "jwt_laws (lb_crypto lb) genuine"
    and "NewRouter lb pi mongo redis publisher rt = Inr r" and "libs_transparent lb"
    and "(g_Method c, g_FullPath c) \<in> set jwt_routes" and "key_sizes c w"
    and "\<not> answered c w (ServeHTTP r c w)"
  shows "\<exists>tok claims now. g_GetHeader c ''Authorization'' = BearerSchema @ tok \<and>
    genuine SigningMethodHS256 (w_jwtkey w) tok claims \<and>
    (\<exists>k \<ge> rt_tick (w_rt w). now = rt_time (w_rt w) k) \<and>
    (\<forall>e. cl_ExpiresAt claims = Some e \<longrightarrow> now < e)"
proof -
  obtain claims where "token_verified (lb_crypto lb) c w claims"
    using jwt_gate [OF assms(2-5)] assms(6) by blast
  then obtain k where k: "starts_with BearerSchema (g_GetHeader c ''Authorization'')" "rt_tick (w_rt w) \<le> k"
    "jwt_Parse (lb_crypto lb) (rt_time (w_rt w) k) (drop (length BearerSchema) (g_GetHeader c ''Authorization''))
        (JWTKeyFunc (w_jwtkey w)) = Inr (True, claims)"
    by (auto simp: token_verified_def)
  let ?tok = "drop (length BearerSchema) (g_GetHeader c ''Authorization'')"
  obtain alg key where kf: "JWTKeyFunc (w_jwtkey w) alg = Inr key" "genuine alg key ?tok claims"
      and fresh: "\<forall>e. cl_ExpiresAt claims = Some e \<longrightarrow> rt_time (w_rt w) k < e"
    using jwt_law_parse [OF assms(1) k(3)] by blast
  have "alg = SigningMethodHS256" "key = w_jwtkey w" using kf(1) by (simp_all add: JWTKeyFunc_def split: if_splits)
  moreover have "g_GetHeader c ''Authorization'' = BearerSchema @ ?tok"
    using k(1) by (auto simp: starts_with_iff elim: prefixE)
  ultimately show ?thesis using k(2) kf(2) fresh by blast
qed
text \<open>The request of the owner that deletes a book is not refused.\<close>

lemma demo_delete_served:
  assumes "NewRouter demo_libs demo_pings False None None demo_off = Inr r"
  shows "\<not> answered (demo_request ''DELETE'' ''/api/v1/books/:id'' (demo_header ''ann'')) demo_pgworld
    (ServeHTTP r (demo_request ''DELETE'' ''/api/v1/books/:id'' (demo_header ''ann'')) demo_pgworld)"
  using demo_delete [OF assms] demo_book_1 by (auto simp: answered_def redis_only_def)

theorem protected_needs_genuine_token_witness:
  "\<exists>claims. demo_http_genuine SigningMethodHS256 demo_key ''ann'' claims"
proof -
  obtain r :: "(unit, unit) engine" where r: "NewRouter demo_libs demo_pings False None None demo_off = Inr r"
    using demo_router by blast
  let ?c = "demo_request ''DELETE'' ''/api/v1/books/:id'' (demo_header ''ann'')"
  have laws: "jwt_laws (lb_crypto (demo_libs :: (unit, unit) libs)) demo_http_genuine"
    using demo_http_laws by (simp add: demo_libs_def)
  have here: "(g_Method ?c, g_FullPath ?c) \<in> set jwt_routes" by (simp add: demo_request_def jwt_routes_def)
  from protected_needs_genuine_token [OF laws r demo_libs_transparent here demo_keys(1) demo_delete_served [OF r]]
  obtain tok claims where "g_GetHeader ?c ''Authorization'' = BearerSchema @ tok"
      "demo_http_genuine SigningMethodHS256 (w_jwtkey demo_pgworld) tok claims" by blast
  then show ?thesis
    by (auto simp: demo_request_def demo_header_def BearerSchema_def demo_pgworld_at)
qed

section \<open>Revoked tokens\<close>

text \<open>When a check against the denylist refuses, the request ends there.\<close>

lemma JWTAuth_refuses:
  assumes "denylist_check dl claims (snd (on_rt time_now v)) = (Some msg, v')"
    and "g_GetHeader c ''Authorization'' = BearerSchema @ tok"
    and "jwt_Parse lib (rt_time (w_rt v) (rt_tick (w_rt v))) tok (JWTKeyFunc (w_jwtkey v)) = Inr (True, claims)"
  shows "\<exists>code text v'. JWTAuth lib dl nxt c v = (httperr_Abort code text c, v')"
  using assms
  by (auto simp: JWTAuth_def JWTSigningKey_def BearerSchema_def starts_with_iff on_rt_eq time_now_def Let_def)

text \<open>
  C11. A token whose identifier was denied is refused from then on, whatever follows in the
  chain, until its expiry (less the millisecond the client rounds to): as long as Redis keeps the
  entry and answers.
\<close>

theorem denied_token_refused:
  assumes laws: "redis_laws cache content clock"
    and deny: "dl_Deny (RedisDenylist cache) (cl_ID claims) expiry w = (Inr (), w')"
    and start: "now = rt_time (w_rt w) (rt_tick (w_rt w))" "now < expiry" "expiry - now \<le> max_int64"
    and kept: "content (w_redis v) (denylistKeyPrefix @ cl_ID claims) = content (w_redis w') (denylistKeyPrefix @ cl_ID claims)"
    and soon: "clock (w_redis v) < clock (w_redis w) + (expiry - now) - millisecond"
    and up: "answers cache (denylistKeyPrefix @ cl_ID claims) (w_redis v)"
    and header: "g_GetHeader c ''Authorization'' = BearerSchema @ tok"
    and valid: "jwt_Parse lib (rt_time (w_rt v) (rt_tick (w_rt v))) tok (JWTKeyFunc (w_jwtkey v)) = Inr (True, claims)"
  shows "\<exists>code msg v'. JWTAuth lib (RedisDenylist cache) nxt c v = (httperr_Abort code msg c, v')"
proof -
  let ?k = "denylistKeyPrefix @ cl_ID claims" and ?v = "snd (on_rt time_now v)"
  have jti: "cl_ID claims \<noteq> ''''" using deny by (auto simp: RedisDenylist_def rd_Deny_def)
  obtain d where d: "content (w_redis w') ?k = Some (''1'', Some d)" "clock (w_redis w) + (expiry - now) - millisecond \<le> d"
    using rd_Deny_done [OF laws _ start, of "cl_ID claims" w'] deny by (auto simp: RedisDenylist_def)
  have "live (clock (w_redis ?v)) (content (w_redis ?v) ?k) \<noteq> None"
    using d kept soon by (simp add: live_def)
  with rd_IsDenied_read [OF laws jti, of ?v] up obtain v' where "rd_IsDenied cache (cl_ID claims) ?v = (Inr True, v')"
    by (cases "rd_IsDenied cache (cl_ID claims) ?v") auto
  then have "denylist_check (RedisDenylist cache) claims ?v = (Some ''Token revoked'', v')"
    using jti by (simp add: denylist_check_def RedisDenylist_def)
  from JWTAuth_refuses [OF this header valid] show ?thesis .
qed

text \<open>
  C12. After all sessions of a user were ended at a time, every token of the user issued up to the
  end of that second is refused for as long as an access token lives (less the same
  millisecond), also one issued later in that second.
\<close>

theorem ended_sessions_refused:
  assumes laws: "redis_laws cache content clock"
    and deny: "dl_DenyUserBefore (RedisDenylist cache) (cl_UserID claims) before w = (Inr (), w')"
    and range: "min_int64 \<le> time_unix before" "time_unix before \<le> max_int64"
    and issued: "cl_IssuedAt claims = Some iat" "\<not> time_is_zero iat" "time_unix iat \<le> time_unix before"
    and server: "r = (if cl_ID claims = '''' then w_redis v
       else snd (c_Get cache (denylistKeyPrefix @ cl_ID claims) (w_redis v)))"
    and kept: "content r (userRevokeBeforeKey (cl_UserID claims)) = content (w_redis w') (userRevokeBeforeKey (cl_UserID claims))"
    and soon: "clock r < clock (w_redis w) + AccessTokenTTL (w_rt w) - millisecond"
    and up: "answers cache (userRevokeBeforeKey (cl_UserID claims)) r"
    and header: "g_GetHeader c ''Authorization'' = BearerSchema @ tok"
    and valid: "jwt_Parse lib (rt_time (w_rt v) (rt_tick (w_rt v))) tok (JWTKeyFunc (w_jwtkey v)) = Inr (True, claims)"
  shows "\<exists>code msg v'. JWTAuth lib (RedisDenylist cache) nxt c v = (httperr_Abort code msg c, v')"
proof -
  let ?k = "userRevokeBeforeKey (cl_UserID claims)" and ?v = "snd (on_rt time_now v)"
  let ?u = "if cl_ID claims = '''' then ?v else snd (rd_IsDenied cache (cl_ID claims) ?v)"
  have user: "cl_UserID claims \<noteq> 0" using deny by (auto simp: RedisDenylist_def rd_DenyUserBefore_def)
  have ru: "w_redis ?u = r"
    by (auto simp: server rd_IsDenied_def on_redis_eq split: prod.splits sum.splits)
  obtain d where d: "content (w_redis w') ?k = Some (show_int (time_unix before), Some d)"
      "clock (w_redis w) + AccessTokenTTL (w_rt w) - millisecond \<le> d"
    using rd_DenyUserBefore_done [OF laws, of "cl_UserID claims" before w w'] deny by (auto simp: RedisDenylist_def)
  have "live (clock (w_redis ?u)) (content (w_redis ?u) ?k) = Some (show_int (time_unix before))"
    unfolding ru using d kept soon by (simp add: live_def)
  with rd_IsUserRevoked_read [OF laws user issued(2), of ?u] up range issued(3)
  have "fst (rd_IsUserRevoked cache (cl_UserID claims) iat ?u) = Inr True" unfolding ru by (simp add: ParseInt_show_int)
  then obtain v' where rev: "rd_IsUserRevoked cache (cl_UserID claims) iat ?u = (Inr True, v')"
    by (cases "rd_IsUserRevoked cache (cl_UserID claims) iat ?u") simp
  have "\<exists>msg v'. denylist_check (RedisDenylist cache) claims ?v = (Some msg, v')"
  proof (cases "cl_ID claims = ''''")
    case True
    with rev issued(1) show ?thesis by (simp add: denylist_check_def RedisDenylist_def Let_def)
  next
    case False
    obtain b v1 where "dl_IsDenied (RedisDenylist cache) (cl_ID claims) ?v = (Inr b, v1)"
      by (rule redis_denylist.denied_result)
    with False rev issued(1) show ?thesis by (simp add: denylist_check_def RedisDenylist_def Let_def)
  qed
  then obtain msg v' where "denylist_check (RedisDenylist cache) claims ?v = (Some msg, v')" by blast
  from JWTAuth_refuses [OF this header valid] show ?thesis .
qed

text \<open>An access token of the first user, and a Redis server that answers.\<close>

definition demo_session :: Claims where
  "demo_session =
     \<lparr>cl_Username = ''ann'', cl_UserID = 1, cl_Role = ''user'', cl_ExpiresAt = Some (3900 * second),
      cl_IssuedAt = Some (3600 * second), cl_ID = ''j''\<rparr>"

definition demo_session_token :: string where
  "demo_session_token = demo_token SigningMethodHS256 demo_key demo_session"

lemma demo_session_parse:
  assumes "now < 3900 * second"
  shows "jwt_Parse demo_lib now demo_session_token (JWTKeyFunc demo_key) = Inr (True, demo_session)"
proof -
  have "jwt_plain demo_session" by (simp add: jwt_plain_def demo_session_def second_def)
  from demo_read_token [OF this, of SigningMethodHS256 demo_key] assms show ?thesis
    by (simp add: demo_lib_def demo_session_token_def JWTKeyFunc_def) (simp add: demo_session_def)
qed

definition demo_redis_world :: "(pg, redis_mem, unit) world" where
  "demo_redis_world = demo_world demo_pg \<lparr>rm_content = Map.empty, rm_now = 0, rm_down = False\<rparr> ()"

lemma demo_redis_start:
  "w_rt demo_redis_world = demo_rt_at 0 0" "w_jwtkey demo_redis_world = demo_key"
  "rm_now (w_redis demo_redis_world) = 0" "\<not> rm_down (w_redis demo_redis_world)"
  by (simp_all add: demo_redis_world_def demo_world_def demo_rt_at)

text \<open>After one revocation: the server still answers, and nothing but it and the clock moved.\<close>

lemma demo_revoked:
  "\<exists>w1. dl_Deny (RedisDenylist mem_redis) ''j'' (3900 * second) demo_redis_world = (Inr (), w1) \<and>
     w_rt w1 = demo_rt_at 1 0 \<and> w_jwtkey w1 = demo_key \<and> rm_now (w_redis w1) = 0 \<and> \<not> rm_down (w_redis w1)"
  "\<exists>w1. dl_DenyUserBefore (RedisDenylist mem_redis) 1 (3600 * second) demo_redis_world = (Inr (), w1) \<and>
     w_rt w1 = demo_rt_at 0 0 \<and> w_jwtkey w1 = demo_key \<and> rm_now (w_redis w1) = 0 \<and> \<not> rm_down (w_redis w1)"
  using demo_redis_start
  by (simp_all add: RedisDenylist_def rd_Deny_def rd_DenyUserBefore_def on_rt_eq on_redis_eq demo_draws demo_ttl
      time_sub_def min_int64_def max_int64_def second_def mem_redis_def rm_exec_def time_is_zero_def time_zero_def Let_def)

lemma demo_answers: "\<not> rm_down r \<Longrightarrow> answers mem_redis k r"
  by (auto simp: answers_def mem_redis_def rm_exec_def split: option.split)

theorem denied_token_refused_witness:
  "\<exists>w1 code msg v'. dl_Deny (RedisDenylist mem_redis) ''j'' (3900 * second) demo_redis_world = (Inr (), w1) \<and>
     JWTAuth demo_lib (RedisDenylist mem_redis) demo_next
       (demo_request ''GET'' '''' (demo_bearer demo_session_token)) w1 =
     (httperr_Abort code msg (demo_request ''GET'' '''' (demo_bearer demo_session_token)), v')"
proof -
  obtain w1 where w1: "dl_Deny (RedisDenylist mem_redis) ''j'' (3900 * second) demo_redis_world = (Inr (), w1)"
      "w_rt w1 = demo_rt_at 1 0" "w_jwtkey w1 = demo_key" "rm_now (w_redis w1) = 0" "\<not> rm_down (w_redis w1)"
    using demo_revoked(1) by blast
  let ?c = "demo_request ''GET'' '''' (demo_bearer demo_session_token)"
  have "\<exists>code msg v'. JWTAuth demo_lib (RedisDenylist mem_redis) demo_next ?c w1 = (httperr_Abort code msg ?c, v')"
  proof (rule denied_token_refused [OF mem_redis_laws, where now = "3600 * second" and claims = demo_session and tok = demo_session_token])
    show "dl_Deny (RedisDenylist mem_redis) (cl_ID demo_session) (3900 * second) demo_redis_world = (Inr (), w1)"
      using w1(1) by (simp add: demo_session_def)
    show "jwt_Parse demo_lib (rt_time (w_rt w1) (rt_tick (w_rt w1))) demo_session_token (JWTKeyFunc (w_jwtkey w1)) =
        Inr (True, demo_session)"
      unfolding w1(3) by (rule demo_session_parse) (simp add: w1 demo_times second_def)
  qed (simp_all add: w1 demo_redis_start demo_times demo_answers second_def millisecond_def max_int64_def
      demo_request_def demo_bearer_def)
  with w1(1) show ?thesis by blast
qed

theorem ended_sessions_refused_witness:
  "\<exists>w1 code msg v'. dl_DenyUserBefore (RedisDenylist mem_redis) 1 (3600 * second) demo_redis_world = (Inr (), w1) \<and>
     JWTAuth demo_lib (RedisDenylist mem_redis) demo_next
       (demo_request ''GET'' '''' (demo_bearer demo_session_token)) w1 =
     (httperr_Abort code msg (demo_request ''GET'' '''' (demo_bearer demo_session_token)), v')"
proof -
  obtain w1 where w1: "dl_DenyUserBefore (RedisDenylist mem_redis) 1 (3600 * second) demo_redis_world = (Inr (), w1)"
      "w_rt w1 = demo_rt_at 0 0" "w_jwtkey w1 = demo_key" "rm_now (w_redis w1) = 0" "\<not> rm_down (w_redis w1)"
    using demo_revoked(2) by blast
  let ?c = "demo_request ''GET'' '''' (demo_bearer demo_session_token)"
  have get: "snd (c_Get mem_redis k r) = r" for k r by (simp add: mem_redis_def rm_exec_def)
  have "\<exists>code msg v'. JWTAuth demo_lib (RedisDenylist mem_redis) demo_next ?c w1 = (httperr_Abort code msg ?c, v')"
  proof (rule ended_sessions_refused [OF mem_redis_laws, where claims = demo_session and tok = demo_session_token])
    show "dl_DenyUserBefore (RedisDenylist mem_redis) (cl_UserID demo_session) (3600 * second) demo_redis_world = (Inr (), w1)"
      using w1(1) by (simp add: demo_session_def)
    show "cl_IssuedAt demo_session = Some (3600 * second)" by (simp add: demo_session_def)
    show "w_redis w1 = (if cl_ID demo_session = '''' then w_redis w1
        else snd (c_Get mem_redis (denylistKeyPrefix @ cl_ID demo_session) (w_redis w1)))" by (simp add: get)
    show "jwt_Parse demo_lib (rt_time (w_rt w1) (rt_tick (w_rt w1))) demo_session_token (JWTKeyFunc (w_jwtkey w1)) =
        Inr (True, demo_session)"
      unfolding w1(3) by (rule demo_session_parse) (simp add: w1 demo_times second_def)
  qed (simp_all add: w1 demo_redis_start demo_ttl demo_answers second_def millisecond_def max_int64_def min_int64_def
      time_is_zero_def time_zero_def time_unix_def demo_request_def demo_bearer_def)
  with w1(1) show ?thesis by blast
qed

section \<open>The API key\<close>

text \<open>
  C27. The comparison in constant time decides equality with a configured key: no truncated,
  padded or extended key passes.
\<close>

theorem api_key_comparison_exact:
  assumes "length provided < 2 ^ 64" and "length secret < 2 ^ 64"
  shows "constantTimeAPIKeyEqual provided secret \<longleftrightarrow> secret \<noteq> '''' \<and> provided = secret"
  by (rule constantTimeAPIKeyEqual_iff [OF assms])

theorem api_key_comparison_exact_witness:
  "\<not> constantTimeAPIKeyEqual (''k'' @ [char_of (0 :: nat)]) ''k'' \<and> constantTimeAPIKeyEqual ''k'' ''k''"
  using api_key_comparison_exact [of "''k'' @ [char_of (0 :: nat)]" "''k''"] api_key_comparison_exact [of "''k''" "''k''"]
  by simp

end
