(* ===== verification/Refresh_Race.thy ===== *)
theory Refresh_Race
  imports Auth_Theorems
begin

text \<open>
  Concurrent refreshes: any interleaving of the operations on the table of refresh tokens, by
  any number of clients. Each operation is one statement or, for a rotation, one transaction
  whose update locks the row of the old token until it ends, so rotations of one token take
  effect one after the other. A rotation either happens entirely or not at all, and of all
  rotations of one token at most one happens.
\<close>

section \<open>Operations\<close>

datatype token_op =
    CreateTok RefreshToken
  | FindTok string
  | RotateTok uint time RefreshToken
  | FamilyTok string time
  | UserTok uint time

fun run_token_op :: "token_op \<Rightarrow> pg \<Rightarrow> pg" where
  "run_token_op (CreateTok t) s = snd (store_CreateToken t s)"
| "run_token_op (FindTok h) s = snd (store_FindByHash h s)"
| "run_token_op (RotateTok i at t) s = snd (store_RotateAtomically i at t s)"
| "run_token_op (FamilyTok f at) s = snd (store_RevokeFamily f at s)"
| "run_token_op (UserTok u at) s = snd (store_RevokeAllForUser u at s)"

text \<open>Whether an operation is a rotation of the token with key \<open>i\<close> that went through.\<close>

fun rotates :: "int \<Rightarrow> token_op \<Rightarrow> pg \<Rightarrow> bool" where
  "rotates i (RotateTok j at t) s \<longleftrightarrow> toInt64 j = i \<and> is_ok (fst (store_RotateAtomically j at t s))"
| "rotates i op s \<longleftrightarrow> False"

fun rotations :: "int \<Rightarrow> token_op list \<Rightarrow> pg \<Rightarrow> nat" where
  "rotations i [] s = 0"
| "rotations i (op # ops) s = (if rotates i op s then 1 else 0) + rotations i ops (run_token_op op s)"

section \<open>A token that is spent\<close>

definition spent :: "int \<Rightarrow> pg \<Rightarrow> bool" where
  "spent i s \<longleftrightarrow> (\<forall>r \<in> set (pg_tokens s). tr_ID r = i \<longrightarrow> \<not> token_active r) \<and> i < pg_tokens_seq s"

lemma spent_step [simp]: "spent i (s\<lparr>pg_step := k\<rparr>) = spent i s"
  by (simp add: spent_def)

lemma spent_update:
  assumes "spent i s" and "\<And>r. tr_ID (f r) = tr_ID r" and "\<And>r. token_active (f r) \<Longrightarrow> token_active r"
    and "rows = pg_tokens s"
  shows "spent i (s\<lparr>pg_tokens := sql_update p f rows\<rparr>)"
  using assms by (fastforce simp: spent_def set_sql_update)

lemma spent_statements:
  assumes "spent i s"
  shows "spent i (snd (q_CreateRefreshToken db arg s))" "spent i (snd (q_GetRefreshTokenByHash db h s))"
    "spent i (snd (q_ConsumeRefreshTokenIfActive db j at s))" "spent i (snd (q_RevokeRefreshFamily db f at s))"
    "spent i (snd (q_RevokeAllRefreshForUser db u at s))" "spent i (snd (pg_begin s))" "spent i (snd (pg_commit s))"
proof -
  show "spent i (snd (q_CreateRefreshToken db arg s))"
    unfolding q_CreateRefreshToken_def
    by (rule pg_exec_rule) (use assms in \<open>auto simp: Let_def spent_def new_token_row_def\<close>)
  show "spent i (snd (q_GetRefreshTokenByHash db h s))" "spent i (snd (pg_begin s))" "spent i (snd (pg_commit s))"
    unfolding q_GetRefreshTokenByHash_def pg_begin_def pg_commit_def
    by (rule pg_exec_rule; use assms in simp)+
  show "spent i (snd (q_ConsumeRefreshTokenIfActive db j at s))" "spent i (snd (q_RevokeRefreshFamily db f at s))"
    "spent i (snd (q_RevokeAllRefreshForUser db u at s))"
    unfolding q_ConsumeRefreshTokenIfActive_def q_RevokeRefreshFamily_def q_RevokeAllRefreshForUser_def
    by (rule pg_exec_rule; use assms in \<open>auto simp: Let_def token_active_def intro!: spent_update\<close>)+
qed

lemma spent_rollback: "spent i s0 \<Longrightarrow> pg_tokens_seq s0 \<le> pg_tokens_seq s \<Longrightarrow> spent i (pg_rollback s0 s)"
  by (simp add: spent_def pg_rollback_def)

lemma spent_rotate: "spent i s \<Longrightarrow> spent i (snd (store_RotateAtomically j at t s))"
proof (cases rule: store_rotate_cases [of j at t s])
  case (failed e s0 s1)
  assume "spent i s"
  then have "spent i s0" using spent_statements(6) failed(3) by simp
  with failed(1,2) show ?thesis by (auto simp: seq_le_def intro: spent_rollback)
next
  case (committed tx s0 s1 row s2 s3)
  assume "spent i s"
  then have "spent i s0" using spent_statements(6) committed(2) by simp
  then have "spent i s1" using spent_statements(3) committed(3) by (metis snd_conv)
  then have "spent i s2" using spent_statements(1) committed(4) by (metis snd_conv)
  then show ?thesis using spent_statements(7) committed(1,5) by simp
qed

lemma spent_run: "spent i s \<Longrightarrow> spent i (run_token_op op s)"
proof (cases op)
  case (CreateTok t)
  assume "spent i s"
  from spent_statements(1) [OF this, of Pool "tokenParams t"] show ?thesis
    by (auto simp: CreateTok store_CreateToken_def split: prod.split sum.split)
next
  case (FindTok h)
  assume "spent i s"
  from spent_statements(2) [OF this, of Pool h] show ?thesis
    by (auto simp: FindTok store_FindByHash_def split: prod.split sum.split)
qed (simp_all add: spent_rotate spent_statements store_RevokeFamily_def store_RevokeAllForUser_def)

text \<open>A rotation that goes through found the token active, and leaves it spent.\<close>

lemma rotates_spends:
  assumes ok: "pg_ok s" and win: "rotates i op s"
  shows "\<not> spent i s \<and> spent i (run_token_op op s)"
proof -
  obtain j at t where op: "op = RotateTok j at t" "toInt64 j = i" "is_ok (fst (store_RotateAtomically j at t s))"
    using win by (cases op) auto
  show ?thesis
  proof (cases rule: store_rotate_cases [of j at t s])
    case (failed e s0 s1)
    with op(3) show ?thesis by simp
  next
    case (committed tx s0 s1 row s2 s3)
    have s0: "pg_ok s0" "same_tables s s0"
      using q_selects_ok(5) [OF ok] pg_begin_same committed(2) by auto
    note done0 = q_Consume_done [OF s0(1) committed(3)]
    obtain r where r: "r \<in> set (pg_tokens s0)" "tr_ID r = i" "token_active r" using done0(4) op(2) by auto
    then have "\<not> spent i s" using s0(2) by (auto simp: spent_def same_tables_def)
    moreover have "spent i s1"
    proof -
      have "i < pg_tokens_seq s0" using s0(1) r(1,2) by (auto simp: pg_ok_def key_ok_def)
      moreover have "pg_tokens_seq s1 = pg_tokens_seq s0"
        using pg_exec_InrD [OF committed(3) [unfolded q_ConsumeRefreshTokenIfActive_def]] by (auto simp: Let_def)
      ultimately show ?thesis
        using done0(5) op(2) by (auto simp: spent_def set_sql_update token_active_def)
    qed
    then have "spent i s2" using spent_statements(1) committed(4) by (metis snd_conv)
    then have "spent i s3" using spent_statements(7) committed(5) by simp
    ultimately show ?thesis using op(1) committed(1) by simp
  qed
qed

lemma run_token_ok: "pg_ok s \<Longrightarrow> pg_ok (run_token_op op s)"
  by (cases op) (simp_all add: store_token_ok store_rotate_ok)

lemma no_rotation_of_spent: "pg_ok s \<Longrightarrow> spent i s \<Longrightarrow> rotations i ops s = 0"
proof (induction ops arbitrary: s)
  case (Cons op ops)
  with rotates_spends [of s i op] spent_run run_token_ok show ?case by auto
qed simp

lemma rotations_le_1: "pg_ok s \<Longrightarrow> rotations i ops s \<le> 1"
proof (induction ops arbitrary: s)
  case (Cons op ops)
  have ok: "pg_ok (run_token_op op s)" by (rule run_token_ok [OF Cons.prems])
  with Cons.IH [OF ok] rotates_spends [OF Cons.prems, of i op] no_rotation_of_spent [OF ok, of i ops] show ?case by auto
qed simp

text \<open>
  C29. Races: whatever operations on the refresh tokens any number of clients run, in whatever
  order they take effect, at most one rotation of a given token goes through; two concurrent
  refreshes of one token never both obtain new credentials.
\<close>

theorem refresh_race_has_one_winner:
  assumes "pg_ok s"
  shows "rotations i ops s \<le> 1"
  by (rule rotations_le_1 [OF assms])

definition demo_successor :: "nat \<Rightarrow> RefreshToken" where
  "demo_successor j = newToken 1 (hex_encode (take 32 (demo_opaque j))) ''f1'' (10 * hour)"

theorem refresh_race_has_one_winner_witness:
  "rotations 1 [RotateTok 1 5 (demo_successor 0), RotateTok 1 6 (demo_successor 1)] demo_pg = 1"
proof -
  obtain t s1 where "store_RotateAtomically 1 5 (demo_successor 0) (demo_db 0) = (Inr t, s1)"
    using demo_rotate [OF demo_lengths(1), of 5 0 "10 * hour" 0] by (auto simp: demo_successor_def)
  then have "rotates 1 (RotateTok 1 5 (demo_successor 0)) demo_pg" by (simp add: demo_db_0 demo_ids)
  then have "1 \<le> rotations 1 [RotateTok 1 5 (demo_successor 0), RotateTok 1 6 (demo_successor 1)] demo_pg"
    by simp
  with refresh_race_has_one_winner [OF demo_pg_ok, of 1 "[RotateTok 1 5 (demo_successor 0), RotateTok 1 6 (demo_successor 1)]"]
  show ?thesis by simp
qed

text \<open>
  C33. Atomicity: a rotation that returns an error leaves every token as it was, also when the
  failure comes after the old token was already consumed or at the commit; one that returns the
  new token has consumed an active old one and stored the new one, and nothing else.
\<close>

theorem rotation_all_or_nothing:
  assumes "pg_ok s"
  shows "case store_RotateAtomically i at t s of
      (Inl e, s') \<Rightarrow> same_tables s s'
    | (Inr t', s') \<Rightarrow> \<exists>h old. tokens_of s h = Some old \<and> toInt64 (tk_ID old) = toInt64 i \<and> tk_active old \<and>
        tokens_of s (tk_TokenHash t) = None \<and> tk_active t' \<and>
        cores s' = (cores s)(h \<mapsto> token_core (old\<lparr>tk_ConsumedAt := Some at\<rparr>), tk_TokenHash t \<mapsto> token_core t')"
proof (cases "store_RotateAtomically i at t s")
  case (Pair r s')
  show ?thesis
  proof (cases r)
    case (Inl e)
    with Pair store_rotate_fail show ?thesis by simp
  next
    case (Inr t')
    with Pair store_rotate_done [OF assms, of i at t t' s'] show ?thesis
      by (simp add: cores_def same_key_def)
  qed
qed

theorem rotation_all_or_nothing_witness:
  "\<exists>t s'. store_RotateAtomically 1 5 (demo_successor 0) demo_pg = (Inr t, s') \<and> tk_active t \<and>
     cores s' (tk_TokenHash (demo_successor 0)) = Some (token_core t)"
proof -
  obtain t s' where run: "store_RotateAtomically 1 5 (demo_successor 0) demo_pg = (Inr t, s')"
    using demo_rotate [OF demo_lengths(1), of 5 0 "10 * hour" 0] by (auto simp: demo_successor_def demo_db_0)
  with rotation_all_or_nothing [OF demo_pg_ok, where i = 1 and at = 5 and t = "demo_successor 0"] show ?thesis by auto
qed

end
