(* ===== verification/Rate_Theorems.thy ===== *)
theory Rate_Theorems
  imports Rate_Limit Demo Middleware_Misc
begin

text \<open>
  The properties of the rate limiter: requests of many clients, interleaved in any order, on
  either store; and the range of every setting that is read from the environment.
\<close>

section \<open>Traffic\<close>

text \<open>
  Requests in the order the store sees them: the error of the request's context if it has one,
  and the client. The trace has the state each request found, its client and whether it passed.
\<close>

fun traffic ::
  "('s, 'r, 'p) RateLimitStore \<Rightarrow> int \<Rightarrow> duration \<Rightarrow> (go_error option \<times> string) list \<Rightarrow>
     ('s, 'r, 'p) world \<Rightarrow> (('s, 'r, 'p) world \<times> string \<times> bool) list" where
  "traffic store limit window [] w = []"
| "traffic store limit window ((ce, k) # rs) w =
     (case rl_Allow store ce k limit window w of
        (Inl e, w') \<Rightarrow> (w, k, False) # traffic store limit window rs w'
      | (Inr (allowed, remaining), w') \<Rightarrow> (w, k, allowed) # traffic store limit window rs w')"

definition let_through :: "string \<Rightarrow> ('w \<times> string \<times> bool) list \<Rightarrow> nat" where
  "let_through k trace = length (filter (\<lambda>(w, j, b). j = k \<and> b) trace)"

lemma let_through_simps [simp]:
  "let_through k [] = 0"
  "let_through k ((w, j, b) # t) = (if j = k \<and> b then Suc (let_through k t) else let_through k t)"
  by (simp_all add: let_through_def)

text \<open>The clock only moves forward along a trace.\<close>

fun onward :: "('w \<Rightarrow> time) \<Rightarrow> ('w \<times> string \<times> bool) list \<Rightarrow> bool" where
  "onward clock [] \<longleftrightarrow> True"
| "onward clock ((w, x) # t) \<longleftrightarrow> (\<forall>(v, y) \<in> set t. clock w \<le> clock v) \<and> onward clock t"

context rate_limit_store begin

lemma traffic_hd: "rs \<noteq> [] \<Longrightarrow> \<exists>x t. traffic store limit window rs w = (w, x) # t"
  by (cases rs) (auto split: prod.split sum.split)

lemma traffic_bound_from:
  assumes fits: "fits window"
    and "\<And>m. n < m \<Longrightarrow> m \<le> n + int (length rs) \<Longrightarrow> exact m"
    and "inv w" and "running (clock w) (entry w k) = Some (n, r)"
    and "onward clock (traffic store limit window rs w)"
    and "\<forall>(v, x) \<in> set (traffic store limit window rs w). clock v < r"
  shows "int (let_through k (traffic store limit window rs w)) \<le> max 0 (limit - n)"
  using assms(2-)
proof (induction rs arbitrary: w n)
  case (Cons q rs)
  obtain ce j where q: "q = (ce, j)" by (cases q)
  obtain x w' where run: "rl_Allow store ce j limit window w = (x, w')" by (cases "rl_Allow store ce j limit window w")
  let ?t = "traffic store limit window rs w'"
  obtain b where trace: "traffic store limit window (q # rs) w = (w, j, b) # ?t"
      "b \<longleftrightarrow> (\<exists>rem. x = Inr (True, rem))" using run q by (cases x) auto
  have inv': "inv w'" using allow_inv [OF fits Cons.prems(2), of ce j limit] run by simp
  have rest: "onward clock ?t" "\<forall>(v, x) \<in> set ?t. clock v < r" using Cons.prems(4,5) trace(1) by auto
  have now: "clock w < r" using Cons.prems(5) trace(1) by simp
  have n: "entry w k = Some (n, r)" using Cons.prems(3) by (auto simp: running_def split: option.splits if_splits)
  have exact: "exact (n + 1)" using Cons.prems(1) [of "n + 1"] by simp
  show ?case
  proof (cases "rs = []")
    case True
    have "limit - n \<ge> 1" if k: "j = k" and b: "b"
    proof -
      obtain rem where "x = Inr (True, rem)" using b trace(2) by blast
      with allow_counts [OF fits Cons.prems(2)] run k n now exact show ?thesis by (fastforce simp: tick_def running_def)
    qed
    with True trace(1) show ?thesis by fastforce
  next
    case False
    obtain y t where hd: "?t = (w', y) # t" using traffic_hd [OF False] by blast
    have later: "clock w \<le> clock w'" "clock w' < r" using Cons.prems(4) rest(2) trace(1) hd by auto
    show ?thesis
    proof (cases "j = k \<and> is_ok x")
      case True
      then obtain a rem where x: "x = Inr (a, rem)" by (cases x) auto
      have "tick (clock w) (len window) (entry w k) = (n + 1, r)" using n now by (simp add: tick_def running_def)
      with allow_counts [OF fits Cons.prems(2), of ce k limit a rem w'] run x True exact
      have step: "entry w' k = Some (n + 1, r)" "a \<longleftrightarrow> n + 1 \<le> limit" by auto
      have on: "running (clock w') (entry w' k) = Some (n + 1, r)" using step(1) later(2) by (simp add: running_def)
      have "exact m" if "n + 1 < m" "m \<le> n + 1 + int (length rs)" for m
        using Cons.prems(1) [of m] that by simp
      from Cons.IH [OF this inv' on rest] step(2) trace x True show ?thesis by auto
    next
      case False
      have "running (clock w') (entry w' k) = running (clock w') (entry w k)"
      proof (cases "j = k")
        case True
        with False obtain e where "x = Inl e" by (cases x) auto
        with allow_error [OF fits Cons.prems(2)] run True show ?thesis by metis
      next
        case other: False
        with allow_others [OF fits Cons.prems(2), of k j "clock w'" ce limit] later(1) run show ?thesis by auto
      qed
      then have on: "running (clock w') (entry w' k) = Some (n, r)" using n later(2) by (simp add: running_def)
      have "exact m" if "n < m" "m \<le> n + int (length rs)" for m
        using Cons.prems(1) [of m] that by simp
      from Cons.IH [OF this inv' on rest] False trace show ?thesis by auto
    qed
  qed
qed simp

text \<open>A window opens with a request of the client that finds none running.\<close>

lemma traffic_bound:
  assumes fits: "fits window" and exact: "\<And>m. 1 \<le> m \<Longrightarrow> m \<le> 1 + int (length rs) \<Longrightarrow> exact m"
    and "inv w" and "1 \<le> limit" and "running (clock w) (entry w k) = None"
    and "is_ok (fst (rl_Allow store ce k limit window w))"
    and "onward clock (traffic store limit window ((ce, k) # rs) w)"
    and "\<forall>(v, x) \<in> set (traffic store limit window ((ce, k) # rs) w). clock v < clock w + len window"
  shows "int (let_through k (traffic store limit window ((ce, k) # rs) w)) \<le> limit"
proof -
  obtain a rem w' where run: "rl_Allow store ce k limit window w = (Inr (a, rem), w')"
    using assms(6) by (cases "rl_Allow store ce k limit window w") (auto simp: is_ok_def split: sum.splits)
  let ?t = "traffic store limit window rs w'"
  have inv': "inv w'" using allow_inv [OF fits assms(3), of ce k limit] run by simp
  have "tick (clock w) (len window) (entry w k) = (1, clock w + len window)" using assms(5) by (simp add: tick_def)
  with allow_counts [OF fits assms(3) run] have step: "entry w' k = Some (1, clock w + len window)" "a" using assms(4) exact [of 1] by auto
  show ?thesis
  proof (cases "rs = []")
    case True
    with run assms(4) show ?thesis by simp
  next
    case False
    obtain y t where hd: "?t = (w', y) # t" using traffic_hd [OF False] by blast
    have "clock w' < clock w + len window" using assms(8) run hd by auto
    then have "running (clock w') (entry w' k) = Some (1, clock w + len window)" using step(1) by (simp add: running_def)
    from traffic_bound_from [OF fits _ inv' this, of rs limit] exact assms(4,7,8) run step(2) show ?thesis by auto
  qed
qed

end

context redis_server begin

lemmas redis_traffic_bound = redis_limiter.traffic_bound

end

section \<open>At most the limit in a window\<close>

text \<open>
  C31. The limit holds in the process: of the requests of all clients, interleaved in any order,
  that arrive in the window which a client's request opens, at most \<open>limit\<close> of that client's
  requests pass; a request that the store cannot count does not pass.
\<close>

theorem memory_rate_limit:
  assumes "mem_inv w" and "1 \<le> limit" and "running (mem_clock w) (w_windows w k) = None"
    and "is_ok (fst (memory_Allow ce k limit window w))"
    and "onward mem_clock (traffic NewMemoryRateLimitStore limit window ((ce, k) # rs) w)"
    and "\<forall>(v, x) \<in> set (traffic NewMemoryRateLimitStore limit window ((ce, k) # rs) w). mem_clock v < mem_clock w + window"
  shows "int (let_through k (traffic NewMemoryRateLimitStore limit window ((ce, k) # rs) w)) \<le> limit"
  by (rule memory_limiter.traffic_bound [OF TrueI TrueI assms(1-3) _ assms(5,6)])
    (use assms(4) in \<open>simp add: NewMemoryRateLimitStore_def\<close>)

definition demo_limited :: "(pg, redis_mem, unit) world" where
  "demo_limited = demo_world demo_pg \<lparr>rm_content = Map.empty, rm_now = 0, rm_down = False\<rparr> ()"

lemma demo_limited_start:
  "rt_time (w_rt demo_limited) i = 3600000000000 + 1000000000 * int i" "rt_tick (w_rt demo_limited) = 0"
  "w_windows demo_limited = (\<lambda>k. None)"
  by (simp_all add: demo_limited_def demo_world_def demo_rt_def)

theorem memory_rate_limit_witness:
  "let_through ''a'' (traffic NewMemoryRateLimitStore 1 minute [(None, ''a''), (None, ''b''), (None, ''a'')] demo_limited) = 1"
proof -
  let ?t = "traffic NewMemoryRateLimitStore 1 minute [(None, ''a''), (None, ''b''), (None, ''a'')] demo_limited"
  have "\<exists>u v. ?t = [(demo_limited, ''a'', True), (u, ''b'', True), (v, ''a'', False)] \<and>
      mem_clock u = 3601000000000 \<and> mem_clock v = 3602000000000"
    by (simp add: NewMemoryRateLimitStore_def memory_Allow_eq mem_clock_def on_rt_eq time_now_def tick_def running_def
        pruneExpiredLocked_def time_before_def demo_limited_start minute_def Let_def)
  then obtain u v where run: "?t = [(demo_limited, ''a'', True), (u, ''b'', True), (v, ''a'', False)]"
      and times: "mem_clock u = 3601000000000" "mem_clock v = 3602000000000" by blast
  have start: "mem_clock demo_limited = 3600000000000" by (simp add: mem_clock_def demo_limited_start)
  have "is_ok (fst (memory_Allow None ''a'' 1 minute demo_limited))"
    by (simp add: memory_Allow_eq tick_def running_def demo_limited_start Let_def)
  moreover have "mem_inv demo_limited" "running (mem_clock demo_limited) (w_windows demo_limited ''a'') = None"
    by (simp_all add: mem_inv_def running_def demo_limited_start)
  moreover have "onward mem_clock ?t" unfolding run by (simp add: times start)
  moreover have "\<forall>(v, x) \<in> set ?t. mem_clock v < mem_clock demo_limited + minute"
    unfolding run by (simp add: times start minute_def)
  ultimately have "int (let_through ''a'' ?t) \<le> 1" by (intro memory_rate_limit) simp_all
  with run show ?thesis by (simp del: traffic.simps)
qed

text \<open>
  C32. The limit holds across processes: the same for the counters in Redis, whose windows last whole
  milliseconds on the server's clock. What Redis counts is what \<open>run_script\<close> makes of the text of the limiter's
  script: the request that opens a window passes and leaves a counter that Redis drops at the end of the window,
  so that no window outlasts its length. Windows are \<open>int64\<close>, and the requests fewer than \<open>2^53\<close>, up to where the numbers
  of a script are exact.
\<close>

theorem redis_rate_limit:
  assumes "redis_laws cache content clock" and "window \<le> max_int64" and "int (length rs) < 2 ^ 53"
    and "redis_inv content w" and "1 \<le> limit"
    and "running (clock (w_redis w)) (redis_entry content w k) = None"
    and "is_ok (fst (redis_Allow (Some cache) ce k limit window w))"
    and "onward (\<lambda>v. clock (w_redis v)) (traffic (NewRedisRateLimitStore (Some cache)) limit window ((ce, k) # rs) w)"
    and "\<forall>(v, x) \<in> set (traffic (NewRedisRateLimitStore (Some cache)) limit window ((ce, k) # rs) w).
      clock (w_redis v) < clock (w_redis w) + window_ms window * millisecond"
  shows "int (let_through k (traffic (NewRedisRateLimitStore (Some cache)) limit window ((ce, k) # rs) w)) \<le> limit \<and>
    fst (redis_Allow (Some cache) ce k limit window w) = Inr (True, limit - 1) \<and>
    redis_entry content (snd (redis_Allow (Some cache) ce k limit window w)) k =
      Some (1, clock (w_redis w) + window_ms window * millisecond)"
proof -
  have server: "redis_server cache content clock" by unfold_locales (rule assms(1))
  have fits: "window_fits window" using assms(2) by (simp add: window_fits_def)
  have "int (let_through k (traffic (NewRedisRateLimitStore (Some cache)) limit window ((ce, k) # rs) w)) \<le> limit"
    using redis_server.redis_traffic_bound [OF server _ _ assms(4-6) _ assms(8,9)] assms(2,3,7)
    by (simp add: NewRedisRateLimitStore_def window_fits_def)
  moreover obtain a n w' where run: "redis_Allow (Some cache) ce k limit window w = (Inr (a, n), w')"
    using assms(7) by (cases "redis_Allow (Some cache) ce k limit window w") (auto simp: is_ok_def split: sum.splits)
  have "tick (clock (w_redis w)) (window_ms window * millisecond) (redis_entry content w k) =
      (1, clock (w_redis w) + window_ms window * millisecond)" using assms(6) by (simp add: tick_def)
  with redis_server.redis_step(2) [OF server assms(4) fits run] assms(5)
  have "redis_entry content w' k = Some (1, clock (w_redis w) + window_ms window * millisecond)" "a" "n = limit - 1"
    by auto
  ultimately show ?thesis using run by simp
qed

theorem redis_rate_limit_witness:
  "let_through ''a'' (traffic (NewRedisRateLimitStore (Some mem_redis)) 1 minute [(None, ''a''), (None, ''a'')] demo_limited) = 1"
proof -
  have words: "show_int 1 = ''1''" "show_int 2 = ''2''" "ParseInt ''1'' = Some 1" by code_simp+
  have script: "rm_script rateLimitIncrExpireScript [k] [60000] r =
      (case incr_entry (rm_now r) (Some (60000 * millisecond)) (rm_content r k) of
         None \<Rightarrow> (Inl (ErrText ''ERR Error running script''), r)
       | Some (e, n) \<Rightarrow> (Inr (if \<bar>n\<bar> \<le> 2 ^ 53 then n else 2 ^ 53), r\<lparr>rm_content := (rm_content r)(k \<mapsto> e)\<rparr>))" for k r
    by (simp add: rm_script_def rate_script_parsed rate_script_run max_int64_def lua_integer_def split: option.split)
  let ?t = "traffic (NewRedisRateLimitStore (Some mem_redis)) 1 minute [(None, ''a''), (None, ''a'')] demo_limited"
  have "\<exists>v. ?t = [(demo_limited, ''a'', True), (v, ''a'', False)] \<and> rm_now (w_redis v) = 0"
    by (simp add: NewRedisRateLimitStore_def redis_Allow_def on_redis_eq mem_redis_def rm_exec_def script incr_entry_def
        live_def demo_limited_def demo_world_def minute_def millisecond_def max_int64_def words Let_def)
  then obtain v where run: "?t = [(demo_limited, ''a'', True), (v, ''a'', False)]" and time: "rm_now (w_redis v) = 0" by blast
  have ok: "is_ok (fst (redis_Allow (Some mem_redis) None ''a'' 1 minute demo_limited))"
    by (simp add: redis_Allow_def on_redis_eq mem_redis_def rm_exec_def script incr_entry_def live_def demo_limited_def
        demo_world_def minute_def millisecond_def Let_def)
  have start: "redis_inv rm_content demo_limited" "redis_entry rm_content demo_limited ''a'' = None"
      "rm_now (w_redis demo_limited) = 0"
    by (simp_all add: redis_inv_def redis_entry_def demo_limited_def demo_world_def)
  have none: "running (rm_now (w_redis demo_limited)) (redis_entry rm_content demo_limited ''a'') = None"
    by (simp add: start running_def)
  have on: "onward (\<lambda>v. rm_now (w_redis v)) ?t" unfolding run by (simp add: time start)
  have window: "\<forall>(v, x) \<in> set ?t. rm_now (w_redis v) < rm_now (w_redis demo_limited) + window_ms minute * millisecond"
    unfolding run by (simp add: time start window_ms_def minute_def millisecond_def)
  have "int (let_through ''a'' ?t) \<le> 1"
    by (rule conjunct1 [OF redis_rate_limit [OF mem_redis_laws _ _ start(1) _ none ok on window]]) (simp_all add: minute_def max_int64_def)
  with run show ?thesis by (simp del: traffic.simps)
qed

section \<open>Settings\<close>

text \<open>
  The password cost, the lifetimes of tokens, the settings of the rate limiter and the request
  deadline are in range whatever the environment holds.
\<close>

lemma settings_in_range:
  "10 \<le> bcryptCostForPasswordHashing rt \<and> bcryptCostForPasswordHashing rt \<le> 31 \<and>
    0 < AccessTokenTTL rt \<and> 0 < RefreshTokenTTL rt \<and>
    0 < rc_Requests (RateLimitConfigFromEnv rt) \<and> 0 < rc_Window (RateLimitConfigFromEnv rt) \<and>
    rc_Backend (RateLimitConfigFromEnv rt) \<in> {rateLimitBackendRedis, rateLimitBackendMemory} \<and>
    0 \<le> requestContextTimeoutDurationFromEnv rt"
proof (intro conjI)
  show "10 \<le> bcryptCostForPasswordHashing rt" "bcryptCostForPasswordHashing rt \<le> 31"
    using bcryptCost_range [of rt] by simp_all
  show "0 < AccessTokenTTL rt" "0 < RefreshTokenTTL rt" by (rule AccessTokenTTL_pos, rule RefreshTokenTTL_pos)
  show "0 \<le> requestContextTimeoutDurationFromEnv rt" by (rule requestContextTimeout_nonneg)
  show "0 < rc_Requests (RateLimitConfigFromEnv rt)" "0 < rc_Window (RateLimitConfigFromEnv rt)"
    "rc_Backend (RateLimitConfigFromEnv rt) \<in> {rateLimitBackendRedis, rateLimitBackendMemory}"
    by (auto simp: RateLimitConfigFromEnv_def DefaultRateLimitRequests_def DefaultRateLimitWindow_def minute_def Let_def
        simp del: ToLower.simps split: option.splits)
qed

end
