(* ===== verification/Cache_Client.thy ===== *)
theory Cache_Client
  imports Go_Errors Go_Strconv
begin

text \<open>
  The options of the Redis client (\<open>pkg/cache/cache.go\<close>): \<open>redisOptionsFromEnv\<close> reads them
  from the environment or answers with the error of the first setting that is wrong, in the
  order of the code. \<open>redis.NewClient\<close> is the library's and does not fail, so \<open>NewRedisClient\<close>
  is the options it is built from. The operations of the client are the record \<open>Cache\<close> of
  theory World.
\<close>

section \<open>What is shared by the readers of the environment\<close>

text \<open>\<open>os.Getenv\<close> with the white space trimmed.\<close>

definition trimmed_env :: "go_rt \<Rightarrow> string \<Rightarrow> string" where
  "trimmed_env rt key = TrimSpace (rt_env rt key)"

text \<open>
  The errors of \<open>strconv.Atoi\<close> and \<open>time.ParseDuration\<close>. The library distinguishes a few
  reasons in the text; the code only passes it on.
\<close>

definition atoi_error :: "string \<Rightarrow> go_error" where
  "atoi_error s = ErrText (''strconv.Atoi: parsing '' @ quoted s @ '': invalid syntax'')"

definition duration_error :: "string \<Rightarrow> go_error" where
  "duration_error s = ErrText (''time: invalid duration '' @ quoted s)"

text \<open>The words that switch something on.\<close>

definition truthy :: "string \<Rightarrow> bool" where
  "truthy v \<longleftrightarrow> ToLower (TrimSpace v) \<in> {''1'', ''true'', ''yes'', ''on''}"

section \<open>Options\<close>

definition VersionTLS12 :: int where "VersionTLS12 = 771"

record tls_Config =
  tls_MinVersion :: int
  tls_InsecureSkipVerify :: bool

record redis_Options =
  ro_Username :: string
  ro_Password :: string
  ro_Addr :: string
  ro_DB :: int
  ro_DialTimeout :: duration
  ro_ReadTimeout :: duration
  ro_WriteTimeout :: duration
  ro_TLSConfig :: "tls_Config option"

definition cache_envTruthy :: "go_rt \<Rightarrow> string \<Rightarrow> bool" where
  "cache_envTruthy rt key = truthy (rt_env rt key)"

definition cache_durationFromEnv :: "go_rt \<Rightarrow> string \<Rightarrow> duration \<Rightarrow> go_error + duration" where
  "cache_durationFromEnv rt key defaultVal =
     (let v = trimmed_env rt key
      in if v = '''' then Inr defaultVal
         else
           (case ParseDuration v of
              None \<Rightarrow> Inl (Prefixed (key @ '' must be a Go duration (e.g. 5s)'') (duration_error v))
            | Some d \<Rightarrow>
                if d \<le> 0 then Inl (ErrText (key @ '' must be positive, got '' @ v)) else Inr d))"

definition redis_addr :: "go_rt \<Rightarrow> string" where
  "redis_addr rt =
     (let addr = trimmed_env rt ''REDIS_ADDR''
      in if addr \<noteq> '''' then addr
         else
           let host = trimmed_env rt ''REDIS_HOST'';
               host = (if host = '''' then ''127.0.0.1'' else host);
               port = trimmed_env rt ''REDIS_PORT'';
               port = (if port = '''' then ''6379'' else port)
           in host @ '':'' @ port)"

definition redis_db :: "go_rt \<Rightarrow> go_error + int" where
  "redis_db rt =
     (let s = trimmed_env rt ''REDIS_DB''
      in if s \<noteq> '''' then
           (case ParseInt s of
              None \<Rightarrow> Inl (Prefixed ''REDIS_DB'' (atoi_error s))
            | Some db \<Rightarrow>
                if db < 0 then Inl (ErrText (''REDIS_DB must be >= 0, got '' @ show_int db)) else Inr db)
         else Inr 0)"

definition redis_tls :: "go_rt \<Rightarrow> tls_Config option" where
  "redis_tls rt =
     (if cache_envTruthy rt ''REDIS_TLS'' then
        let cfg = \<lparr>tls_MinVersion = VersionTLS12, tls_InsecureSkipVerify = False\<rparr>
        in Some (if cache_envTruthy rt ''REDIS_TLS_INSECURE'' then cfg\<lparr>tls_InsecureSkipVerify := True\<rparr> else cfg)
      else None)"

definition redisOptionsFromEnv :: "go_rt \<Rightarrow> go_error + redis_Options" where
  "redisOptionsFromEnv rt =
     (case redis_db rt of
        Inl err \<Rightarrow> Inl err
      | Inr db \<Rightarrow>
          (case cache_durationFromEnv rt ''REDIS_DIAL_TIMEOUT'' (5 * second) of
             Inl err \<Rightarrow> Inl err
           | Inr dial \<Rightarrow>
               (case cache_durationFromEnv rt ''REDIS_READ_TIMEOUT'' (3 * second) of
                  Inl err \<Rightarrow> Inl err
                | Inr read \<Rightarrow>
                    (case cache_durationFromEnv rt ''REDIS_WRITE_TIMEOUT'' (3 * second) of
                       Inl err \<Rightarrow> Inl err
                     | Inr write \<Rightarrow>
                         Inr \<lparr>ro_Username = trimmed_env rt ''REDIS_USERNAME'',
                              ro_Password = trimmed_env rt ''REDIS_PASSWORD'',
                              ro_Addr = redis_addr rt, ro_DB = db, ro_DialTimeout = dial,
                              ro_ReadTimeout = read, ro_WriteTimeout = write,
                              ro_TLSConfig = redis_tls rt\<rparr>))))"

definition NewRedisClient :: "go_rt \<Rightarrow> go_error + redis_Options" where
  "NewRedisClient rt =
     (case redisOptionsFromEnv rt of Inl err \<Rightarrow> Inl err | Inr opts \<Rightarrow> Inr opts)"

section \<open>Laws\<close>

lemma cache_durationFromEnv_pos:
  "cache_durationFromEnv rt key d = Inr x \<Longrightarrow> 0 < d \<Longrightarrow> 0 < x"
  by (auto simp: cache_durationFromEnv_def Let_def split: if_splits option.splits)

lemma redis_db_range: "redis_db rt = Inr db \<Longrightarrow> 0 \<le> db \<and> db \<le> max_int64"
  using ParseInt_bounds by (fastforce simp: redis_db_def Let_def max_int64_def split: if_splits option.splits)

lemma redis_addr_nonempty: "redis_addr rt \<noteq> ''''"
  by (auto simp: redis_addr_def Let_def)

lemma redis_tls_version: "redis_tls rt = Some cfg \<Longrightarrow> tls_MinVersion cfg = VersionTLS12"
  by (auto simp: redis_tls_def Let_def split: if_splits)

lemma redis_options_range:
  assumes "redisOptionsFromEnv rt = Inr opts"
  shows "ro_Addr opts \<noteq> ''''" "0 \<le> ro_DB opts" "0 < ro_DialTimeout opts" "0 < ro_ReadTimeout opts"
    "0 < ro_WriteTimeout opts" "ro_TLSConfig opts = redis_tls rt"
proof -
  obtain db dial rd wr where parts: "redis_db rt = Inr db"
      "cache_durationFromEnv rt ''REDIS_DIAL_TIMEOUT'' (5 * second) = Inr dial"
      "cache_durationFromEnv rt ''REDIS_READ_TIMEOUT'' (3 * second) = Inr rd"
      "cache_durationFromEnv rt ''REDIS_WRITE_TIMEOUT'' (3 * second) = Inr wr"
    using assms by (auto simp: redisOptionsFromEnv_def split: sum.splits)
  with assms have "ro_Addr opts = redis_addr rt \<and> ro_DB opts = db \<and> ro_DialTimeout opts = dial \<and>
      ro_ReadTimeout opts = rd \<and> ro_WriteTimeout opts = wr \<and> ro_TLSConfig opts = redis_tls rt"
    by (auto simp: redisOptionsFromEnv_def)
  with cache_durationFromEnv_pos [OF parts(2)] cache_durationFromEnv_pos [OF parts(3)] cache_durationFromEnv_pos [OF parts(4)]
    redis_db_range [OF parts(1)] redis_addr_nonempty [of rt]
  show "ro_Addr opts \<noteq> ''''" "0 \<le> ro_DB opts" "0 < ro_DialTimeout opts" "0 < ro_ReadTimeout opts"
    "0 < ro_WriteTimeout opts" "ro_TLSConfig opts = redis_tls rt"
    by (simp_all add: second_def)
qed

end
