(* ===== verification/Kafka.thy ===== *)
theory Kafka
  imports Cache_Client World
begin

text \<open>
  Publishing domain events (\<open>pkg/events\<close>): the settings and the producer of
  \<open>pkg/events/kafka\<close>, the publisher that discards (\<open>noop.go\<close>), and the choice between them
  (\<open>pkg/events/driver\<close>). The Kafka client, \<open>encoding/json\<close> on envelopes and \<open>google/uuid\<close> are
  libraries: the writer is a record of operations on the state \<open>'k\<close> of the brokers, the others
  the fields of \<open>event_lib\<close>. What they promise is \<open>broker_law\<close> and \<open>event_lib_law\<close>.
\<close>

section \<open>Settings (kafka/config.go)\<close>

definition defaultTopicPrefix :: string where "defaultTopicPrefix = ''app''"
definition defaultPublishTimeout :: duration where "defaultPublishTimeout = 2 * second"

record kafka_Config =
  kc_Brokers :: "string list"
  kc_TopicPrefix :: string
  kc_PublishTimeout :: duration

text \<open>The parts of a comma-separated list that are not blank.\<close>

definition split_trimmed :: "string \<Rightarrow> string list" where
  "split_trimmed raw = filter (\<lambda>b. b \<noteq> '''') (map TrimSpace (split_on (CHR '','') raw))"

definition kafka_ConfigFromEnv :: "go_rt \<Rightarrow> go_error + kafka_Config" where
  "kafka_ConfigFromEnv rt =
     (let raw = trimmed_env rt ''KAFKA_BROKERS''
      in if raw = '''' then Inl (ErrText ''kafka: KAFKA_BROKERS is required when EVENTS_DRIVER=kafka'')
         else
           let brokers = split_trimmed raw
           in if brokers = [] then Inl (ErrText ''kafka: KAFKA_BROKERS contained no valid broker addresses'')
              else
                let prefix = trimmed_env rt ''KAFKA_TOPIC_PREFIX'';
                    prefix = (if prefix = '''' then defaultTopicPrefix else prefix);
                    cfg = \<lparr>kc_Brokers = brokers, kc_TopicPrefix = prefix,
                           kc_PublishTimeout = defaultPublishTimeout\<rparr>;
                    s = trimmed_env rt ''KAFKA_PUBLISH_TIMEOUT''
                in if s \<noteq> '''' then
                     (case ParseDuration s of
                        None \<Rightarrow>
                          Inl (Prefixed (''kafka: invalid KAFKA_PUBLISH_TIMEOUT '' @ quoted s) (duration_error s))
                      | Some d \<Rightarrow>
                          if d \<le> 0
                          then Inl (ErrText (''kafka: KAFKA_PUBLISH_TIMEOUT must be > 0, got '' @ quoted s))
                          else Inr (cfg\<lparr>kc_PublishTimeout := d\<rparr>))
                   else Inr cfg)"

lemma split_trimmed_nonempty: "b \<in> set (split_trimmed raw) \<Longrightarrow> b \<noteq> ''''"
  by (simp add: split_trimmed_def)

lemma kafka_config_range:
  assumes "kafka_ConfigFromEnv rt = Inr cfg"
  shows "kc_Brokers cfg = split_trimmed (trimmed_env rt ''KAFKA_BROKERS'')" "kc_Brokers cfg \<noteq> []"
    "kc_TopicPrefix cfg =
       (if trimmed_env rt ''KAFKA_TOPIC_PREFIX'' = '''' then ''app'' else trimmed_env rt ''KAFKA_TOPIC_PREFIX'')"
    "0 < kc_PublishTimeout cfg"
  using assms
  by (auto simp: kafka_ConfigFromEnv_def Let_def defaultPublishTimeout_def defaultTopicPrefix_def second_def
      split: if_splits option.splits)

section \<open>The producer (kafka/producer.go)\<close>

record kafka_Message =
  km_Topic :: string
  km_Key :: string
  km_Value :: string

record event_lib =
  el_uuid :: "nat \<Rightarrow> string"
  el_Marshal :: "Envelope \<Rightarrow> go_error + string"
  el_Unmarshal :: "string \<Rightarrow> go_error + Envelope"

text \<open>The deadline the context gets, if any, is the first argument of a write.\<close>

record 'k messageWriter =
  mw_WriteMessages :: "duration option \<Rightarrow> kafka_Message \<Rightarrow> 'k \<Rightarrow> (go_error + unit) \<times> 'k"
  mw_Close :: "'k \<Rightarrow> (go_error + unit) \<times> 'k"

datatype balancer = Hash
datatype required_acks = RequireAll

record writer_Config =
  wc_Addr :: "string list"
  wc_Balancer :: balancer
  wc_RequiredAcks :: required_acks
  wc_Async :: bool
  wc_AllowAutoTopicCreation :: bool

record 'k Producer =
  pr_writer :: "'k messageWriter"
  pr_prefix :: string
  pr_source :: string
  pr_cfg :: kafka_Config

text \<open>What publishing acts on: the draws from the source of identifiers, and the brokers.\<close>

record 'k transport =
  kt_draws :: nat
  kt_broker :: 'k

definition kafka_New ::
  "(writer_Config \<Rightarrow> 'k messageWriter) \<Rightarrow> kafka_Config \<Rightarrow> string \<Rightarrow> 'k Producer" where
  "kafka_New Writer cfg source =
     (let w = Writer \<lparr>wc_Addr = kc_Brokers cfg, wc_Balancer = Hash, wc_RequiredAcks = RequireAll,
                wc_Async = False, wc_AllowAutoTopicCreation = True\<rparr>
      in \<lparr>pr_writer = w, pr_prefix = kc_TopicPrefix cfg, pr_source = source, pr_cfg = cfg\<rparr>)"

definition pr_topic :: "'k Producer \<Rightarrow> string \<Rightarrow> string" where
  "pr_topic p aggregate = pr_prefix p @ ''.'' @ aggregate"

definition event_envelope :: "'k Producer \<Rightarrow> string \<Rightarrow> Event \<Rightarrow> Envelope" where
  "event_envelope p uid e =
     \<lparr>en_ID = uid, en_Type = ev_Type e, en_Source = pr_source p, en_OccurredAt = ev_OccurredAt e,
      en_Data = ev_Payload e\<rparr>"

definition buildMessage ::
  "event_lib \<Rightarrow> 'k Producer \<Rightarrow> Event \<Rightarrow> 'k transport \<Rightarrow> (go_error + kafka_Message) \<times> 'k transport" where
  "buildMessage el p e kt =
     (let env = event_envelope p (el_uuid el (kt_draws kt)) e;
          kt = kt\<lparr>kt_draws := Suc (kt_draws kt)\<rparr>
      in case el_Marshal el env of
           Inl err \<Rightarrow> (Inl (Prefixed (''kafka: marshal event '' @ ev_Type e) err), kt)
         | Inr value \<Rightarrow>
             (Inr \<lparr>km_Topic = pr_topic p (ev_Aggregate e), km_Key = ev_Key e, km_Value = value\<rparr>, kt))"

definition on_broker :: "('k \<Rightarrow> 'x \<times> 'k) \<Rightarrow> 'k transport \<Rightarrow> 'x \<times> 'k transport" where
  "on_broker f kt = (let (x, k) = f (kt_broker kt) in (x, kt\<lparr>kt_broker := k\<rparr>))"

definition Producer_Publish ::
  "event_lib \<Rightarrow> 'k Producer \<Rightarrow> Event \<Rightarrow> 'k transport \<Rightarrow> (go_error + unit) \<times> 'k transport" where
  "Producer_Publish el p e kt =
     (case buildMessage el p e kt of
        (Inl err, kt) \<Rightarrow> (Inl err, kt)
      | (Inr msg, kt) \<Rightarrow>
          let deadline =
            (if kc_PublishTimeout (pr_cfg p) > 0 then Some (kc_PublishTimeout (pr_cfg p)) else None)
          in on_broker (mw_WriteMessages (pr_writer p) deadline msg) kt)"

definition Producer_Close :: "'k Producer \<Rightarrow> 'k transport \<Rightarrow> (go_error + unit) \<times> 'k transport" where
  "Producer_Close p = on_broker (mw_Close (pr_writer p))"

section \<open>The publishers (noop.go, driver.go)\<close>

definition NopPublisher :: "'p Publisher" where
  "NopPublisher = \<lparr>pb_Publish = \<lambda>e p. (Inr (), p), pb_Close = \<lambda>p. (Inr (), p)\<rparr>"

definition kafka_Publisher :: "event_lib \<Rightarrow> 'k Producer \<Rightarrow> 'k transport Publisher" where
  "kafka_Publisher el p = \<lparr>pb_Publish = Producer_Publish el p, pb_Close = Producer_Close p\<rparr>"

definition NewFromEnv ::
  "event_lib \<Rightarrow> (writer_Config \<Rightarrow> 'k messageWriter) \<Rightarrow> go_rt \<Rightarrow> go_error + 'k transport Publisher" where
  "NewFromEnv el Writer rt =
     (let driver = ToLower (trimmed_env rt ''EVENTS_DRIVER'')
      in if driver = '''' \<or> driver = ''none'' then Inr NopPublisher
         else if driver = ''kafka'' then
           (case kafka_ConfigFromEnv rt of
              Inl err \<Rightarrow> Inl err
            | Inr cfg \<Rightarrow>
                let source = trimmed_env rt ''SERVICE_NAME'';
                    source = (if source = '''' then ''golang-rest-api-template'' else source)
                in Inr (kafka_Publisher el (kafka_New Writer cfg source)))
         else
           Inl (ErrText (''unsupported EVENTS_DRIVER '' @ quoted (rt_env rt ''EVENTS_DRIVER'') @
             '' (want '' @ quoted ''none'' @ '' or '' @ quoted ''kafka'' @ '')'')))"

section \<open>What the libraries promise\<close>

text \<open>
  The log of the brokers. A write that is acknowledged appended its message at least once; one
  that is not may have appended it any number of times, since the client retries. Nothing else
  is appended. A Close appends nothing.
\<close>

definition broker_law :: "'k messageWriter \<Rightarrow> ('k \<Rightarrow> kafka_Message list) \<Rightarrow> bool" where
  "broker_law mw klog \<longleftrightarrow>
     (\<forall>t m k. \<exists>n. klog (snd (mw_WriteMessages mw t m k)) = klog k @ replicate n m \<and>
        (is_ok (fst (mw_WriteMessages mw t m k)) \<longrightarrow> 1 \<le> n)) \<and>
     (\<forall>k. klog (snd (mw_Close mw k)) = klog k)"

lemma broker_write:
  assumes "broker_law mw klog" and "mw_WriteMessages mw t m k = (r, k')"
  shows "\<exists>n. klog k' = klog k @ replicate n m \<and> (is_ok r \<longrightarrow> 1 \<le> n)"
  using assms unfolding broker_law_def by (metis fst_conv snd_conv)

text \<open>
  An envelope that was marshalled comes back with its data decoded into an \<open>any\<close>: a map of the payload's
  fields, where the identifiers are \<open>float64\<close>, and with repaired strings.
\<close>

definition payload_json :: "BookPayloadV1 \<Rightarrow> json_value" where
  "payload_json p =
     JObject [(''author'', JString (json_text (bp_Author p))), (''id'', JNumber (float64_of (unat (bp_ID p)))),
       (''owner_id'', JNumber (float64_of (unat (bp_OwnerID p)))), (''title'', JString (json_text (bp_Title p)))]"

definition received :: "Envelope \<Rightarrow> Envelope" where
  "received env =
     env\<lparr>en_ID := json_text (en_ID env), en_Type := json_text (en_Type env), en_Source := json_text (en_Source env),
         en_Data := (case en_Data env of BookPayload p \<Rightarrow> Decoded (payload_json p) | Decoded v \<Rightarrow> Decoded v)\<rparr>"

text \<open>Identifiers are ASCII and do not repeat; a marshalled payload is read back in that form.\<close>

definition event_lib_law :: "event_lib \<Rightarrow> bool" where
  "event_lib_law el \<longleftrightarrow> inj (el_uuid el) \<and> (\<forall>n. ascii (el_uuid el n)) \<and>
     (\<forall>env p v. en_Data env = BookPayload p \<longrightarrow> el_Marshal el env = Inr v \<longrightarrow> el_Unmarshal el v = Inr (received env))"

lemma event_read_back:
  "event_lib_law el \<Longrightarrow> en_Data env = BookPayload p \<Longrightarrow> el_Marshal el env = Inr v \<Longrightarrow> el_Unmarshal el v = Inr (received env)"
  by (simp add: event_lib_law_def)

lemma received_id:
  assumes "event_lib_law el" and "en_ID env = el_uuid el n"
  shows "en_ID (received env) = en_ID env"
  using assms json_text_ascii [of "el_uuid el n"] by (simp add: event_lib_law_def received_def)

section \<open>Publishing many events\<close>

text \<open>The calls of \<open>Publish\<close> one after the other, with their results.\<close>

fun publish_all ::
  "event_lib \<Rightarrow> 'k Producer \<Rightarrow> Event list \<Rightarrow> 'k transport \<Rightarrow> (go_error + unit) list \<times> 'k transport" where
  "publish_all el p [] kt = ([], kt)"
| "publish_all el p (e # es) kt =
     (let (r, kt) = Producer_Publish el p e kt; (rs, kt) = publish_all el p es kt in (r # rs, kt))"

text \<open>
  The message of an event that drew the given identifier, as the topic's readers get it.
\<close>

definition carries :: "event_lib \<Rightarrow> 'k Producer \<Rightarrow> string \<Rightarrow> Event \<Rightarrow> kafka_Message \<Rightarrow> bool" where
  "carries el p uid e m \<longleftrightarrow>
     km_Topic m = pr_topic p (ev_Aggregate e) \<and> km_Key m = ev_Key e \<and>
     el_Marshal el (event_envelope p uid e) = Inr (km_Value m)"

lemma Producer_Publish_step:
  assumes "broker_law (pr_writer p) klog" and "Producer_Publish el p e kt = (r, kt')"
  shows "kt_draws kt' = Suc (kt_draws kt)"
    and "\<exists>ms. klog (kt_broker kt') = klog (kt_broker kt) @ ms \<and>
           (\<forall>m \<in> set ms. carries el p (el_uuid el (kt_draws kt)) e m) \<and> (is_ok r \<longrightarrow> ms \<noteq> [])"
proof -
  let ?env = "event_envelope p (el_uuid el (kt_draws kt)) e"
  have "kt_draws kt' = Suc (kt_draws kt) \<and>
      (\<exists>ms. klog (kt_broker kt') = klog (kt_broker kt) @ ms \<and>
         (\<forall>m \<in> set ms. carries el p (el_uuid el (kt_draws kt)) e m) \<and> (is_ok r \<longrightarrow> ms \<noteq> []))"
  proof (cases "el_Marshal el ?env")
    case (Inl err)
    with assms(2) show ?thesis by (auto simp: Producer_Publish_def buildMessage_def Let_def)
  next
    case (Inr v)
    define m where "m = \<lparr>km_Topic = pr_topic p (ev_Aggregate e), km_Key = ev_Key e, km_Value = v\<rparr>"
    obtain t k' where sent: "mw_WriteMessages (pr_writer p) t m (kt_broker kt) = (r, k')"
        and kt': "kt' = kt\<lparr>kt_draws := Suc (kt_draws kt), kt_broker := k'\<rparr>"
      using assms(2) Inr by (auto simp: Producer_Publish_def buildMessage_def on_broker_def m_def Let_def split: prod.splits)
    from broker_write [OF assms(1) sent] obtain n where
      n: "klog k' = klog (kt_broker kt) @ replicate n m" "is_ok r \<longrightarrow> 1 \<le> n" by blast
    have "carries el p (el_uuid el (kt_draws kt)) e m" using Inr by (simp add: carries_def m_def)
    with n kt' show ?thesis by (intro conjI exI [of _ "replicate n m"]) auto
  qed
  then show "kt_draws kt' = Suc (kt_draws kt)"
    "\<exists>ms. klog (kt_broker kt') = klog (kt_broker kt) @ ms \<and>
       (\<forall>m \<in> set ms. carries el p (el_uuid el (kt_draws kt)) e m) \<and> (is_ok r \<longrightarrow> ms \<noteq> [])" by blast+
qed

text \<open>
  Along a run, the \<open>i\<close>-th event draws the \<open>i\<close>-th identifier, every message that was appended carries
  one of the events, and every acknowledged event is carried by one that was appended.
\<close>

lemma publish_all_log:
  assumes "broker_law (pr_writer p) klog" and "publish_all el p es kt = (rs, kt')"
  shows "length rs = length es \<and> kt_draws kt' = kt_draws kt + length es \<and>
    (\<exists>ms. klog (kt_broker kt') = klog (kt_broker kt) @ ms \<and>
       (\<forall>m \<in> set ms. \<exists>i < length es. carries el p (el_uuid el (kt_draws kt + i)) (es ! i) m) \<and>
       (\<forall>i < length es. is_ok (rs ! i) \<longrightarrow> (\<exists>m \<in> set ms. carries el p (el_uuid el (kt_draws kt + i)) (es ! i) m)))"
  using assms(2)
proof (induction es arbitrary: kt rs)
  case (Cons e es)
  obtain r kt1 where pub: "Producer_Publish el p e kt = (r, kt1)" by (cases "Producer_Publish el p e kt")
  obtain rs' where rest: "publish_all el p es kt1 = (rs', kt')" "rs = r # rs'"
    using Cons.prems pub by (auto split: prod.splits)
  note step = Producer_Publish_step [OF assms(1) pub]
  obtain ms1 where ms1: "klog (kt_broker kt1) = klog (kt_broker kt) @ ms1"
      "\<forall>m \<in> set ms1. carries el p (el_uuid el (kt_draws kt)) e m" "is_ok r \<longrightarrow> ms1 \<noteq> []"
    using step(2) by blast
  from Cons.IH [OF rest(1)] step(1) obtain ms2 where
    ms2: "klog (kt_broker kt') = klog (kt_broker kt1) @ ms2"
      "\<forall>m \<in> set ms2. \<exists>i < length es. carries el p (el_uuid el (kt_draws kt + Suc i)) (es ! i) m"
      "\<forall>i < length es. is_ok (rs' ! i) \<longrightarrow> (\<exists>m \<in> set ms2. carries el p (el_uuid el (kt_draws kt + Suc i)) (es ! i) m)"
    and len: "length rs' = length es" "kt_draws kt' = Suc (kt_draws kt) + length es" by auto
  have log: "klog (kt_broker kt') = klog (kt_broker kt) @ (ms1 @ ms2)" using ms1(1) ms2(1) by simp
  have origin: "\<exists>i < length (e # es). carries el p (el_uuid el (kt_draws kt + i)) ((e # es) ! i) m"
    if m: "m \<in> set (ms1 @ ms2)" for m
  proof (cases "m \<in> set ms1")
    case True
    with ms1(2) have "carries el p (el_uuid el (kt_draws kt)) e m" by blast
    then show ?thesis by (intro exI [of _ 0]) simp
  next
    case False
    with m ms2(2) obtain i where "i < length es" "carries el p (el_uuid el (kt_draws kt + Suc i)) (es ! i) m" by auto
    then show ?thesis by (intro exI [of _ "Suc i"]) simp
  qed
  have reached: "\<exists>m \<in> set (ms1 @ ms2). carries el p (el_uuid el (kt_draws kt + i)) ((e # es) ! i) m"
    if i: "i < length (e # es)" and ok: "is_ok (rs ! i)" for i
  proof (cases i)
    case 0
    with ok rest(2) ms1(3) have "ms1 \<noteq> []" by simp
    then obtain m where "m \<in> set ms1" by (cases ms1) auto
    with ms1(2) 0 show ?thesis by auto
  next
    case (Suc j)
    with i ok rest(2) ms2(3) show ?thesis by auto
  qed
  show ?case
    using log len rest(2) origin reached by (intro conjI exI [of _ "ms1 @ ms2"]) auto
qed simp

end
