(* ===== verification/Consumer.thy ===== *)
theory Consumer
  imports Kafka "HOL-Library.While_Combinator"
begin

text \<open>
  The example consumer (\<open>examples/kafka-consumer/main.go\<close>): its settings, the handler with its
  set of identifiers already seen, and the loop that fetches, handles and commits. The loop has
  no bound, so it is a \<open>while_option\<close>: \<open>None\<close> is a loop that never returns. The reader is Kafka's:
  a record of operations on its own state \<open>'k\<close>.
\<close>

section \<open>Settings\<close>

definition envOr :: "go_rt \<Rightarrow> string \<Rightarrow> string \<Rightarrow> string" where
  "envOr rt key def = (let v = trimmed_env rt key in if v \<noteq> '''' then v else def)"

definition splitAndTrim :: "string \<Rightarrow> string list" where
  "splitAndTrim csv = split_trimmed csv"

record ReaderConfig =
  rc_Brokers :: "string list"
  rc_GroupID :: string
  rc_Topic :: string

text \<open>\<open>None\<close> is \<open>log.Fatal\<close>: no broker is configured.\<close>

definition consumer_config :: "go_rt \<Rightarrow> ReaderConfig option" where
  "consumer_config rt =
     (let brokers = splitAndTrim (rt_env rt ''KAFKA_BROKERS'')
      in if length brokers = 0 then None
         else
           let prefix = envOr rt ''KAFKA_TOPIC_PREFIX'' ''app'';
               group = envOr rt ''KAFKA_CONSUMER_GROUP'' ''example-consumer'';
               topic = prefix @ ''.'' @ AggregateBooks
           in Some \<lparr>rc_Brokers = brokers, rc_GroupID = group, rc_Topic = topic\<rparr>)"

section \<open>The handler\<close>

text \<open>
  The handler's state: the identifiers seen, and the envelopes the work was done for, in order
  (the work of the example is a log line). The mutex is held around each access, and one loop
  calls the handler.
\<close>

record idempotentHandler =
  ih_seen :: "string set"
  ih_worked :: "Envelope list"

definition handle_message ::
  "event_lib \<Rightarrow> string \<Rightarrow> idempotentHandler \<Rightarrow> (go_error + unit) \<times> idempotentHandler" where
  "handle_message el val h =
     (case el_Unmarshal el val of
        Inl err \<Rightarrow> (Inr (), h)
      | Inr env \<Rightarrow>
          let dup = en_ID env \<in> ih_seen h
          in if dup then (Inr (), h)
             else
               let h = h\<lparr>ih_worked := ih_worked h @ [env]\<rparr>;
                   h = h\<lparr>ih_seen := insert (en_ID env) (ih_seen h)\<rparr>
               in (Inr (), h))"

section \<open>The loop\<close>

text \<open>\<open>rd_Done\<close> is \<open>ctx.Err() != nil\<close>, which a signal makes true.\<close>

record 'k Reader =
  rd_FetchMessage :: "'k \<Rightarrow> (go_error + kafka_Message) \<times> 'k"
  rd_CommitMessages :: "kafka_Message \<Rightarrow> 'k \<Rightarrow> (go_error + unit) \<times> 'k"
  rd_Done :: "'k \<Rightarrow> bool"

record 'k consumer =
  cn_reader :: 'k
  cn_handler :: idempotentHandler
  cn_running :: bool

text \<open>One round: a failed fetch ends the loop or goes on; a handled message is committed.\<close>

definition consumer_round :: "event_lib \<Rightarrow> 'k Reader \<Rightarrow> 'k consumer \<Rightarrow> 'k consumer" where
  "consumer_round el rd s =
     (case rd_FetchMessage rd (cn_reader s) of
        (Inl err, k) \<Rightarrow> s\<lparr>cn_reader := k, cn_running := \<not> rd_Done rd k\<rparr>
      | (Inr msg, k) \<Rightarrow>
          (case handle_message el (km_Value msg) (cn_handler s) of
             (Inl err, h) \<Rightarrow> s\<lparr>cn_reader := k, cn_handler := h\<rparr>
           | (Inr _, h) \<Rightarrow> s\<lparr>cn_reader := snd (rd_CommitMessages rd msg k), cn_handler := h\<rparr>))"

definition new_handler :: idempotentHandler where
  "new_handler = \<lparr>ih_seen = {}, ih_worked = []\<rparr>"

definition consumer_main :: "event_lib \<Rightarrow> 'k Reader \<Rightarrow> 'k \<Rightarrow> 'k consumer option" where
  "consumer_main el rd k =
     while_option cn_running (consumer_round el rd) \<lparr>cn_reader = k, cn_handler = new_handler, cn_running = True\<rparr>"

text \<open>
  The program: without a broker it ends at once; otherwise, when the loop returns, the deferred calls
  run in the reverse of their order.
\<close>

datatype consumer_call = StopNotify | CloseReader

datatype 'k consumer_exit = NoBrokers | ShutDown "'k consumer" "consumer_call list"

definition kafka_consumer ::
  "event_lib \<Rightarrow> 'k Reader \<Rightarrow> (ReaderConfig \<Rightarrow> 'k) \<Rightarrow> go_rt \<Rightarrow> 'k consumer_exit option" where
  "kafka_consumer el rd NewReader rt =
     (case consumer_config rt of
        None \<Rightarrow> Some NoBrokers
      | Some cfg \<Rightarrow>
          map_option (\<lambda>s. ShutDown s [StopNotify, CloseReader]) (consumer_main el rd (NewReader cfg)))"

section \<open>The handler is idempotent\<close>

text \<open>
  The state after a list of messages was delivered: an envelope was worked once for each
  identifier, every worked envelope came from a message, and every message that could be read
  has its identifier among the worked ones.
\<close>

definition handled :: "event_lib \<Rightarrow> kafka_Message list \<Rightarrow> idempotentHandler \<Rightarrow> bool" where
  "handled el ms h \<longleftrightarrow>
     ih_seen h = en_ID ` set (ih_worked h) \<and> distinct (map en_ID (ih_worked h)) \<and>
     (\<forall>env \<in> set (ih_worked h). \<exists>m \<in> set ms. el_Unmarshal el (km_Value m) = Inr env) \<and>
     (\<forall>m \<in> set ms. \<forall>env. el_Unmarshal el (km_Value m) = Inr env \<longrightarrow> en_ID env \<in> ih_seen h)"

lemma handled_start: "handled el [] new_handler"
  by (simp add: handled_def new_handler_def)

lemma handle_message_ok: "is_ok (fst (handle_message el v h))"
  by (simp add: handle_message_def Let_def split: sum.split)

lemma handle_message_handled:
  assumes "handled el ms h" and "handle_message el (km_Value m) h = (r, h')"
  shows "handled el (ms @ [m]) h'"
proof (cases "el_Unmarshal el (km_Value m)")
  case (Inl err)
  with assms show ?thesis by (auto simp: handle_message_def handled_def)
next
  case (Inr env)
  show ?thesis
  proof (cases "en_ID env \<in> ih_seen h")
    case True
    with Inr assms show ?thesis by (auto simp: handle_message_def handled_def)
  next
    case False
    with Inr assms(2) have h': "h' = h\<lparr>ih_worked := ih_worked h @ [env], ih_seen := insert (en_ID env) (ih_seen h)\<rparr>"
      by (auto simp: handle_message_def Let_def)
    from assms(1) False Inr show ?thesis unfolding h' by (auto simp: handled_def)
  qed
qed

section \<open>The loop keeps it\<close>

text \<open>
  The reader's own record of the messages it has delivered: a successful fetch adds its message,
  a failed one and a commit add nothing.
\<close>

definition reader_law :: "'k Reader \<Rightarrow> ('k \<Rightarrow> kafka_Message list) \<Rightarrow> bool" where
  "reader_law rd fetched \<longleftrightarrow>
     (\<forall>k. case rd_FetchMessage rd k of
            (Inl err, k') \<Rightarrow> fetched k' = fetched k
          | (Inr m, k') \<Rightarrow> fetched k' = fetched k @ [m]) \<and>
     (\<forall>m k. fetched (snd (rd_CommitMessages rd m k)) = fetched k)"

lemma consumer_round_handled:
  assumes "reader_law rd fetched" and "handled el (fetched (cn_reader s)) (cn_handler s)"
  shows "handled el (fetched (cn_reader (consumer_round el rd s))) (cn_handler (consumer_round el rd s))"
proof -
  obtain r k where fetch: "rd_FetchMessage rd (cn_reader s) = (r, k)" by (cases "rd_FetchMessage rd (cn_reader s)")
  show ?thesis
  proof (cases r)
    case (Inl err)
    with fetch assms(1) have "fetched k = fetched (cn_reader s)" unfolding reader_law_def by (metis (mono_tags) old.prod.case old.sum.simps(5))
    with fetch Inl assms(2) show ?thesis by (simp add: consumer_round_def)
  next
    case (Inr m)
    with fetch assms(1) have k: "fetched k = fetched (cn_reader s) @ [m]" unfolding reader_law_def by (metis (mono_tags) old.prod.case old.sum.simps(6))
    obtain u h where handle: "handle_message el (km_Value m) (cn_handler s) = (u, h)" by (cases "handle_message el (km_Value m) (cn_handler s)")
    with handle_message_ok [of el "km_Value m" "cn_handler s"] have "u = Inr ()" by (cases u) auto
    with fetch Inr handle have "consumer_round el rd s =
        s\<lparr>cn_reader := snd (rd_CommitMessages rd m k), cn_handler := h\<rparr>" by (simp add: consumer_round_def)
    moreover have "fetched (snd (rd_CommitMessages rd m k)) = fetched k" using assms(1) by (simp add: reader_law_def)
    ultimately show ?thesis using handle_message_handled [OF assms(2) handle] k by simp
  qed
qed

lemma consumer_main_handled:
  assumes "reader_law rd fetched" and "fetched k = []" and "consumer_main el rd k = Some s"
  shows "handled el (fetched (cn_reader s)) (cn_handler s)"
  using assms(3) unfolding consumer_main_def
  by (rule while_option_rule [rotated]) (simp_all add: assms(2) handled_start consumer_round_handled [OF assms(1)])

text \<open>The loop returns exactly when some round meets a failed fetch with the context done.\<close>

lemma consumer_main_returns:
  "(\<exists>s. consumer_main el rd k = Some s) \<longleftrightarrow>
     (\<exists>n. \<not> cn_running ((consumer_round el rd ^^ n) \<lparr>cn_reader = k, cn_handler = new_handler, cn_running = True\<rparr>))"
  unfolding consumer_main_def while_option_def by (auto simp: Let_def)

lemma consumer_main_stop:
  "consumer_main el rd k = Some s \<Longrightarrow> \<not> cn_running s"
  unfolding consumer_main_def by (rule while_option_stop)

end
