(* ===== verification/Delivery.thy ===== *)
theory Delivery
  imports Consumer "HOL-Library.Multiset"
begin

text \<open>
  The producer and the consumer together, over a broker that may duplicate what is published and
  deliver messages again: delivery at least once, effect exactly once. And the consumer's loop on
  its own: when it returns.
\<close>

section \<open>When the loop returns\<close>

text \<open>
  The reader seen without the handler: a round fetches and commits what it got; the loop stops at
  a fetch that fails with the context done.
\<close>

definition reader_round :: "'k Reader \<Rightarrow> 'k \<Rightarrow> 'k" where
  "reader_round rd k =
     (case rd_FetchMessage rd k of
        (Inl err, k) \<Rightarrow> k
      | (Inr m, k) \<Rightarrow> snd (rd_CommitMessages rd m k))"

definition stops_at :: "'k Reader \<Rightarrow> 'k \<Rightarrow> bool" where
  "stops_at rd k =
     (case rd_FetchMessage rd k of
        (Inl err, k) \<Rightarrow> rd_Done rd k
      | (Inr m, k) \<Rightarrow> False)"

lemma consumer_round_reader:
  "cn_reader (consumer_round el rd s) = reader_round rd (cn_reader s)"
  "cn_running s \<Longrightarrow> cn_running (consumer_round el rd s) \<longleftrightarrow> \<not> stops_at rd (cn_reader s)"
proof -
  have ok: "\<exists>h. handle_message el v (cn_handler s) = (Inr (), h)" for v
    by (simp add: handle_message_def Let_def split: sum.split)
  show "cn_reader (consumer_round el rd s) = reader_round rd (cn_reader s)"
  proof (cases "rd_FetchMessage rd (cn_reader s)")
    case (Pair r k)
    show ?thesis
    proof (cases r)
      case (Inl err)
      with Pair show ?thesis by (simp add: consumer_round_def reader_round_def)
    next
      case (Inr m)
      obtain h where "handle_message el (km_Value m) (cn_handler s) = (Inr (), h)" using ok by blast
      with Pair Inr show ?thesis by (simp add: consumer_round_def reader_round_def)
    qed
  qed
  show "cn_running (consumer_round el rd s) \<longleftrightarrow> \<not> stops_at rd (cn_reader s)" if "cn_running s"
  proof (cases "rd_FetchMessage rd (cn_reader s)")
    case (Pair r k)
    show ?thesis
    proof (cases r)
      case (Inl err)
      with Pair show ?thesis by (simp add: consumer_round_def stops_at_def)
    next
      case (Inr m)
      obtain h where "handle_message el (km_Value m) (cn_handler s) = (Inr (), h)" using ok by blast
      with Pair Inr that show ?thesis by (simp add: consumer_round_def stops_at_def)
    qed
  qed
qed

lemma consumer_rounds:
  assumes "cn_running s"
  shows "cn_reader ((consumer_round el rd ^^ n) s) = (reader_round rd ^^ n) (cn_reader s)"
    and "(\<forall>m < n. \<not> stops_at rd ((reader_round rd ^^ m) (cn_reader s))) \<Longrightarrow> cn_running ((consumer_round el rd ^^ n) s)"
proof -
  show reader: "cn_reader ((consumer_round el rd ^^ n) s) = (reader_round rd ^^ n) (cn_reader s)" for n
    by (induction n) (simp_all add: consumer_round_reader(1))
  show "cn_running ((consumer_round el rd ^^ n) s)"
    if "\<forall>m < n. \<not> stops_at rd ((reader_round rd ^^ m) (cn_reader s))"
    using that
  proof (induction n)
    case 0
    with assms show ?case by simp
  next
    case (Suc n)
    then have "cn_running ((consumer_round el rd ^^ n) s)" "\<not> stops_at rd ((reader_round rd ^^ n) (cn_reader s))" by simp_all
    then show ?case by (simp add: consumer_round_reader(2) reader)
  qed
qed

lemma consumer_loop_returns:
  "(\<exists>s. consumer_main el rd k = Some s) \<longleftrightarrow> (\<exists>n. stops_at rd ((reader_round rd ^^ n) k))"
proof -
  let ?s = "\<lparr>cn_reader = k, cn_handler = new_handler, cn_running = True\<rparr>"
  have run: "cn_running ?s" "cn_reader ?s = k" by simp_all
  have "(\<exists>n. \<not> cn_running ((consumer_round el rd ^^ n) ?s)) \<longleftrightarrow> (\<exists>n. stops_at rd ((reader_round rd ^^ n) k))"
  proof
    assume "\<exists>n. \<not> cn_running ((consumer_round el rd ^^ n) ?s)"
    with consumer_rounds(2) [OF run(1)] run(2) show "\<exists>n. stops_at rd ((reader_round rd ^^ n) k)" by metis
  next
    assume "\<exists>n. stops_at rd ((reader_round rd ^^ n) k)"
    then obtain n where stop: "stops_at rd ((reader_round rd ^^ n) k)" by blast
    show "\<exists>n. \<not> cn_running ((consumer_round el rd ^^ n) ?s)"
    proof (cases "cn_running ((consumer_round el rd ^^ n) ?s)")
      case True
      with stop consumer_rounds(1) [OF run(1), where n = n] run(2)
      have "\<not> cn_running (consumer_round el rd ((consumer_round el rd ^^ n) ?s))"
        by (simp add: consumer_round_reader(2))
      then have "\<not> cn_running ((consumer_round el rd ^^ Suc n) ?s)" by simp
      then show ?thesis by blast
    qed blast
  qed
  then show ?thesis by (simp only: consumer_main_returns)
qed

text \<open>
  C36. With a broker configured, the consumer ends exactly when some fetch fails with the context
  done, that is after the signal, and then it closes its reader; no message, malformed or not, and no
  other failure of a fetch or a commit ends it. Without a broker it ends before it reads.
\<close>

theorem consumer_returns_iff_cancelled:
  "(kafka_consumer el rd NewReader rt = Some NoBrokers \<longleftrightarrow> consumer_config rt = None) \<and>
   ((\<exists>s. kafka_consumer el rd NewReader rt = Some (ShutDown s [StopNotify, CloseReader])) \<longleftrightarrow>
     (\<exists>cfg n. consumer_config rt = Some cfg \<and> stops_at rd ((reader_round rd ^^ n) (NewReader cfg)))) \<and>
   (kafka_consumer el rd NewReader rt = None \<longleftrightarrow>
     (\<exists>cfg. consumer_config rt = Some cfg \<and> (\<nexists>n. stops_at rd ((reader_round rd ^^ n) (NewReader cfg)))))"
proof (cases "consumer_config rt")
  case (Some cfg)
  with consumer_loop_returns [of el rd "NewReader cfg"] show ?thesis
    by (cases "consumer_main el rd (NewReader cfg)") (simp_all add: kafka_consumer_def)
qed (simp add: kafka_consumer_def)

section \<open>Exactly one effect for each event\<close>

text \<open>
  The events one process publishes, and the consumer of their topic. Suppose the topic was
  empty before, the broker keeps what it acknowledged and may repeat what it got, and the consumer,
  reading the topic its configuration names, returned after every message of the topic was
  delivered to it at least once, in any order and any number of times. Then the work was done exactly
  once for each of some events, in the form in which \<open>encoding/json\<close> reads them back, among them all whose
  publication was acknowledged, and for nothing else.
\<close>

lemma published_events_worked_once:
  assumes laws: "broker_law (pr_writer p) klog" "event_lib_law el" "reader_law rd fetched"
    and config: "kafka_ConfigFromEnv rt = Inr cfg" "p = kafka_New Writer cfg src" "consumer_config rt' = Some rc"
      "rt_env rt' ''KAFKA_TOPIC_PREFIX'' = rt_env rt ''KAFKA_TOPIC_PREFIX''"
    and publish: "publish_all el p es kt = (rs, kt')" "klog (kt_broker kt) = []"
      "\<forall>e \<in> set es. ev_Aggregate e = AggregateBooks \<and> (\<exists>b. ev_Payload e = BookPayload b)"
    and consume: "fetched k = []" "consumer_main el rd k = Some s"
      "set (fetched (cn_reader s)) = {m \<in> set (klog (kt_broker kt')). km_Topic m = rc_Topic rc}"
  shows "\<exists>kept \<subseteq> {..<length es}. {i \<in> {..<length es}. is_ok (rs ! i)} \<subseteq> kept \<and>
    mset (ih_worked (cn_handler s)) =
      image_mset (\<lambda>i. received (event_envelope p (el_uuid el (kt_draws kt + i)) (es ! i))) (mset_set kept)"
proof -
  let ?env = "\<lambda>i. received (event_envelope p (el_uuid el (kt_draws kt + i)) (es ! i))"
  let ?W = "ih_worked (cn_handler s)"
  have topic: "rc_Topic rc = pr_topic p AggregateBooks"
    using config kafka_config_range(3) [OF config(1)]
    by (auto simp: consumer_config_def envOr_def trimmed_env_def kafka_New_def pr_topic_def Let_def split: if_splits)
  have ids: "en_ID (?env i) = en_ID (?env j) \<longleftrightarrow> i = j" for i j
    using laws(2) received_id [OF laws(2), of "event_envelope p (el_uuid el (kt_draws kt + i)) (es ! i)" "kt_draws kt + i"]
      received_id [OF laws(2), of "event_envelope p (el_uuid el (kt_draws kt + j)) (es ! j)" "kt_draws kt + j"]
    by (simp add: event_envelope_def event_lib_law_def inj_eq)
  have reads: "el_Unmarshal el (km_Value m) = Inr (?env i)"
    if "i < length es" "carries el p (el_uuid el (kt_draws kt + i)) (es ! i) m" for i m
  proof -
    obtain b where "ev_Payload (es ! i) = BookPayload b" using publish(3) \<open>i < length es\<close> nth_mem by blast
    with that(2) show ?thesis using event_read_back [OF laws(2)] by (simp add: carries_def event_envelope_def)
  qed
  from publish_all_log [OF laws(1) publish(1)] publish(2) have
    origin: "m \<in> set (klog (kt_broker kt')) \<Longrightarrow> \<exists>i < length es. carries el p (el_uuid el (kt_draws kt + i)) (es ! i) m"
    and reached: "i < length es \<Longrightarrow> is_ok (rs ! i) \<Longrightarrow>
      \<exists>m \<in> set (klog (kt_broker kt')). carries el p (el_uuid el (kt_draws kt + i)) (es ! i) m" for m i by auto
  have state: "ih_seen (cn_handler s) = en_ID ` set ?W" "distinct (map en_ID ?W)"
    "\<And>env. env \<in> set ?W \<Longrightarrow> \<exists>m \<in> set (fetched (cn_reader s)). el_Unmarshal el (km_Value m) = Inr env"
    "\<And>m env. m \<in> set (fetched (cn_reader s)) \<Longrightarrow> el_Unmarshal el (km_Value m) = Inr env \<Longrightarrow> en_ID env \<in> ih_seen (cn_handler s)"
    using consumer_main_handled [OF laws(3) consume(1,2)] by (auto simp: handled_def)
  define kept where "kept = {i. i < length es \<and> ?env i \<in> set ?W}"
  have from_event: "\<exists>i < length es. env = ?env i" if env: "env \<in> set ?W" for env
  proof -
    obtain m where m: "m \<in> set (fetched (cn_reader s))" "el_Unmarshal el (km_Value m) = Inr env" using state(3) [OF env] by blast
    with consume(3) origin obtain i where "i < length es" "carries el p (el_uuid el (kt_draws kt + i)) (es ! i) m" by blast
    with reads m(2) show ?thesis by auto
  qed
  have ok: "i \<in> kept" if i: "i < length es" "is_ok (rs ! i)" for i
  proof -
    obtain m where m: "m \<in> set (klog (kt_broker kt'))" "carries el p (el_uuid el (kt_draws kt + i)) (es ! i) m"
      using reached [OF i] by blast
    moreover have "km_Topic m = rc_Topic rc" using m(2) publish(3) i(1) by (simp add: carries_def topic)
    ultimately have "m \<in> set (fetched (cn_reader s))" using consume(3) by simp
    from state(4) [OF this reads [OF i(1) m(2)]] state(1) obtain env where env: "env \<in> set ?W" "en_ID env = en_ID (?env i)" by auto
    then obtain j where "env = ?env j" using from_event by blast
    moreover from this env(2) have "j = i" by (simp only: ids)
    ultimately have "?env i \<in> set ?W" using env(1) by simp
    with i(1) show ?thesis by (simp add: kept_def)
  qed
  have inj: "inj_on ?env kept"
  proof (rule inj_onI)
    fix i j assume "?env i = ?env j"
    then have "en_ID (?env i) = en_ID (?env j)" by (rule arg_cong)
    then show "i = j" by (simp only: ids)
  qed
  have "set ?W = ?env ` kept" using from_event by (auto simp: kept_def)
  moreover have "distinct ?W" using state(2) distinct_map by blast
  ultimately have "mset ?W = mset_set (?env ` kept)" by (metis mset_set_set)
  then have "mset ?W = image_mset ?env (mset_set kept)" using image_mset_mset_set [OF inj] by simp
  moreover have "kept \<subseteq> {..<length es}" "{i \<in> {..<length es}. is_ok (rs ! i)} \<subseteq> kept" using ok by (auto simp: kept_def)
  ultimately show ?thesis by blast
qed

end
