(* ===== verification/Event_Flow.thy ===== *)
theory Event_Flow
  imports Delivery Books_Theorems
begin

text \<open>
  From a mutation of the book service to its effect at the consumer: the calls of the service with
  the Kafka publisher are the publications of the events of the mutations that were committed, and
  the counter \<open>events.PublishTotal\<close> records which of them were acknowledged.
\<close>

section \<open>The events of a sequence of calls\<close>

text \<open>The event of a call: of a mutation that succeeded, about the book as the code reports it.\<close>

definition op_event :: "('s, 'r, 'p) BookService \<Rightarrow> book_op \<Rightarrow> ('s, 'r, 'p) world \<Rightarrow> Event option" where
  "op_event s op w =
     (let now = rt_time (w_rt w) (rt_tick (w_rt w));
          about = (\<lambda>ty r. case r of Inl _ \<Rightarrow> None | Inr b \<Rightarrow> Some (bookEvent ty b now))
      in case op of
           CreateOp a t au \<Rightarrow> about TypeBookCreated (fst (svc_CreateBook s a t au w))
         | ReplaceOp a i t au \<Rightarrow> about TypeBookUpdated (fst (svc_ReplaceBook s a i t au w))
         | PatchOp a i t au \<Rightarrow> about TypeBookUpdated (fst (svc_PatchBook s a i t au w))
         | DeleteOp a i \<Rightarrow>
             (case fst (svc_DeleteBook s a i w) of
                Inl _ \<Rightarrow> None
              | Inr _ \<Rightarrow> about TypeBookDeleted (fst (GetBook s i w)))
         | ListOp q \<Rightarrow> None
         | GetOp i \<Rightarrow> None)"

fun op_events ::
  "json_lib \<Rightarrow> ('s, 'r, 'p) BookService \<Rightarrow> book_op list \<Rightarrow> ('s, 'r, 'p) world \<Rightarrow> Event list" where
  "op_events json s [] w = []"
| "op_events json s (op # ops) w =
     (case op_event s op w of None \<Rightarrow> [] | Some e \<Rightarrow> [e]) @ op_events json s ops (run_op json s op w)"

text \<open>What publishing one event does to the transport and to the counter.\<close>

definition published_as :: "'p Publisher \<Rightarrow> Event \<Rightarrow> ('s, 'r, 'p) world \<Rightarrow> ('s, 'r, 'p) world \<Rightarrow> bool" where
  "published_as pub e w w' \<longleftrightarrow>
     w_pub w' = snd (pb_Publish pub e (w_pub w)) \<and>
     w_published w' =
       (ev_Type e, if is_ok (fst (pb_Publish pub e (w_pub w))) then ''success'' else ''error'') # w_published w"

lemma after_commit_published:
  assumes "sv_publisher s = Some pub" and "w_pub v = w_pub w" "w_published v = w_published w" "w_rt v = w_rt w"
  shows "published_as pub (bookEvent et b (rt_time (w_rt w) (rt_tick (w_rt w)))) w (after_commit s et b v)"
  using assms
  by (simp add: published_as_def after_commit_def publishBookEvent_def on_world Let_def time_now_def bookEvent_def)

lemma listing_frame:
  "w_pub (snd (ListBooks json s q w)) = w_pub w" "w_published (snd (ListBooks json s q w)) = w_published w"
proof (atomize (full), cases "sv_redis s")
  case (Some redis)
  obtain gen w1 where g: "cacheGeneration s w = (gen, w1)" by (cases "cacheGeneration s w")
  then have "w_pub w1 = w_pub w \<and> w_published w1 = w_published w"
    by (auto simp: cacheGeneration_def on_redis_eq split: option.splits sum.splits if_splits)
  with Some g show "w_pub (snd (ListBooks json s q w)) = w_pub w \<and> w_published (snd (ListBooks json s q w)) = w_published w"
    by (auto simp: ListBooks_def Let_def on_redis_eq on_store_eq split: sum.splits option.splits)
qed (simp add: ListBooks_def on_store_eq)

lemma owned_published:
  assumes "sv_publisher s = Some pub"
  shows "case owned s a i stmt et f w of
    (Inl e, w') \<Rightarrow> w_pub w' = w_pub w \<and> w_published w' = w_published w
  | (Inr x, w') \<Rightarrow> \<exists>b. fst (bk_FirstByID (sv_store s) i (w_store w)) = Inr b \<and>
      published_as pub (bookEvent et (f b x) (rt_time (w_rt w) (rt_tick (w_rt w)))) w w'"
  using after_commit_published [OF assms]
  by (auto simp: owned_def split: prod.split sum.split)

lemma run_op_published:
  assumes "sv_publisher s = Some pub"
  shows "case op_event s op w of
    None \<Rightarrow> w_pub (run_op json s op w) = w_pub w \<and> w_published (run_op json s op w) = w_published w
  | Some e \<Rightarrow> published_as pub e w (run_op json s op w)"
proof (cases op)
  case (CreateOp a t au)
  then show ?thesis using after_commit_published [OF assms]
    by (auto simp: op_event_def create_eq Let_def split: prod.split sum.split)
next
  case (ReplaceOp a i t au)
  with owned_published [OF assms, where a = a and i = i and stmt = "bk_UpdateFields (sv_store s) i t au" and et = TypeBookUpdated and f = "\<lambda>b x. x" and w = w] show ?thesis
    by (auto simp: op_event_def owned_eqs Let_def split: prod.splits sum.split)
next
  case (PatchOp a i t au)
  with owned_published [OF assms, where a = a and i = i and stmt = "bk_PatchFields (sv_store s) i t au" and et = TypeBookUpdated and f = "\<lambda>b x. x" and w = w] show ?thesis
    by (auto simp: op_event_def owned_eqs Let_def split: prod.splits sum.split)
next
  case (DeleteOp a i)
  with owned_published [OF assms, where a = a and i = i and stmt = "bk_DeleteByID (sv_store s) i" and et = TypeBookDeleted and f = "\<lambda>b x. b" and w = w] show ?thesis
    by (auto simp: op_event_def owned_eqs GetBook_def on_store_eq Let_def split: prod.splits sum.splits)
qed (simp_all add: op_event_def listing_frame GetBook_def on_store_eq)

section \<open>The calls publish their events\<close>

definition outcome :: "Event \<times> (go_error + unit) \<Rightarrow> string \<times> string" where
  "outcome = (\<lambda>(e, r). (ev_Type e, if is_ok r then ''success'' else ''error''))"

lemma run_ops_published:
  assumes "sv_publisher s = Some (kafka_Publisher el p)"
    and "publish_all el p (op_events json s ops w) (w_pub w) = (rs, kt')"
  shows "w_pub (fold (run_op json s) ops w) = kt' \<and>
    w_published (fold (run_op json s) ops w) = rev (map outcome (zip (op_events json s ops w) rs)) @ w_published w"
  using assms(2)
proof (induction ops arbitrary: w rs)
  case (Cons op ops)
  let ?w = "run_op json s op w"
  note step = run_op_published [OF assms(1), where op = op and w = w and json = json]
  show ?case
  proof (cases "op_event s op w")
    case None
    with step have "w_pub ?w = w_pub w" "w_published ?w = w_published w" by simp_all
    with Cons.IH [of ?w rs] Cons.prems None show ?thesis by simp
  next
    case (Some e)
    obtain r kt1 where pub: "Producer_Publish el p e (w_pub w) = (r, kt1)" by (cases "Producer_Publish el p e (w_pub w)")
    with step Some have w: "w_pub ?w = kt1" "w_published ?w = outcome (e, r) # w_published w"
      by (simp_all add: published_as_def kafka_Publisher_def outcome_def)
    obtain rs' where rs: "publish_all el p (op_events json s ops ?w) kt1 = (rs', kt')" "rs = r # rs'"
      using Cons.prems Some pub by (auto split: prod.splits)
    from Cons.IH [of ?w rs'] rs(1) w show ?thesis by (simp add: Some rs(2))
  qed
qed simp

lemma op_events_books:
  "e \<in> set (op_events json s ops w) \<Longrightarrow> ev_Aggregate e = AggregateBooks \<and> (\<exists>b. ev_Payload e = BookPayload b)"
proof (induction ops arbitrary: w)
  case (Cons op ops)
  have "ev_Aggregate e = AggregateBooks \<and> (\<exists>b. ev_Payload e = BookPayload b)" if "op_event s op w = Some e"
    using that by (cases op) (auto simp: op_event_def bookEvent_def Let_def split: sum.splits)
  with Cons show ?case by (auto split: option.splits)
qed simp

section \<open>Exactly once\<close>

text \<open>
  C30. From the service to the consumer, events take effect exactly once. Take any sequence of calls
  of the book service with the Kafka publisher, over any store and cache, a topic that was empty before, a
  broker that keeps what it acknowledged and may repeat what it got, and a consumer that reads the topic its
  configuration names and returned after every message of the topic was delivered to it at least
  once, in any order and any number of times. Then it did its work exactly once for each of some of
  the events of the mutations that succeeded, among them all that the publication counter recorded
  as a success, and for nothing else. The consumer works on an event in the form in which \<open>encoding/json\<close>
  reads it back into an \<open>any\<close>: a map with \<open>float64\<close> identifiers.
\<close>

theorem committed_mutations_take_effect_once:
  assumes laws: "broker_law (pr_writer p) klog" "event_lib_law el" "reader_law rd fetched"
    and config: "kafka_ConfigFromEnv rt = Inr cfg" "p = kafka_New Writer cfg src" "consumer_config rt' = Some rc"
      "rt_env rt' ''KAFKA_TOPIC_PREFIX'' = rt_env rt ''KAFKA_TOPIC_PREFIX''"
    and service: "sv_publisher s = Some (kafka_Publisher el p)" "w' = fold (run_op json s) ops w"
      "klog (kt_broker (w_pub w)) = []"
    and consume: "fetched k = []" "consumer_main el rd k = Some c"
      "set (fetched (cn_reader c)) = {m \<in> set (klog (kt_broker (w_pub w'))). km_Topic m = rc_Topic rc}"
  shows "\<exists>counted kept. w_published w' = rev counted @ w_published w \<and>
    map fst counted = map ev_Type (op_events json s ops w) \<and>
    {i \<in> {..<length counted}. snd (counted ! i) = ''success''} \<subseteq> kept \<and> kept \<subseteq> {..<length counted} \<and>
    mset (ih_worked (cn_handler c)) =
      image_mset (\<lambda>i. received (event_envelope p (el_uuid el (kt_draws (w_pub w) + i)) (op_events json s ops w ! i)))
        (mset_set kept)"
proof -
  let ?es = "op_events json s ops w"
  obtain rs kt' where pub: "publish_all el p ?es (w_pub w) = (rs, kt')" by (cases "publish_all el p ?es (w_pub w)")
  have len: "length rs = length ?es" using publish_all_log [OF laws(1) pub] by blast
  note run = run_ops_published [OF service(1) pub, folded service(2)]
  have books: "\<forall>e \<in> set ?es. ev_Aggregate e = AggregateBooks \<and> (\<exists>b. ev_Payload e = BookPayload b)"
    using op_events_books by blast
  have all: "set (fetched (cn_reader c)) = {m \<in> set (klog (kt_broker kt')). km_Topic m = rc_Topic rc}"
    using consume(3) run by simp
  from published_events_worked_once [OF laws config pub service(3) books consume(1,2) all]
  obtain kept where kept: "kept \<subseteq> {..<length ?es}" "{i \<in> {..<length ?es}. is_ok (rs ! i)} \<subseteq> kept"
      "mset (ih_worked (cn_handler c)) =
        image_mset (\<lambda>i. received (event_envelope p (el_uuid el (kt_draws (w_pub w) + i)) (?es ! i))) (mset_set kept)" by blast
  let ?counted = "map outcome (zip ?es rs)"
  have "length ?counted = length ?es" using len by simp
  moreover have "map fst ?counted = map ev_Type ?es"
    using len by (intro nth_equalityI) (simp_all add: outcome_def)
  moreover have "is_ok (rs ! i)" if "i < length ?es" "snd (?counted ! i) = ''success''" for i
    using that len by (simp add: outcome_def split: if_splits)
  ultimately show ?thesis using run kept by (intro exI [of _ ?counted] exI [of _ kept]) auto
qed

section \<open>A run\<close>

text \<open>
  A broker that appends every message twice, an encoding of envelopes as fields between bars, and a
  reader that delivers a list of messages and is then cancelled.
\<close>

definition demo_writer :: "kafka_Message list messageWriter" where
  "demo_writer = \<lparr>mw_WriteMessages = \<lambda>t m k. (Inr (), k @ [m, m]), mw_Close = \<lambda>k. (Inr (), k)\<rparr>"

definition demo_encode :: "Envelope \<Rightarrow> string" where
  "demo_encode env =
     (case en_Data env of
        Decoded v \<Rightarrow> []
      | BookPayload p \<Rightarrow>
          join_with ''|'' [en_ID env, en_Type env, en_Source env, show_int (en_OccurredAt env),
            show_int (uint (bp_ID p)), show_int (uint (bp_OwnerID p)), bp_Title p, bp_Author p])"

definition demo_decode :: "string \<Rightarrow> go_error + Envelope" where
  "demo_decode v =
     (case split_on (CHR ''|'') v of
        [uid, ty, src, at, bid, own, title, author] \<Rightarrow>
          (case (ParseInt at, ParseInt bid, ParseInt own) of
             (Some t, Some b, Some ow) \<Rightarrow>
               Inr (received \<lparr>en_ID = uid, en_Type = ty, en_Source = src, en_OccurredAt = t,
                      en_Data = BookPayload \<lparr>bp_ID = word_of_int b, bp_OwnerID = word_of_int ow, bp_Title = title,
                        bp_Author = author\<rparr>\<rparr>)
           | _ \<Rightarrow> Inl (ErrText ''number''))
      | _ \<Rightarrow> Inl (ErrText ''fields''))"

definition demo_events :: event_lib where
  "demo_events = \<lparr>el_uuid = show_nat,
     el_Marshal = \<lambda>env. if demo_decode (demo_encode env) = Inr (received env) then Inr (demo_encode env)
                        else Inl (ErrText ''field with a bar''),
     el_Unmarshal = demo_decode\<rparr>"

definition demo_reader :: "(kafka_Message list \<times> kafka_Message list) Reader" where
  "demo_reader = \<lparr>rd_FetchMessage = \<lambda>(todo, old).
       case todo of [] \<Rightarrow> (Inl (ErrText ''context canceled''), ([], old)) | m # todo \<Rightarrow> (Inr m, (todo, old @ [m])),
     rd_CommitMessages = \<lambda>m k. (Inr (), k), rd_Done = \<lambda>(todo, old). todo = []\<rparr>"

lemma demo_broker_law: "broker_law demo_writer (\<lambda>k. k)"
  by (auto simp: broker_law_def demo_writer_def intro!: exI [of _ 2] simp: numeral_2_eq_2)

lemma demo_event_lib_law: "event_lib_law demo_events"
proof -
  have "ascii (show_nat n)" for n
  proof -
    have "byte_in 0 127 c" if "c \<in> set ''0123456789''" for c
      using that by (auto simp: byte_in_def)
    then show ?thesis using show_nat_digits [of n] by (auto simp: ascii_def)
  qed
  then show ?thesis by (auto simp: event_lib_law_def demo_events_def inj_def show_nat_inj split: if_splits)
qed

lemma demo_reader_law: "reader_law demo_reader snd"
  by (auto simp: reader_law_def demo_reader_def split: list.split)

definition demo_kafka_rt :: go_rt where
  "demo_kafka_rt = \<lparr>rt_env = \<lambda>n. if n = ''KAFKA_BROKERS'' then ''kafka:9092'' else '''',
     rt_time = \<lambda>n. 5, rt_tick = 0, rt_rand = \<lambda>n. None, rt_draw = 0\<rparr>"

definition demo_producer :: "kafka_Message list Producer" where
  "demo_producer = kafka_New (\<lambda>c. demo_writer)
     \<lparr>kc_Brokers = [''kafka:9092''], kc_TopicPrefix = ''app'', kc_PublishTimeout = defaultPublishTimeout\<rparr> ''svc''"

definition demo_message :: kafka_Message where
  "demo_message = \<lparr>km_Topic = ''app.books'', km_Key = ''1'', km_Value = ''0|book.deleted.v1|svc|5|1|1|Go|Pike''\<rparr>"

definition demo_deleted :: Envelope where
  "demo_deleted = \<lparr>en_ID = ''0'', en_Type = TypeBookDeleted, en_Source = ''svc'', en_OccurredAt = 5,
     en_Data = BookPayload \<lparr>bp_ID = 1, bp_OwnerID = 1, bp_Title = ''Go'', bp_Author = ''Pike''\<rparr>\<rparr>"

lemma demo_marshal:
  "demo_encode demo_deleted = ''0|book.deleted.v1|svc|5|1|1|Go|Pike''"
  "demo_decode ''0|book.deleted.v1|svc|5|1|1|Go|Pike'' = Inr (received demo_deleted)"
proof -
  have words: "show_int 1 = ''1''" "ParseInt ''1'' = Some 1" "show_int 5 = ''5''"
    "ParseInt ''5'' = Some 5" by code_simp+
  show "demo_encode demo_deleted = ''0|book.deleted.v1|svc|5|1|1|Go|Pike''"
    "demo_decode ''0|book.deleted.v1|svc|5|1|1|Go|Pike'' = Inr (received demo_deleted)"
    by (simp_all add: demo_encode_def demo_decode_def demo_deleted_def words TypeBookDeleted_def)
qed

text \<open>Another user tries to delete a book, then its owner does.\<close>

definition demo_flow_svc :: "(pg, unit, kafka_Message list transport) BookService" where
  "demo_flow_svc = NewBookService (SQLCBookStore (map lower_char)) None (Some (kafka_Publisher demo_events demo_producer))"

definition demo_flow :: "(pg, unit, kafka_Message list transport) world" where
  "demo_flow = (demo_world demo_pg () \<lparr>kt_draws = 0, kt_broker = []\<rparr>)\<lparr>w_rt := demo_kafka_rt\<rparr>"

definition demo_calls :: "book_op list" where
  "demo_calls = [DeleteOp 2 1, DeleteOp 1 1]"

definition demo_owned :: Book where
  "demo_owned = bookFromDB (Demo.demo_book 1 1 ''Go'' ''Pike'')"

lemma demo_owned_simps [simp]:
  "b_ID demo_owned = 1" "b_OwnerID demo_owned = 1" "b_Title demo_owned = ''Go''" "b_Author demo_owned = ''Pike''"
  by (simp_all add: demo_owned_def bookFromDB_def demo_book_def demo_ids)

lemma demo_flow_run:
  "op_events demo_json demo_flow_svc demo_calls demo_flow =
     [bookEvent TypeBookDeleted demo_owned 5]"
  "kt_broker (w_pub (fold (run_op demo_json demo_flow_svc) demo_calls demo_flow)) = [demo_message, demo_message]"
  "w_published (fold (run_op demo_json demo_flow_svc) demo_calls demo_flow) = [(TypeBookDeleted, ''success'')]"
proof -
  let ?b = demo_owned
  let ?e = "bookEvent TypeBookDeleted ?b 5"
  have svc: "sv_store demo_flow_svc = SQLCBookStore (map lower_char)" "sv_redis demo_flow_svc = None"
    "sv_publisher demo_flow_svc = Some (kafka_Publisher demo_events demo_producer)"
    by (simp_all add: demo_flow_svc_def NewBookService_def)
  have stmts: "bk_FirstByID (SQLCBookStore l) = store_FirstByID" "bk_DeleteByID (SQLCBookStore l) = store_DeleteByID" for l
    by (simp_all add: SQLCBookStore_def)
  obtain st where del: "store_DeleteByID 1 (demo_db (Suc (Suc 0))) = (Inr (), st)" using demo_books(2) by blast
  have first: "store_FirstByID 1 (demo_db 0) = (Inr ?b, demo_db (Suc 0))" "store_FirstByID 1 (demo_db (Suc 0)) = (Inr ?b, demo_db (Suc (Suc 0)))"
    using demo_books(1) [of 0, folded demo_owned_def] demo_books(1) [of 1, folded demo_owned_def]
    by simp_all
  have start: "w_store demo_flow = demo_db 0" "w_pub demo_flow = \<lparr>kt_draws = 0, kt_broker = []\<rparr>"
    "rt_time (w_rt demo_flow) (rt_tick (w_rt demo_flow)) = 5" "w_published demo_flow = []"
    by (simp_all add: demo_flow_def demo_world_def demo_db_0 demo_kafka_rt_def)
  have one: "svc_DeleteBook demo_flow_svc 2 1 demo_flow = (Inl (Sentinel ErrBookForbidden), demo_flow\<lparr>w_store := demo_db (Suc 0)\<rparr>)"
    by (simp add: owned_eqs owned_def svc stmts start first)
  have two: "svc_DeleteBook demo_flow_svc 1 1 (demo_flow\<lparr>w_store := demo_db (Suc 0)\<rparr>) =
      (Inr (), after_commit demo_flow_svc TypeBookDeleted ?b (demo_flow\<lparr>w_store := st\<rparr>))"
    by (simp add: owned_eqs owned_def svc stmts first del)
  have events: "op_event demo_flow_svc (DeleteOp 2 1) demo_flow = None"
    "op_event demo_flow_svc (DeleteOp 1 1) (demo_flow\<lparr>w_store := demo_db (Suc 0)\<rparr>) = Some ?e"
    by (simp_all add: op_event_def one two GetBook_def on_store_eq svc stmts first start)
  then show "op_events demo_json demo_flow_svc demo_calls demo_flow = [?e]"
    by (simp add: demo_calls_def one)
  have env: "event_envelope demo_producer ''0'' ?e = demo_deleted"
    by (simp add: event_envelope_def demo_producer_def bookEvent_def demo_deleted_def kafka_New_def)
  have zero: "show_nat 0 = ''0''" "show_nat 1 = ''1''" by code_simp+
  have marshal: "el_Marshal demo_events demo_deleted = Inr ''0|book.deleted.v1|svc|5|1|1|Go|Pike''"
    "el_uuid demo_events 0 = ''0''"
    by (simp_all add: demo_events_def demo_marshal zero)
  have dest: "pr_topic demo_producer (ev_Aggregate ?e) = ''app.books''" "ev_Key ?e = ''1''" "ev_Type ?e = TypeBookDeleted"
    by (simp_all add: demo_producer_def kafka_New_def pr_topic_def bookEvent_def AggregateBooks_def zero [simplified])
  have writer: "mw_WriteMessages (pr_writer demo_producer) t m k = (Inr (), k @ [m, m])" for t m k
    by (simp add: demo_producer_def kafka_New_def demo_writer_def)
  have pub: "Producer_Publish demo_events demo_producer ?e \<lparr>kt_draws = 0, kt_broker = []\<rparr> =
      (Inr (), \<lparr>kt_draws = 1, kt_broker = [demo_message, demo_message]\<rparr>)"
    by (simp add: Producer_Publish_def buildMessage_def env marshal dest writer on_broker_def demo_message_def Let_def)
  have "published_as (kafka_Publisher demo_events demo_producer) ?e demo_flow
      (fold (run_op demo_json demo_flow_svc) demo_calls demo_flow)"
    using after_commit_published [OF svc(3), of "demo_flow\<lparr>w_store := st\<rparr>" demo_flow TypeBookDeleted ?b]
    by (simp add: demo_calls_def one two start)
  then show "kt_broker (w_pub (fold (run_op demo_json demo_flow_svc) demo_calls demo_flow)) = [demo_message, demo_message]"
    "w_published (fold (run_op demo_json demo_flow_svc) demo_calls demo_flow) = [(TypeBookDeleted, ''success'')]"
    by (simp_all add: published_as_def kafka_Publisher_def start pub dest)
qed

lemma demo_flow_consumed:
  "\<exists>c. consumer_main demo_events demo_reader ([demo_message, demo_message], []) = Some c \<and>
     snd (cn_reader c) = [demo_message, demo_message]"
proof -
  have "el_Unmarshal demo_events (km_Value demo_message) = Inr (received demo_deleted)"
    by (simp add: demo_events_def demo_message_def demo_marshal)
  then show ?thesis unfolding consumer_main_def new_handler_def
    by (simp add: while_option_unfold [of cn_running] consumer_round_def demo_reader_def handle_message_def)
qed

theorem committed_mutations_take_effect_once_witness:
  "\<exists>c. consumer_main demo_events demo_reader
       (kt_broker (w_pub (fold (run_op demo_json demo_flow_svc) demo_calls demo_flow)), []) = Some c \<and>
     ih_worked (cn_handler c) = [received demo_deleted] \<and>
     en_Data (received demo_deleted) = Decoded (JObject [(''author'', JString ''Pike''), (''id'', JNumber (1, 0)),
       (''owner_id'', JNumber (1, 0)), (''title'', JString ''Go'')])"
proof -
  let ?w = "fold (run_op demo_json demo_flow_svc) demo_calls demo_flow"
  let ?e = "bookEvent TypeBookDeleted demo_owned 5"
  obtain cfg where cfg: "kafka_ConfigFromEnv demo_kafka_rt = Inr cfg" "demo_producer = kafka_New (\<lambda>c. demo_writer) cfg ''svc''"
  proof
    have "TrimSpace ''kafka:9092'' = ''kafka:9092''" "TrimSpace '''' = ''''" by code_simp+
    then show "kafka_ConfigFromEnv demo_kafka_rt = Inr \<lparr>kc_Brokers = [''kafka:9092''], kc_TopicPrefix = ''app'',
        kc_PublishTimeout = defaultPublishTimeout\<rparr>"
      by (simp add: kafka_ConfigFromEnv_def trimmed_env_def demo_kafka_rt_def split_trimmed_def defaultTopicPrefix_def Let_def)
  qed (simp add: demo_producer_def)
  obtain rc where rc: "consumer_config demo_kafka_rt = Some rc" "rc_Topic rc = ''app.books''"
  proof
    have "TrimSpace ''kafka:9092'' = ''kafka:9092''" "TrimSpace '''' = ''''" by code_simp+
    then show "consumer_config demo_kafka_rt = Some \<lparr>rc_Brokers = [''kafka:9092''], rc_GroupID = ''example-consumer'',
        rc_Topic = ''app.books''\<rparr>"
      by (simp add: consumer_config_def envOr_def splitAndTrim_def trimmed_env_def demo_kafka_rt_def split_trimmed_def
          AggregateBooks_def Let_def)
  qed simp
  obtain c where con: "consumer_main demo_events demo_reader (kt_broker (w_pub ?w), []) = Some c"
      and got: "snd (cn_reader c) = [demo_message, demo_message]"
    using demo_flow_consumed by (auto simp: demo_flow_run(2))
  have laws: "broker_law (pr_writer demo_producer) (\<lambda>k. k)"
    using demo_broker_law by (simp add: demo_producer_def kafka_New_def)
  have svc: "sv_publisher demo_flow_svc = Some (kafka_Publisher demo_events demo_producer)"
    by (simp add: demo_flow_svc_def NewBookService_def)
  have start: "kt_broker (w_pub demo_flow) = []" "kt_draws (w_pub demo_flow) = 0" "w_published demo_flow = []"
    by (simp_all add: demo_flow_def demo_world_def)
  have all: "set (snd (cn_reader c)) = {m \<in> set (kt_broker (w_pub ?w)). km_Topic m = rc_Topic rc}"
    by (auto simp: got demo_flow_run(2) rc(2)) (simp_all add: demo_message_def)
  have none: "snd (kt_broker (w_pub ?w), []) = []" by simp
  from committed_mutations_take_effect_once [OF laws demo_event_lib_law demo_reader_law cfg rc(1) refl svc refl start(1) none con all]
  obtain counted kept where got: "w_published ?w = rev counted @ w_published demo_flow"
      "{i \<in> {..<length counted}. snd (counted ! i) = ''success''} \<subseteq> kept" "kept \<subseteq> {..<length counted}"
      "mset (ih_worked (cn_handler c)) =
        image_mset (\<lambda>i. received (event_envelope demo_producer (el_uuid demo_events (0 + i)) ([?e] ! i))) (mset_set kept)"
    unfolding demo_flow_run(1) start(2) by blast
  have "counted = [(TypeBookDeleted, ''success'')]" using got(1) demo_flow_run(3) start(3) by simp
  with got(2,3) have "kept = {0}" by auto
  with got(4) have "mset (ih_worked (cn_handler c)) = {#received (event_envelope demo_producer (el_uuid demo_events 0) ?e)#}" by simp
  moreover have "show_nat 0 = ''0''" by code_simp
  then have "event_envelope demo_producer (el_uuid demo_events 0) ?e = demo_deleted"
    by (simp add: event_envelope_def demo_producer_def bookEvent_def demo_deleted_def kafka_New_def demo_events_def)
  ultimately have "mset (ih_worked (cn_handler c)) = {#received demo_deleted#}" by simp
  then have "ih_worked (cn_handler c) = [received demo_deleted]" by (simp add: mset_single_iff)
  moreover have "json_text ''Go'' = ''Go''" "json_text ''Pike'' = ''Pike''"
    by (rule json_text_ascii, simp add: ascii_def byte_in_def)+
  then have "en_Data (received demo_deleted) = Decoded (JObject [(''author'', JString ''Pike''), (''id'', JNumber (1, 0)),
      (''owner_id'', JNumber (1, 0)), (''title'', JString ''Go'')])"
    by (simp add: received_def demo_deleted_def payload_json_def float64_exact)
  ultimately show ?thesis using con by blast
qed

end
