(* ===== verification/Database.thy ===== *)
theory Database
  imports Cache_Client
begin

text \<open>
  The connections to the databases (\<open>pkg/database/db.go\<close>, \<open>mongo.go\<close>): the settings of the pool,
  the retry loop of \<open>NewDatabase\<close>, the schema applied once at start-up, and the collection of the
  access log. \<open>pgxpool\<close> and the MongoDB driver are libraries: a record gives what each of their
  calls answers, and the calls the code makes are kept in the order it makes them, so that a pool
  that was opened and never closed shows.
\<close>

section \<open>Pool settings\<close>

type_synonym int32 = "32 word"

definition MaxInt32 :: int where "MaxInt32 = 2147483647"

definition clampToInt32 :: "int \<Rightarrow> int32" where
  "clampToInt32 v = (if v > MaxInt32 then word_of_int MaxInt32 else if v < 0 then 0 else word_of_int v)"

definition getenvPositiveInt :: "go_rt \<Rightarrow> string \<Rightarrow> int \<Rightarrow> int" where
  "getenvPositiveInt rt key def =
     (let s = trimmed_env rt key
      in if s = '''' then def
         else (case ParseInt s of None \<Rightarrow> def | Some n \<Rightarrow> if n \<le> 0 then def else n))"

definition getenvPositiveDuration :: "go_rt \<Rightarrow> string \<Rightarrow> duration \<Rightarrow> duration" where
  "getenvPositiveDuration rt key def =
     (let s = trimmed_env rt key
      in if s = '''' then def
         else (case ParseDuration s of None \<Rightarrow> def | Some d \<Rightarrow> if d \<le> 0 then def else d))"

definition defaultPostgresMaxOpenConns :: int where "defaultPostgresMaxOpenConns = 25"
definition defaultPostgresMaxIdleConns :: int where "defaultPostgresMaxIdleConns = 5"
definition defaultPostgresConnMaxLifetime :: duration where "defaultPostgresConnMaxLifetime = hour"
definition defaultPostgresConnMaxIdleTime :: duration where "defaultPostgresConnMaxIdleTime = 10 * minute"

record pool_Config =
  pc_ConnString :: string
  pc_MaxConns :: int32
  pc_MinIdleConns :: int32
  pc_MaxConnLifetime :: duration
  pc_MaxConnIdleTime :: duration

definition applyPoolConfig :: "go_rt \<Rightarrow> pool_Config \<Rightarrow> pool_Config" where
  "applyPoolConfig rt cfg =
     (let maxOpen = getenvPositiveInt rt ''POSTGRES_MAX_OPEN_CONNS'' defaultPostgresMaxOpenConns;
          minIdle = getenvPositiveInt rt ''POSTGRES_MAX_IDLE_CONNS'' defaultPostgresMaxIdleConns;
          minIdle = (if minIdle > maxOpen then maxOpen else minIdle)
      in cfg\<lparr>pc_MaxConns := clampToInt32 maxOpen, pc_MinIdleConns := clampToInt32 minIdle,
             pc_MaxConnLifetime :=
               getenvPositiveDuration rt ''POSTGRES_CONN_MAX_LIFETIME'' defaultPostgresConnMaxLifetime,
             pc_MaxConnIdleTime :=
               getenvPositiveDuration rt ''POSTGRES_CONN_MAX_IDLE_TIME'' defaultPostgresConnMaxIdleTime\<rparr>)"

lemma getenvPositiveInt_range:
  "0 < def \<Longrightarrow> def \<le> max_int64 \<Longrightarrow> 0 < getenvPositiveInt rt key def \<and> getenvPositiveInt rt key def \<le> max_int64"
  using ParseInt_bounds by (fastforce simp: getenvPositiveInt_def Let_def split: option.splits)

lemma getenvPositiveDuration_pos: "0 < def \<Longrightarrow> 0 < getenvPositiveDuration rt key def"
  by (auto simp: getenvPositiveDuration_def Let_def split: option.splits)

text \<open>The narrowing saturates: no value wraps.\<close>

lemma clampToInt32_value: "sint (clampToInt32 v) = max 0 (min MaxInt32 v)"
proof (cases "0 \<le> v \<and> v \<le> MaxInt32")
  case True
  then have "sint (word_of_int v :: int32) = v" by (simp add: MaxInt32_def sint_sbintrunc' signed_take_bit_int_eq_self)
  with True show ?thesis by (simp add: clampToInt32_def)
next
  case False
  then show ?thesis by (auto simp: clampToInt32_def MaxInt32_def)
qed

section \<open>Opening the pool\<close>

text \<open>
  The library. Calls of \<open>NewWithConfig\<close> are numbered, and so are the pools they return; the answers
  to the \<open>i\<close>-th \<open>NewWithConfig\<close>, to the \<open>Ping\<close> and to the \<open>Exec\<close> on the \<open>i\<close>-th pool are arbitrary. On an error
  \<open>NewWithConfig\<close> returns the nil pool.
\<close>

record pgxpool_lib =
  px_ParseConfig :: "string \<Rightarrow> go_error + pool_Config"
  px_NewWithConfig :: "nat \<Rightarrow> go_error option"
  px_Ping :: "nat \<Rightarrow> go_error option"
  px_Exec :: "nat \<Rightarrow> go_error option"

datatype pool_call =
    NewWithConfig nat pool_Config
  | PingPool nat
  | ClosePool nat
  | Sleep duration
  | ExecSchema nat

definition ApplySchema :: "pgxpool_lib \<Rightarrow> nat \<Rightarrow> pool_call list \<Rightarrow> go_error option \<times> pool_call list" where
  "ApplySchema px pool calls = (px_Exec px pool, calls @ [ExecSchema pool])"

text \<open>
  The loop \<open>for i := 1; i <= 3; i++\<close>; its first argument counts the rounds that are left. An
  attempt that fails closes the pool it got, if any, and sleeps.
\<close>

fun connect_loop ::
  "pgxpool_lib \<Rightarrow> pool_Config \<Rightarrow> nat \<Rightarrow> nat \<Rightarrow> pool_call list \<Rightarrow> nat option \<times> pool_call list" where
  "connect_loop px cfg 0 i calls = (None, calls)"
| "connect_loop px cfg (Suc left) i calls =
     (let calls = calls @ [NewWithConfig i cfg]
      in case px_NewWithConfig px i of
           Some err \<Rightarrow> connect_loop px cfg left (Suc i) (calls @ [Sleep (3 * second)])
         | None \<Rightarrow>
             let calls = calls @ [PingPool i]
             in case px_Ping px i of
                  None \<Rightarrow> (Some i, calls)
                | Some err \<Rightarrow>
                    connect_loop px cfg left (Suc i) (calls @ [ClosePool i, Sleep (3 * second)]))"

definition db_url :: "go_rt \<Rightarrow> string" where
  "db_url rt =
     ''postgres://'' @ rt_env rt ''POSTGRES_USER'' @ '':'' @ rt_env rt ''POSTGRES_PASSWORD'' @ ''@'' @
     rt_env rt ''POSTGRES_HOST'' @ '':'' @ rt_env rt ''POSTGRES_PORT'' @ ''/'' @ rt_env rt ''POSTGRES_DB''"

definition NewDatabase :: "pgxpool_lib \<Rightarrow> go_rt \<Rightarrow> nat option \<times> pool_call list" where
  "NewDatabase px rt =
     (case px_ParseConfig px (db_url rt) of
        Inl err \<Rightarrow> (None, [])
      | Inr cfg \<Rightarrow>
          let cfg = applyPoolConfig rt cfg
          in case connect_loop px cfg 3 1 [] of
               (None, calls) \<Rightarrow> (None, calls)
             | (Some pool, calls) \<Rightarrow>
                 (case ApplySchema px pool calls of
                    (Some err, calls) \<Rightarrow> (None, calls @ [ClosePool pool])
                  | (None, calls) \<Rightarrow> (Some pool, calls)))"

section \<open>What is left open\<close>

text \<open>The pools a sequence of calls leaves open.\<close>

fun open_pools :: "pgxpool_lib \<Rightarrow> pool_call list \<Rightarrow> nat list" where
  "open_pools px [] = []"
| "open_pools px (NewWithConfig i cfg # cs) =
     (if px_NewWithConfig px i = None \<and> ClosePool i \<notin> set cs then i # open_pools px cs else open_pools px cs)"
| "open_pools px (c # cs) = open_pools px cs"

definition attempts :: "pool_call list \<Rightarrow> nat" where
  "attempts cs = length (filter (\<lambda>c. \<exists>i cfg. c = NewWithConfig i cfg) cs)"

definition slept :: "pool_call list \<Rightarrow> duration" where
  "slept cs = sum_list (map (\<lambda>c. case c of Sleep d \<Rightarrow> d | _ \<Rightarrow> 0) cs)"

text \<open>An attempt is good when the pool opens and answers the ping.\<close>

definition good_attempt :: "pgxpool_lib \<Rightarrow> nat \<Rightarrow> bool" where
  "good_attempt px i \<longleftrightarrow> px_NewWithConfig px i = None \<and> px_Ping px i = None"

text \<open>The calls of an attempt that fails, and of one that succeeds.\<close>

definition failed_attempt :: "pgxpool_lib \<Rightarrow> pool_Config \<Rightarrow> nat \<Rightarrow> pool_call list" where
  "failed_attempt px cfg i =
     (if px_NewWithConfig px i = None then [NewWithConfig i cfg, PingPool i, ClosePool i, Sleep (3 * second)]
      else [NewWithConfig i cfg, Sleep (3 * second)])"

lemma connect_loop_calls:
  "connect_loop px cfg left i calls =
     (case find (good_attempt px) [i..<i + left] of
        None \<Rightarrow> (None, calls @ concat (map (failed_attempt px cfg) [i..<i + left]))
      | Some j \<Rightarrow> (Some j, calls @ concat (map (failed_attempt px cfg) [i..<j]) @ [NewWithConfig j cfg, PingPool j]))"
proof (induction left arbitrary: i calls)
  case (Suc left)
  have range: "[i..<i + Suc left] = i # [Suc i..<Suc i + left]" by (simp add: upt_rec)
  show ?case
  proof (cases "good_attempt px i")
    case True
    then show ?thesis unfolding range by (simp add: good_attempt_def Let_def del: upt_Suc)
  next
    case False
    then have step: "connect_loop px cfg (Suc left) i calls =
        connect_loop px cfg left (Suc i) (calls @ failed_attempt px cfg i)"
      by (auto simp: good_attempt_def failed_attempt_def Let_def split: option.split)
    have "Suc i \<le> j" if "find (good_attempt px) [Suc i..<Suc i + left] = Some j" for j
    proof -
      from that have "j \<in> set [Suc i..<Suc i + left]" by (metis find_Some_iff nth_mem)
      then show ?thesis by auto
    qed
    then have "[i..<j] = i # [Suc i..<j]" if "find (good_attempt px) [Suc i..<Suc i + left] = Some j" for j
      using that by (force simp: upt_rec [of i])
    with False show ?thesis unfolding step Suc.IH range by (auto split: option.split)
  qed
qed simp

lemma open_pools_failed:
  "open_pools px (failed_attempt px cfg i @ cs) = open_pools px cs"
  by (simp add: failed_attempt_def)

lemma open_pools_failures:
  "open_pools px (concat (map (failed_attempt px cfg) is) @ cs) = open_pools px cs"
  by (induction "is") (simp_all add: open_pools_failed)

lemma attempts_failures:
  "attempts (concat (map (failed_attempt px cfg) is) @ cs) = length is + attempts cs"
  "slept (concat (map (failed_attempt px cfg) is) @ cs) = 3 * second * int (length is) + slept cs"
  by (induction "is") (simp_all add: attempts_def slept_def failed_attempt_def algebra_simps)

lemmas pool_accounting = open_pools_failures attempts_failures

text \<open>The pool \<open>NewDatabase\<close> chooses, and its calls.\<close>

lemma NewDatabase_calls:
  "NewDatabase px rt =
     (case px_ParseConfig px (db_url rt) of
        Inl err \<Rightarrow> (None, [])
      | Inr cfg \<Rightarrow>
          let failed = (\<lambda>is. concat (map (failed_attempt px (applyPoolConfig rt cfg)) is))
          in case find (good_attempt px) [1, 2, 3] of
               None \<Rightarrow> (None, failed [1, 2, 3])
             | Some i \<Rightarrow>
                 (if px_Exec px i = None
                  then (Some i, failed [1..<i] @ [NewWithConfig i (applyPoolConfig rt cfg), PingPool i, ExecSchema i])
                  else (None, failed [1..<i] @
                    [NewWithConfig i (applyPoolConfig rt cfg), PingPool i, ExecSchema i, ClosePool i])))"
proof -
  have three: "[1..<1 + 3] = [1, 2, 3 :: nat]" by (simp add: upt_rec)
  show ?thesis
    unfolding NewDatabase_def connect_loop_calls three Let_def
    by (cases "px_ParseConfig px (db_url rt)"; cases "find (good_attempt px) [1, 2, 3]")
      (auto simp: ApplySchema_def simp del: find.simps concat.simps list.map split: option.split)
qed

lemma NewDatabase_open:
  "open_pools px (snd (NewDatabase px rt)) = (case fst (NewDatabase px rt) of None \<Rightarrow> [] | Some i \<Rightarrow> [i])"
proof -
  have good: "px_NewWithConfig px i = None" if "find (good_attempt px) [1, 2, 3] = Some i" for i
    using that by (auto simp: good_attempt_def split: if_splits)
  have "open_pools px (concat (map (failed_attempt px c) is)) = []" for c "is"
    using open_pools_failures [of px c "is" "[]"] by simp
  with good show ?thesis
    unfolding NewDatabase_calls Let_def
    by (cases "px_ParseConfig px (db_url rt)"; cases "find (good_attempt px) [1, 2, 3]")
      (simp_all add: open_pools_failures del: find.simps concat.simps list.map)
qed

lemma NewDatabase_attempts:
  "attempts (snd (NewDatabase px rt)) \<le> 3 \<and> slept (snd (NewDatabase px rt)) \<le> 9 * second"
proof -
  have i: "length [1..<i] \<le> 2" "3 * second * int (length [1..<i]) \<le> 9 * second"
    if "find (good_attempt px) [1, 2, 3] = Some i" for i
    using that by (auto simp: second_def split: if_splits)
  have nil: "attempts [] = 0" "slept [] = 0" by (simp_all add: attempts_def slept_def)
  have one: "attempts (NewWithConfig j c # PingPool j # ExecSchema j # cs) = Suc (attempts cs)"
    "slept (NewWithConfig j c # PingPool j # ExecSchema j # cs) = slept cs"
    "attempts (ClosePool j # cs) = attempts cs" "slept (ClosePool j # cs) = slept cs" for j c cs
    by (simp_all add: attempts_def slept_def)
  have all: "attempts (concat (map (failed_attempt px c) [1, 2, 3])) = 3"
    "slept (concat (map (failed_attempt px c) [1, 2, 3])) = 9 * second" for c
    using attempts_failures [of px c "[1, 2, 3]" "[]"] by (simp_all add: nil del: concat.simps list.map)
  show ?thesis
  proof (cases "px_ParseConfig px (db_url rt)")
    case (Inl err)
    then show ?thesis by (simp add: NewDatabase_def nil second_def)
  next
    case (Inr cfg)
    show ?thesis
    proof (cases "find (good_attempt px) [1, 2, 3]")
      case None
      with Inr all show ?thesis
        unfolding NewDatabase_calls Let_def by (simp del: find.simps concat.simps list.map)
    next
      case (Some j)
      with Inr i [OF Some] show ?thesis
        unfolding NewDatabase_calls Let_def
        by (simp add: attempts_failures one nil del: find.simps concat.simps list.map)
    qed
  qed
qed

text \<open>
  C34. \<open>NewDatabase\<close> ends after at most three attempts and nine seconds of sleep. It returns the pool
  of the first attempt of the three that opens and answers the ping, if the schema applies on
  it, and then that pool is the only one left open; otherwise, and on a connection string that
  does not parse, it returns nil and no pool is left open.
\<close>

theorem database_opens_or_cleans_up:
  "attempts (snd (NewDatabase px rt)) \<le> 3 \<and> slept (snd (NewDatabase px rt)) \<le> 9 * second \<and>
    fst (NewDatabase px rt) =
      (case px_ParseConfig px (db_url rt) of
         Inl err \<Rightarrow> None
       | Inr cfg \<Rightarrow>
           (case find (good_attempt px) [1, 2, 3] of
              None \<Rightarrow> None
            | Some i \<Rightarrow> if px_Exec px i = None then Some i else None)) \<and>
    open_pools px (snd (NewDatabase px rt)) = (case fst (NewDatabase px rt) of None \<Rightarrow> [] | Some i \<Rightarrow> [i])"
proof -
  have "fst (NewDatabase px rt) =
      (case px_ParseConfig px (db_url rt) of
         Inl err \<Rightarrow> None
       | Inr cfg \<Rightarrow>
           (case find (good_attempt px) [1, 2, 3] of
              None \<Rightarrow> None
            | Some i \<Rightarrow> if px_Exec px i = None then Some i else None))"
    unfolding NewDatabase_calls Let_def
    by (cases "px_ParseConfig px (db_url rt)"; cases "find (good_attempt px) [1, 2, 3]")
      (simp_all del: find.simps concat.simps list.map)
  with NewDatabase_attempts NewDatabase_open show ?thesis by blast
qed

section \<open>mongo.go\<close>

text \<open>The driver: what connecting to a URI, and then pinging, answers.\<close>

record mongo_lib =
  mg_Connect :: "string \<Rightarrow> go_error option"
  mg_Ping :: "string \<Rightarrow> go_error option"

datatype mongo_call = Connect string | PingClient | Disconnect

definition mongoConnectionURI :: "go_rt \<Rightarrow> string" where
  "mongoConnectionURI rt =
     (let uri = rt_env rt ''MONGODB_URI''
      in if uri = '''' then ''mongodb://localhost:27017'' else uri)"

text \<open>The collection is its database and its name.\<close>

definition SetupMongoDB ::
  "mongo_lib \<Rightarrow> go_rt \<Rightarrow> (go_error + string \<times> string) \<times> mongo_call list" where
  "SetupMongoDB mg rt =
     (let uri = mongoConnectionURI rt
      in case mg_Connect mg uri of
           Some err \<Rightarrow> (Inl (Prefixed ''mongo connect'' err), [Connect uri])
         | None \<Rightarrow>
             (case mg_Ping mg uri of
                Some err \<Rightarrow> (Inl (Prefixed ''mongo ping'' err), [Connect uri, PingClient, Disconnect])
              | None \<Rightarrow> (Inr (''logging'', ''logs''), [Connect uri, PingClient])))"

end
