(* ===== verification/Tracing_Setup.thy ===== *)
theory Tracing_Setup
  imports Cache_Client
begin

text \<open>
  The set-up of tracing (\<open>pkg/tracing/config.go\<close>, \<open>provider.go\<close>): the configuration from the
  environment, the process-wide state under the package's mutex, \<open>Init\<close> and \<open>Shutdown\<close>. The
  OpenTelemetry SDK is a library: what creating the resource and the exporters, and shutting a
  tracer provider down, answers is a record; the tracer provider and the propagators it is
  handed are kept as what they were built from.
\<close>

section \<open>config.go\<close>

definition DefaultServiceName :: string where "DefaultServiceName = ''golang-rest-api-template''"
definition exporterOTLP :: string where "exporterOTLP = ''otlp''"
definition exporterStdout :: string where "exporterStdout = ''stdout''"
definition exporterNone :: string where "exporterNone = ''none''"

lemmas exporter_names = exporterOTLP_def exporterStdout_def exporterNone_def

record tracing_Config =
  tc_Enabled :: bool
  tc_ServiceName :: string
  tc_Exporter :: string

definition tracing_envTruthy :: "string \<Rightarrow> bool" where
  "tracing_envTruthy v = truthy v"

definition tracing_ConfigFromEnv :: "go_rt \<Rightarrow> tracing_Config" where
  "tracing_ConfigFromEnv rt =
     (let cfg = \<lparr>tc_Enabled = tracing_envTruthy (rt_env rt ''OTEL_TRACES_ENABLED''),
                 tc_ServiceName = trimmed_env rt ''OTEL_SERVICE_NAME'',
                 tc_Exporter = ToLower (trimmed_env rt ''OTEL_TRACES_EXPORTER'')\<rparr>;
          cfg = (if tc_ServiceName cfg = '''' then cfg\<lparr>tc_ServiceName := DefaultServiceName\<rparr> else cfg);
          cfg = (if tc_Exporter cfg = '''' then cfg\<lparr>tc_Exporter := exporterOTLP\<rparr> else cfg)
      in if tc_Exporter cfg \<in> {exporterOTLP, exporterStdout, exporterNone} then cfg
         else cfg\<lparr>tc_Exporter := exporterOTLP\<rparr>)"

section \<open>provider.go\<close>

datatype span_exporter = StdoutExporter | OtlpHttpExporter

text \<open>A tracer provider: the service of its resource and the exporter it batches to, if any.\<close>

record tracer_provider =
  tp_Service :: string
  tp_Batcher :: "span_exporter option"

record otel_lib =
  ot_resource :: "string \<Rightarrow> go_error option"
  ot_exporter :: "span_exporter \<Rightarrow> go_error option"
  ot_Shutdown :: "tracer_provider \<Rightarrow> go_error option"

text \<open>
  The package's variables, and OpenTelemetry's global tracer provider and propagators; no
  tracer provider is the no-op one.
\<close>

record tracing_globals =
  tg_enabled :: bool
  tg_service :: string
  tg_provider :: "tracer_provider option"
  tg_propagators :: "string list"

definition tracing_initial :: tracing_globals where
  "tracing_initial = \<lparr>tg_enabled = False, tg_service = DefaultServiceName, tg_provider = None, tg_propagators = []\<rparr>"

definition setRuntime :: "bool \<Rightarrow> string \<Rightarrow> tracing_globals \<Rightarrow> tracing_globals" where
  "setRuntime on name g =
     g\<lparr>tg_enabled := on, tg_service := (if name \<noteq> '''' then name else DefaultServiceName)\<rparr>"

definition newSpanExporter :: "otel_lib \<Rightarrow> string \<Rightarrow> go_error + span_exporter option" where
  "newSpanExporter ot kind =
     (if kind = exporterNone then Inr None
      else if kind = exporterStdout then
        (case ot_exporter ot StdoutExporter of
           Some err \<Rightarrow> Inl (Prefixed ''tracing: stdout exporter'' err)
         | None \<Rightarrow> Inr (Some StdoutExporter))
      else
        (case ot_exporter ot OtlpHttpExporter of
           Some err \<Rightarrow> Inl (Prefixed ''tracing: otlp http exporter'' err)
         | None \<Rightarrow> Inr (Some OtlpHttpExporter)))"

text \<open>A \<open>Provider\<close> is its tracer provider, or nothing; the result of \<open>Init\<close> may be such a no-op.\<close>

definition tracing_Init ::
  "otel_lib \<Rightarrow> tracing_Config \<Rightarrow> tracing_globals \<Rightarrow>
     (go_error + tracer_provider option) \<times> tracing_globals" where
  "tracing_Init ot cfg g =
     (let g = setRuntime (tc_Enabled cfg) (tc_ServiceName cfg) g
      in if \<not> tc_Enabled cfg then (Inr None, g)
         else
           (case ot_resource ot (tc_ServiceName cfg) of
              Some err \<Rightarrow> (Inl (Prefixed ''tracing: resource'' err), g)
            | None \<Rightarrow>
                (case newSpanExporter ot (tc_Exporter cfg) of
                   Inl err \<Rightarrow> (Inl err, g)
                 | Inr exporter \<Rightarrow>
                     let tp = \<lparr>tp_Service = tc_ServiceName cfg, tp_Batcher = exporter\<rparr>;
                         g = g\<lparr>tg_provider := Some tp\<rparr>;
                         g = g\<lparr>tg_propagators := [''tracecontext'', ''baggage'']\<rparr>
                     in (Inr (Some tp), g))))"

text \<open>\<open>Shutdown\<close> on a nil \<open>Provider\<close> (the outer \<open>None\<close>) or on a no-op one does nothing.\<close>

definition tracing_Shutdown :: "otel_lib \<Rightarrow> tracer_provider option option \<Rightarrow> go_error option" where
  "tracing_Shutdown ot p =
     (case p of
        None \<Rightarrow> None
      | Some None \<Rightarrow> None
      | Some (Some tp) \<Rightarrow>
          (case ot_Shutdown ot tp of Some err \<Rightarrow> Some (Prefixed ''tracing: shutdown'' err) | None \<Rightarrow> None))"

definition tracing_Enabled :: "tracing_globals \<Rightarrow> bool" where
  "tracing_Enabled g = tg_enabled g"

definition tracing_ServiceName :: "tracing_globals \<Rightarrow> string" where
  "tracing_ServiceName g = tg_service g"

section \<open>Laws\<close>

lemma tracing_config_range:
  "tc_ServiceName (tracing_ConfigFromEnv rt) \<noteq> ''''"
  "tc_Exporter (tracing_ConfigFromEnv rt) \<in> {exporterOTLP, exporterStdout, exporterNone}"
  "tc_Enabled (tracing_ConfigFromEnv rt) = truthy (rt_env rt ''OTEL_TRACES_ENABLED'')"
  by (auto simp: tracing_ConfigFromEnv_def tracing_envTruthy_def DefaultServiceName_def Let_def)

text \<open>A failed \<open>Init\<close> installs nothing, but \<open>Enabled\<close> has been set by then.\<close>

lemma tracing_Init_failed:
  assumes "tracing_Init ot cfg g = (Inl err, g')"
  shows "tg_provider g' = tg_provider g" "tg_propagators g' = tg_propagators g" "tracing_Enabled g'"
  using assms
  by (auto simp: tracing_Init_def tracing_Enabled_def setRuntime_def Let_def split: if_splits option.splits sum.splits)

lemma tracing_Init_ok:
  assumes "tracing_Init ot cfg g = (Inr p, g')"
  shows "tracing_Enabled g' = tc_Enabled cfg" "p = None \<longleftrightarrow> \<not> tc_Enabled cfg"
    "tc_Enabled cfg \<Longrightarrow> tg_provider g' = p"
  using assms
  by (auto simp: tracing_Init_def tracing_Enabled_def setRuntime_def Let_def split: if_splits option.splits sum.splits)

end
