(* ===== verification/Server.thy ===== *)
theory Server
  imports Router_Laws Database Kafka Tracing_Setup
begin

text \<open>
  The server command (\<open>cmd/server/main.go\<close>): the set-up in its order, with every way it ends
  early, and the end of the process with the deferred calls. \<open>log.Fatal\<close> exits without running
  them; a panic of \<open>NewRouter\<close> and a return run them, last registered first. The libraries are
  the fields of \<open>main_libs\<close>; which case of the final \<open>select\<close> is ready is an argument.
\<close>

section \<open>Set-up\<close>

record ('r, 'k) main_libs =
  ml_otel :: otel_lib
  ml_redis_NewClient :: "redis_Options \<Rightarrow> 'r Cache"
  ml_mongo :: mongo_lib
  ml_events :: event_lib
  ml_kafka_Writer :: "writer_Config \<Rightarrow> 'k messageWriter"
  ml_zap_NewProduction :: "go_error option"
  ml_zap_Sync :: "go_error option"
  ml_pgx :: pgxpool_lib
  ml_router :: "('r, 'k transport) libs"
  ml_pings :: pings

datatype deferred = ShutdownTracer | ClosePublisher | SyncLogger | CloseDB nat

record ('r, 'k) running =
  run_Engine :: "('r, 'k transport) engine"
  run_Pool :: nat
  run_Publisher :: "'k transport Publisher"
  run_Tracer :: "tracer_provider option"

datatype ('r, 'k) startup =
    Fatal string
  | Panicked string "tracer_provider option" "'k transport Publisher" nat
  | Serving "('r, 'k) running"

text \<open>
  The part that follows the two secrets; it reads the environment and changes nothing of the
  world. The calls are those on the database's pool.
\<close>

definition main_connect ::
  "('r, 'k) main_libs \<Rightarrow> go_rt \<Rightarrow> tracing_globals \<Rightarrow>
     ('r, 'k) startup \<times> pool_call list \<times> tracing_globals" where
  "main_connect ml rt g =
     (case tracing_Init (ml_otel ml) (tracing_ConfigFromEnv rt) g of
        (Inl err, g) \<Rightarrow> (Fatal (''tracing: '' @ error_text err), [], g)
      | (Inr tracerProvider, g) \<Rightarrow>
          (case NewRedisClient rt of
             Inl err \<Rightarrow> (Fatal (''redis: '' @ error_text err), [], g)
           | Inr opts \<Rightarrow>
               let redisClient = ml_redis_NewClient ml opts
               in case SetupMongoDB (ml_mongo ml) rt of
                    (Inl err, _) \<Rightarrow> (Fatal (''mongo: '' @ error_text err), [], g)
                  | (Inr collection, _) \<Rightarrow>
                      (case NewFromEnv (ml_events ml) (ml_kafka_Writer ml) rt of
                         Inl err \<Rightarrow> (Fatal (''events: '' @ error_text err), [], g)
                       | Inr publisher \<Rightarrow>
                           (case ml_zap_NewProduction ml of
                              Some err \<Rightarrow> (Fatal (''logger: '' @ error_text err), [], g)
                            | None \<Rightarrow>
                                (case NewDatabase (ml_pgx ml) rt of
                                   (None, calls) \<Rightarrow>
                                     (Fatal ''database: could not connect or migrate (see logs above)'', calls, g)
                                 | (Some db, calls) \<Rightarrow>
                                     (case NewRouter (ml_router ml) (ml_pings ml) True (Some redisClient)
                                             (Some publisher) rt of
                                        Inl err \<Rightarrow> (Panicked (error_text err) tracerProvider publisher db, calls, g)
                                      | Inr r \<Rightarrow>
                                          (Serving \<lparr>run_Engine = r, run_Pool = db, run_Publisher = publisher,
                                             run_Tracer = tracerProvider\<rparr>, calls, g)))))))"

definition main_setup ::
  "('r, 'k) main_libs \<Rightarrow> tracing_globals \<Rightarrow> (pg, 'r, 'k transport) world \<Rightarrow>
     (('r, 'k) startup \<times> pool_call list \<times> tracing_globals) \<times> (pg, 'r, 'k transport) world" where
  "main_setup ml g w =
     (case SetJWTSigningKey (rt_env (w_rt w) ''JWT_SECRET_KEY'') w of
        (Inl err, w) \<Rightarrow> ((Fatal (''invalid JWT_SECRET_KEY: '' @ error_text err), [], g), w)
      | (Inr _, w) \<Rightarrow>
          (case SetAPISecretKey (rt_env (w_rt w) ''API_SECRET_KEY'') w of
             (Inl err, w) \<Rightarrow> ((Fatal (''invalid API_SECRET_KEY: '' @ error_text err), [], g), w)
           | (Inr _, w) \<Rightarrow> (main_connect ml (w_rt w) g, w)))"

section \<open>The end of the process\<close>

definition ignorableZapSyncErr :: "go_error option \<Rightarrow> bool" where
  "ignorableZapSyncErr err =
     (case err of
        None \<Rightarrow> True
      | Some err \<Rightarrow>
          if errors_is err EINVAL \<or> errors_is err EBADF then True
          else
            (case as_PathError err of
               Some inner \<Rightarrow> if errors_is inner EINVAL \<or> errors_is inner EBADF then True else False
             | None \<Rightarrow> False))"

text \<open>
  The ready case of the \<open>select\<close>: what \<open>ListenAndServe\<close> returned, or the signal, with what
  \<open>Shutdown\<close> then returns and what \<open>ListenAndServe\<close> returns after it.
\<close>

datatype select_case = ErrCh "go_error option" | SignalDone "go_error option" "go_error option"

datatype ending =
    StartupFatal string
  | StartupPanic string "string list"
  | ServerFatal string
  | Returned "string list"

definition note_error :: "string \<Rightarrow> go_error option \<Rightarrow> string list" where
  "note_error what err = (case err of None \<Rightarrow> [] | Some e \<Rightarrow> [what @ '': '' @ error_text e])"

text \<open>One deferred call: the lines it logs, and the state of the pool and of the transport after it.\<close>

fun run_deferred ::
  "('r, 'k) main_libs \<Rightarrow> tracer_provider option \<Rightarrow> 'k transport Publisher \<Rightarrow> deferred \<Rightarrow>
     string list \<times> pool_call list \<times> 'k transport \<Rightarrow> string list \<times> pool_call list \<times> 'k transport" where
  "run_deferred ml tp pub (CloseDB db) (logged, calls, k) = (logged, calls @ [ClosePool db], k)"
| "run_deferred ml tp pub SyncLogger (logged, calls, k) =
     (if ml_zap_Sync ml \<noteq> None \<and> \<not> ignorableZapSyncErr (ml_zap_Sync ml)
      then (logged @ note_error ''logger sync'' (ml_zap_Sync ml), calls, k) else (logged, calls, k))"
| "run_deferred ml tp pub ClosePublisher (logged, calls, k) =
     (case pb_Close pub k of
        (Inl err, k) \<Rightarrow> (logged @ note_error ''events publisher close'' (Some err), calls, k)
      | (Inr _, k) \<Rightarrow> (logged, calls, k))"
| "run_deferred ml tp pub ShutdownTracer (logged, calls, k) =
     (logged @ note_error ''tracing shutdown'' (tracing_Shutdown (ml_otel ml) (Some tp)), calls, k)"

text \<open>The deferred calls of \<open>main\<close> in the order they are registered.\<close>

definition main_defers :: "nat \<Rightarrow> deferred list" where
  "main_defers db = [ShutdownTracer, ClosePublisher, SyncLogger, CloseDB db]"

definition run_defers ::
  "('r, 'k) main_libs \<Rightarrow> tracer_provider option \<Rightarrow> 'k transport Publisher \<Rightarrow> nat \<Rightarrow>
     string list \<times> pool_call list \<times> 'k transport \<Rightarrow> string list \<times> pool_call list \<times> 'k transport" where
  "run_defers ml tp pub db = fold (run_deferred ml tp pub) (rev (main_defers db))"

definition server_closed :: "go_error option \<Rightarrow> bool" where
  "server_closed err = (case err of None \<Rightarrow> True | Some e \<Rightarrow> errors_is e ErrServerClosed)"

text \<open>
  The whole of \<open>main\<close>, with the ready case and the transport as it is when the server ends.
\<close>

definition server_main ::
  "('r, 'k) main_libs \<Rightarrow> tracing_globals \<Rightarrow> select_case \<Rightarrow> (pg, 'r, 'k transport) world \<Rightarrow>
     ending \<times> pool_call list \<times> 'k transport" where
  "server_main ml g ready w =
     (case main_setup ml g w of
        ((Fatal msg, calls, _), w) \<Rightarrow> (StartupFatal msg, calls, w_pub w)
      | ((Panicked msg tp pub db, calls, _), w) \<Rightarrow>
          let (logged, calls, k) = run_defers ml tp pub db ([], calls, w_pub w)
          in (StartupPanic msg logged, calls, k)
      | ((Serving s, calls, _), w) \<Rightarrow>
          (case ready of
             ErrCh err \<Rightarrow>
               if \<not> server_closed err
               then (ServerFatal (''http server: '' @ (case err of None \<Rightarrow> '''' | Some e \<Rightarrow> error_text e)), calls, w_pub w)
               else
                 let (logged, calls, k) = run_defers ml (run_Tracer s) (run_Publisher s) (run_Pool s) ([], calls, w_pub w)
                 in (Returned logged, calls, k)
           | SignalDone shutdown_err exit_err \<Rightarrow>
               let logged = note_error ''server shutdown'' shutdown_err @
                     (if server_closed exit_err then [] else note_error ''server exit'' exit_err);
                   (logged, calls, k) =
                     run_defers ml (run_Tracer s) (run_Publisher s) (run_Pool s) (logged, calls, w_pub w)
               in (Returned logged, calls, k)))"

section \<open>Laws\<close>

text \<open>The last test of \<open>ignorableZapSyncErr\<close> adds nothing: \<open>errors.Is\<close> unwraps a path error itself.\<close>

lemma as_PathError_chain: "as_PathError e = Some c \<Longrightarrow> errors_is e t \<longleftrightarrow> errors_is c t"
  by (induction e rule: as_PathError.induct) auto

lemma ignorable_iff:
  "ignorableZapSyncErr err \<longleftrightarrow> (case err of None \<Rightarrow> True | Some e \<Rightarrow> errors_is e EINVAL \<or> errors_is e EBADF)"
  by (auto simp: ignorableZapSyncErr_def as_PathError_chain split: option.split)

lemma run_deferred_calls:
  "fst (snd (run_deferred ml tp pub d st)) = fst (snd st) @ (case d of CloseDB db \<Rightarrow> [ClosePool db] | _ \<Rightarrow> [])"
  by (cases "(ml, tp, pub, d, st)" rule: run_deferred.cases) (auto split: prod.split sum.split)

lemma run_defers_calls: "fst (snd (run_defers ml tp pub db (logged, calls, k))) = calls @ [ClosePool db]"
  by (simp add: run_defers_def main_defers_def run_deferred_calls)

text \<open>What the database part of the set-up leaves open.\<close>

lemma open_pools_close:
  assumes "open_pools px cs = [i]"
  shows "open_pools px (cs @ [ClosePool i]) = []"
proof -
  have "open_pools px (cs @ [ClosePool i]) = filter (\<lambda>j. j \<noteq> i) (open_pools px cs)" for cs
    by (induction cs rule: open_pools.induct [of _ px]) auto
  with assms show ?thesis by simp
qed

end
