(* ===== verification/Server_Theorems.thy ===== *)
theory Server_Theorems
  imports Server Demo_Http Rate_Theorems
begin

text \<open>
  The properties of the start and the end of the server: what holds when it starts to serve, that
  the key it demands is the configured one, that no database connection is left behind; and the
  range of what the set-up reads from the environment.
\<close>

section \<open>Settings\<close>

text \<open>
  C37. Whatever the environment holds, the settings read from it are in range: the password cost
  lies between 10 and 31, tokens have a positive lifetime, the rate limiter a positive limit and
  window and one of its two backends, and the request deadline is not negative. The set-up of the
  clients either fails or is in range: the Redis options have an address, a database number that is
  not negative, positive timeouts and, when TLS is on, at least version 1.2; the Kafka settings have
  a broker, a topic prefix and a positive timeout; the pool has between 1 and 2^31 - 1 connections,
  of which at least one and at most all are kept idle, and positive lifetimes; tracing has a service
  name and one of its three exporters.
\<close>

theorem setup_settings_in_range:
  "10 \<le> bcryptCostForPasswordHashing rt \<and> bcryptCostForPasswordHashing rt \<le> 31 \<and>
    0 < AccessTokenTTL rt \<and> 0 < RefreshTokenTTL rt \<and>
    0 < rc_Requests (RateLimitConfigFromEnv rt) \<and> 0 < rc_Window (RateLimitConfigFromEnv rt) \<and>
    rc_Backend (RateLimitConfigFromEnv rt) \<in> {rateLimitBackendRedis, rateLimitBackendMemory} \<and>
    0 \<le> requestContextTimeoutDurationFromEnv rt \<and>
    (case redisOptionsFromEnv rt of
      Inl err \<Rightarrow> True
    | Inr op \<Rightarrow> ro_Addr op \<noteq> '''' \<and> 0 \<le> ro_DB op \<and> 0 < ro_DialTimeout op \<and> 0 < ro_ReadTimeout op \<and>
        0 < ro_WriteTimeout op \<and>
        (case ro_TLSConfig op of None \<Rightarrow> True | Some cfg \<Rightarrow> VersionTLS12 \<le> tls_MinVersion cfg)) \<and>
    (case kafka_ConfigFromEnv rt of
       Inl err \<Rightarrow> True
     | Inr cfg \<Rightarrow> kc_Brokers cfg \<noteq> [] \<and> '''' \<notin> set (kc_Brokers cfg) \<and> kc_TopicPrefix cfg \<noteq> '''' \<and>
         0 < kc_PublishTimeout cfg) \<and>
    (let pc = applyPoolConfig rt cfg0
     in 1 \<le> sint (pc_MinIdleConns pc) \<and> sint (pc_MinIdleConns pc) \<le> sint (pc_MaxConns pc) \<and>
        0 < pc_MaxConnLifetime pc \<and> 0 < pc_MaxConnIdleTime pc) \<and>
    tc_ServiceName (tracing_ConfigFromEnv rt) \<noteq> '''' \<and>
    tc_Exporter (tracing_ConfigFromEnv rt) \<in> {exporterOTLP, exporterStdout, exporterNone}"
proof (intro conjI)
  show "case redisOptionsFromEnv rt of
      Inl err \<Rightarrow> True
    | Inr op \<Rightarrow> ro_Addr op \<noteq> '''' \<and> 0 \<le> ro_DB op \<and> 0 < ro_DialTimeout op \<and> 0 < ro_ReadTimeout op \<and>
        0 < ro_WriteTimeout op \<and>
        (case ro_TLSConfig op of None \<Rightarrow> True | Some cfg \<Rightarrow> VersionTLS12 \<le> tls_MinVersion cfg)"
    using redis_options_range [of rt] redis_tls_version [of rt]
    by (auto split: sum.split option.split)
  show "case kafka_ConfigFromEnv rt of
       Inl err \<Rightarrow> True
     | Inr cfg \<Rightarrow> kc_Brokers cfg \<noteq> [] \<and> '''' \<notin> set (kc_Brokers cfg) \<and> kc_TopicPrefix cfg \<noteq> '''' \<and>
         0 < kc_PublishTimeout cfg"
    using kafka_config_range [of rt] split_trimmed_nonempty by (fastforce split: sum.split)
  have "0 < getenvPositiveInt rt ''POSTGRES_MAX_OPEN_CONNS'' defaultPostgresMaxOpenConns"
    "0 < getenvPositiveInt rt ''POSTGRES_MAX_IDLE_CONNS'' defaultPostgresMaxIdleConns"
    using getenvPositiveInt_range by (simp_all add: defaultPostgresMaxOpenConns_def defaultPostgresMaxIdleConns_def max_int64_def)
  moreover have "0 < getenvPositiveDuration rt ''POSTGRES_CONN_MAX_LIFETIME'' defaultPostgresConnMaxLifetime"
    "0 < getenvPositiveDuration rt ''POSTGRES_CONN_MAX_IDLE_TIME'' defaultPostgresConnMaxIdleTime"
    using getenvPositiveDuration_pos
    by (simp_all add: defaultPostgresConnMaxLifetime_def defaultPostgresConnMaxIdleTime_def hour_def minute_def)
  ultimately show "let pc = applyPoolConfig rt cfg0
     in 1 \<le> sint (pc_MinIdleConns pc) \<and> sint (pc_MinIdleConns pc) \<le> sint (pc_MaxConns pc) \<and>
        0 < pc_MaxConnLifetime pc \<and> 0 < pc_MaxConnIdleTime pc"
    by (auto simp: applyPoolConfig_def clampToInt32_value MaxInt32_def min_def max_def Let_def)
qed (use settings_in_range [of rt] tracing_config_range [of rt] in \<open>blast+\<close>)

section \<open>The pool\<close>

lemma main_connect_pools:
  "main_connect ml rt g = (st, calls, g') \<Longrightarrow>
     open_pools (ml_pgx ml) calls =
       (case st of Fatal msg \<Rightarrow> [] | Panicked msg tp pub db \<Rightarrow> [db] | Serving s \<Rightarrow> [run_Pool s])"
  using NewDatabase_open [of "ml_pgx ml" rt]
  by (auto simp: main_connect_def Let_def split: sum.splits prod.splits option.splits)

lemma main_setup_pools:
  "main_setup ml g w = ((st, calls, g'), w') \<Longrightarrow>
     open_pools (ml_pgx ml) calls =
       (case st of Fatal msg \<Rightarrow> [] | Panicked msg tp pub db \<Rightarrow> [db] | Serving s \<Rightarrow> [run_Pool s])"
  using main_connect_pools [of ml]
  by (auto simp: main_setup_def split: sum.splits prod.splits)

text \<open>
  C35. However the server ends, its database pool is closed, with one exception: when
  \<open>ListenAndServe\<close> fails by itself the process exits at once and leaves the pool to the operating
  system. A set-up that fails leaves no pool open, whether it exits or panics.
\<close>

theorem server_closes_its_pool:
  "case server_main ml g ready w of
     (StartupFatal msg, calls, k) \<Rightarrow> open_pools (ml_pgx ml) calls = []
   | (StartupPanic msg logged, calls, k) \<Rightarrow> open_pools (ml_pgx ml) calls = []
   | (Returned logged, calls, k) \<Rightarrow> open_pools (ml_pgx ml) calls = []
   | (ServerFatal msg, calls, k) \<Rightarrow>
       (\<exists>db err. open_pools (ml_pgx ml) calls = [db] \<and> ready = ErrCh err \<and> \<not> server_closed err)"
proof -
  obtain st calls g' w' where run: "main_setup ml g w = ((st, calls, g'), w')" by (metis surj_pair)
  note pools = main_setup_pools [OF run]
  have defers: "open_pools (ml_pgx ml) calls = [db] \<Longrightarrow>
      run_defers ml tp pub db (logged, calls, k) = (logged', calls', k') \<Longrightarrow> open_pools (ml_pgx ml) calls' = []"
    for tp pub db logged k logged' calls' k'
    using run_defers_calls [of ml tp pub db logged calls k] open_pools_close by simp
  show ?thesis
  proof (cases st)
    case (Fatal msg)
    with run pools show ?thesis by (simp add: server_main_def)
  next
    case (Panicked msg tp pub db)
    with run pools defers show ?thesis by (auto simp: server_main_def Let_def split: prod.split)
  next
    case (Serving s)
    with run pools defers show ?thesis
      by (cases ready) (auto simp: server_main_def Let_def split: prod.split)
  qed
qed

section \<open>The key of the running server\<close>

lemma main_setup_serving:
  assumes "main_setup ml g w = ((Serving s, calls, g'), w')"
  shows "w_jwtkey w' = rt_env (w_rt w) ''JWT_SECRET_KEY''" "w_apikey w' = rt_env (w_rt w) ''API_SECRET_KEY''"
    and "MinJWTSecretKeyBytes \<le> length (w_jwtkey w')" "MinAPISecretKeyBytes \<le> length (w_apikey w')"
    and "\<exists>redis pub. NewRouter (ml_router ml) (ml_pings ml) True (Some redis) (Some pub) (w_rt w) = Inr (run_Engine s)"
proof -
  have connect: "\<exists>redis pub. NewRouter (ml_router ml) (ml_pings ml) True (Some redis) (Some pub) rt = Inr (run_Engine s)"
    if "main_connect ml rt g = (Serving s, calls, g')" for rt
    using that by (auto simp: main_connect_def Let_def split: sum.splits prod.splits option.splits) blast
  show "w_jwtkey w' = rt_env (w_rt w) ''JWT_SECRET_KEY''" "w_apikey w' = rt_env (w_rt w) ''API_SECRET_KEY''"
    "MinJWTSecretKeyBytes \<le> length (w_jwtkey w')" "MinAPISecretKeyBytes \<le> length (w_apikey w')"
    "\<exists>redis pub. NewRouter (ml_router ml) (ml_pings ml) True (Some redis) (Some pub) (w_rt w) = Inr (run_Engine s)"
    using assms connect
    by (auto simp: main_setup_def SetJWTSigningKey_def SetAPISecretKey_def split: sum.splits prod.splits if_splits)
qed

text \<open>
  C28. A server that got as far as serving demands the key of its environment: in every later state
  whose keys are those of the start, a request on a route behind the API key that presents anything
  but the value of \<open>API_SECRET_KEY\<close>, which has at least 32 bytes, is refused without effect and
  without data.
\<close>

theorem served_api_demands_configured_key:
  assumes "main_setup ml g w = ((Serving s, calls, g'), w')" and "libs_transparent (ml_router ml)"
    and "w_apikey v = w_apikey w'" and "(g_Method c, g_FullPath c) \<in> set keyed_routes" and "key_sizes c v"
    and "g_GetHeader c ''X-API-Key'' \<noteq> rt_env (w_rt w) ''API_SECRET_KEY''"
  shows "answered c v (ServeHTTP (run_Engine s) c v) \<and> 32 \<le> length (rt_env (w_rt w) ''API_SECRET_KEY'')"
proof -
  note serving = main_setup_serving [OF assms(1)]
  obtain redis pub where
    r: "NewRouter (ml_router ml) (ml_pings ml) True (Some redis) (Some pub) (w_rt w) = Inr (run_Engine s)"
    using serving(5) by blast
  have "\<not> key_presented c v" using assms(3,6) serving(2) by (simp add: key_presented_def)
  with api_key_gate [OF r assms(2,4,5)] serving(2,4) show ?thesis by (simp add: MinAPISecretKeyBytes_def)
qed

section \<open>A start\<close>

text \<open>Everything answers, both secrets are set, events are off.\<close>

definition demo_pgx :: pgxpool_lib where
  "demo_pgx = \<lparr>px_ParseConfig = \<lambda>url. Inr \<lparr>pc_ConnString = url, pc_MaxConns = 4, pc_MinIdleConns = 0,
       pc_MaxConnLifetime = hour, pc_MaxConnIdleTime = hour\<rparr>,
     px_NewWithConfig = \<lambda>i. None, px_Ping = \<lambda>i. None, px_Exec = \<lambda>i. None\<rparr>"

definition demo_main :: "(unit, unit) main_libs" where
  "demo_main = \<lparr>ml_otel = \<lparr>ot_resource = \<lambda>s. None, ot_exporter = \<lambda>e. None, ot_Shutdown = \<lambda>p. None\<rparr>,
     ml_redis_NewClient = \<lambda>op. \<lparr>c_Get = \<lambda>k r. (Inl (Sentinel ErrRedisNil), r), c_Set = \<lambda>k v d r. (Inr (), r),
       c_Incr = \<lambda>k r. (Inr 1, r), c_Eval = \<lambda>sc ks as r. (Inr 1, r), c_Del = \<lambda>ks r. (Inr 0, r)\<rparr>,
     ml_mongo = \<lparr>mg_Connect = \<lambda>u. None, mg_Ping = \<lambda>u. None\<rparr>,
     ml_events = \<lparr>el_uuid = show_nat, el_Marshal = \<lambda>e. Inr '''', el_Unmarshal = \<lambda>v. Inl (ErrText '''')\<rparr>,
     ml_kafka_Writer = \<lambda>c. \<lparr>mw_WriteMessages = \<lambda>t m k. (Inr (), k), mw_Close = \<lambda>k. (Inr (), k)\<rparr>,
     ml_zap_NewProduction = None, ml_zap_Sync = None, ml_pgx = demo_pgx, ml_router = demo_libs, ml_pings = demo_pings\<rparr>"

definition demo_start_rt :: go_rt where
  "demo_start_rt = demo_off\<lparr>rt_env :=
     \<lambda>n. if n \<in> {''JWT_SECRET_KEY'', ''API_SECRET_KEY''} then demo_key else rt_env demo_off n\<rparr>"

definition demo_cold :: "(pg, unit, unit transport) world" where
  "demo_cold = (demo_world demo_pg () \<lparr>kt_draws = 0, kt_broker = ()\<rparr>)\<lparr>w_rt := demo_start_rt\<rparr>"

lemma demo_start_env:
  "rt_env demo_start_rt n = (if n \<in> {''JWT_SECRET_KEY'', ''API_SECRET_KEY''} then demo_key
     else if n \<in> {''RATE_LIMIT_ENABLED'', ''METRICS_ENABLED''} then ''off'' else '''')"
  by (simp add: demo_start_rt_def demo_env)

lemma demo_start_router:
  "\<exists>r. NewRouter demo_libs demo_pings True redis publisher demo_start_rt = Inr r"
proof (rule NewRouter_ok)
  show "lb_SetTrustedProxies demo_libs (trustedProxyList demo_start_rt) = None" by (simp add: demo_libs_def)
  show "maxRequestBodyBytesFromEnv demo_start_rt = Inr DefaultMaxRequestBodyBytes"
    by (simp add: maxRequestBodyBytesFromEnv_def demo_start_env TrimSpace_words)
  have "\<not> mc_Enabled (ms_cfg (MetricsFromEnv demo_start_rt))"
    by (simp add: MetricsFromEnv_def NewMetrics_def MetricsConfigFromEnv_def demo_start_env TrimSpace_words
        DefaultMetricsPath_def del: ToLower.simps)
  then show "distinct (router_paths demo_start_rt)" by (simp add: router_paths_def)
qed

lemma demo_starts:
  "\<exists>s calls g w. main_setup demo_main tracing_initial demo_cold = ((Serving s, calls, g), w) \<and> w_apikey w = demo_key"
proof -
  have off: "\<not> tc_Enabled (tracing_ConfigFromEnv demo_start_rt)"
    by (simp add: tracing_config_range(3) truthy_def demo_start_env TrimSpace_words)
  obtain g where tracing: "tracing_Init (ml_otel demo_main) (tracing_ConfigFromEnv demo_start_rt) tracing_initial = (Inr None, g)"
    using off by (simp add: tracing_Init_def Let_def)
  have dur: "cache_durationFromEnv demo_start_rt ''REDIS_DIAL_TIMEOUT'' d = Inr d" "cache_durationFromEnv demo_start_rt ''REDIS_READ_TIMEOUT'' d = Inr d"
    "cache_durationFromEnv demo_start_rt ''REDIS_WRITE_TIMEOUT'' d = Inr d" "redis_db demo_start_rt = Inr 0" for d
    by (simp_all add: cache_durationFromEnv_def redis_db_def trimmed_env_def demo_start_env TrimSpace_words)
  obtain opts where redis: "NewRedisClient demo_start_rt = Inr opts"
    using dur by (simp add: NewRedisClient_def redisOptionsFromEnv_def)
  obtain mcalls where mongo: "SetupMongoDB (ml_mongo demo_main) demo_start_rt = (Inr (''logging'', ''logs''), mcalls)"
    by (simp add: SetupMongoDB_def demo_main_def Let_def)
  have events: "NewFromEnv (ml_events demo_main) (ml_kafka_Writer demo_main) demo_start_rt = Inr NopPublisher"
    by (simp add: NewFromEnv_def trimmed_env_def demo_start_env TrimSpace_words)
  have "fst (NewDatabase demo_pgx demo_start_rt) = Some 1"
    by (simp add: NewDatabase_calls good_attempt_def demo_pgx_def Let_def)
  then obtain calls where db: "NewDatabase (ml_pgx demo_main) demo_start_rt = (Some 1, calls)"
    by (cases "NewDatabase demo_pgx demo_start_rt") (simp add: demo_main_def)
  obtain r where r: "NewRouter (ml_router demo_main) (ml_pings demo_main) True
      (Some (ml_redis_NewClient demo_main opts)) (Some NopPublisher) demo_start_rt = Inr r"
    using demo_start_router by (auto simp: demo_main_def)
  have zap: "ml_zap_NewProduction demo_main = None" by (simp add: demo_main_def)
  have keys: "rt_env demo_start_rt ''JWT_SECRET_KEY'' = demo_key" "rt_env demo_start_rt ''API_SECRET_KEY'' = demo_key"
      "w_rt demo_cold = demo_start_rt" "length demo_key = 32"
    by (simp_all add: demo_cold_def demo_start_env demo_key_def)
  show ?thesis
    by (simp add: main_setup_def SetJWTSigningKey_def SetAPISecretKey_def keys MinJWTSecretKeyBytes_def
        MinAPISecretKeyBytes_def main_connect_def tracing redis mongo events zap db r)
qed

theorem served_api_demands_configured_key_witness:
  "\<exists>s calls g w. main_setup demo_main tracing_initial demo_cold = ((Serving s, calls, g), w) \<and>
     answered (demo_request ''POST'' ''/api/v1/login'' (\<lambda>n. '''')) w
       (ServeHTTP (run_Engine s) (demo_request ''POST'' ''/api/v1/login'' (\<lambda>n. '''')) w)"
proof -
  obtain s calls g w where start: "main_setup demo_main tracing_initial demo_cold = ((Serving s, calls, g), w)"
      and key: "w_apikey w = demo_key" using demo_starts by blast
  let ?c = "demo_request ''POST'' ''/api/v1/login'' (\<lambda>n. '''')"
  have here: "libs_transparent (ml_router demo_main)" "(g_Method ?c, g_FullPath ?c) \<in> set keyed_routes" "key_sizes ?c w"
    "g_GetHeader ?c ''X-API-Key'' \<noteq> rt_env (w_rt demo_cold) ''API_SECRET_KEY''"
    by (simp_all add: demo_main_def demo_libs_transparent demo_request_def keyed_routes_def key_sizes_def key
        demo_cold_def demo_start_env demo_key_def)
  from served_api_demands_configured_key [OF start here(1) refl here(2-4)] start show ?thesis by blast
qed

end
