(* ===== verification/Observability_Theorems.thy ===== *)
theory Observability_Theorems
  imports Observability
begin

text \<open>
  The properties of what surrounds every request: its identifier, and the bounded queue that
  takes the access log to MongoDB.
\<close>

text \<open>
  C40. Every request that passes \<open>RequestID\<close> goes on with one identifier that is not empty, the same
  for the handlers, for what only has the context, and in the response's header: the client's, with
  the white space trimmed, if it sent one; else a random version 4 UUID, or \<open>unknown\<close> when the
  random source fails.
\<close>

theorem request_identifier_wellformed:
  "\<exists>c' w' rid. RequestID next c w = next c' w' \<and>
     GetRequestID (Some c') = rid \<and> GetRequestIDFromContext (Some c') = rid \<and>
     g_Headers c' RequestIDHeader = Some rid \<and> rid \<noteq> '''' \<and>
     (if TrimSpace (g_GetHeader c RequestIDHeader) \<noteq> ''''
      then rid = TrimSpace (g_GetHeader c RequestIDHeader) \<and> w' = w
      else if fst (rand_read 16 (w_rt w)) = None then rid = ''unknown'' else uuid_v4 rid)"
proof -
  define hdr where "hdr = TrimSpace (g_GetHeader c RequestIDHeader)"
  define drawn where "drawn = (if hdr = '''' then on_rt newRequestID w else (hdr, w))"
  define rid where "rid = (if fst drawn = '''' then ''unknown'' else fst drawn)"
  define c' where "c' = (set_header RequestIDHeader rid (set_key requestIDGinKey (VStr rid) c))\<lparr>g_CtxRequestID := Some rid\<rparr>"
  have run: "RequestID next c w = next c' (snd drawn)"
    by (simp add: RequestID_def c'_def rid_def drawn_def hdr_def Let_def split_def)
  have read: "GetRequestID (Some c') = rid" "GetRequestIDFromContext (Some c') = rid"
    "g_Headers c' RequestIDHeader = Some rid" "rid \<noteq> ''''"
    by (simp_all add: c'_def GetRequestID_def GetRequestIDFromContext_def set_header_def set_key_def rid_def)
  have shape: "uuid_v4 rid" if "hdr = ''''" "fst (rand_read 16 (w_rt w)) = Some b" for b
  proof -
    have "uuid_v4 (fst (newRequestID (w_rt w)))" by (rule newRequestID_shape [OF that(2)])
    moreover from this have "fst (newRequestID (w_rt w)) \<noteq> ''''" by (auto simp: uuid_v4_def)
    ultimately show ?thesis using that(1) by (simp add: rid_def drawn_def on_rt_eq)
  qed
  have failed: "rid = ''unknown''" if "hdr = ''''" "fst (rand_read 16 (w_rt w)) = None"
    using that by (cases "rand_read 16 (w_rt w)") (simp add: rid_def drawn_def on_rt_eq newRequestID_def)
  have given: "rid = hdr \<and> snd drawn = w" if "hdr \<noteq> ''''" using that by (simp add: rid_def drawn_def)
  show ?thesis
    using run read shape failed given unfolding hdr_def by (intro exI [of _ c'] exI [of _ "snd drawn"] exI [of _ rid]) auto
qed

text \<open>
  C39. The access-log queue, from its start on, whatever requests and worker do in between: it never
  holds more than its 256 entries, and the worker takes first in, first out. The entries it took
  followed by those that wait are a subsequence of the entries offered, and the drop counter is the
  number of the others, modulo \<open>2^64\<close>.
\<close>

theorem access_log_queue_accounts:
  "let start = ob\<lparr>ob_ch := [], ob_dropped := 0\<rparr>; final = queue_run es start
   in length (ob_ch final) \<le> mongoAccessLogQueueSize \<and> subseq (taken es start @ ob_ch final) (offered es) \<and>
      ob_dropped final = of_nat (length (offered es) - length (taken es start @ ob_ch final))"
proof -
  let ?start = "ob\<lparr>ob_ch := [], ob_dropped := 0\<rparr>"
  obtain kept where "subseq kept (offered es)" "ob_ch ?start @ kept = taken es ?start @ ob_ch (queue_run es ?start)"
      "ob_dropped (queue_run es ?start) = ob_dropped ?start + of_nat (length (offered es) - length kept)"
    using queue_accounting [of es ?start] by blast
  moreover have "length (ob_ch (queue_run es ?start)) \<le> mongoAccessLogQueueSize"
    by (rule queue_bounded) (simp add: mongoAccessLogQueueSize_def)
  ultimately show ?thesis by (simp add: Let_def)
qed

end
