(* ===== verification/Metrics_Flow.thy ===== *)
theory Metrics_Flow
  imports Router_Laws Demo_Http
begin

text \<open>
  What is recorded of a request through the whole stack: the counter and the gauge of the metrics,
  the line and the document of the access log, and the span. No service and no handler touches
  the records, nor what of the request they describe (\<open>calm\<close>); so the outermost middlewares alone
  decide what is recorded, once for each request.
\<close>

section \<open>The services record nothing\<close>

lemma on_world_obs [simp]:
  "w_obs (snd (on_store f w)) = w_obs w" "w_obs (snd (on_redis g w)) = w_obs w"
  "w_obs (snd (on_pub h w)) = w_obs w" "w_obs (snd (on_rt t w)) = w_obs w"
  by (simp_all add: on_world)

lemma GenerateToken_obs [simp]: "w_obs (snd (GenerateToken lib n i role w)) = w_obs w"
  by (simp add: GenerateToken_def on_world Let_def split: sum.split prod.split)

text \<open>A denylist that records nothing, as both of the environment are.\<close>

definition silent :: "('s, 'r, 'p) TokenDenylist \<Rightarrow> bool" where
  "silent dl \<longleftrightarrow> (\<forall>j t w. w_obs (snd (dl_Deny dl j t w)) = w_obs w) \<and> (\<forall>j w. w_obs (snd (dl_IsDenied dl j w)) = w_obs w) \<and>
     (\<forall>u t w. w_obs (snd (dl_DenyUserBefore dl u t w)) = w_obs w) \<and> (\<forall>u t w. w_obs (snd (dl_IsUserRevoked dl u t w)) = w_obs w)"

lemma denylist_silent: "silent (NewTokenDenylistFromEnv redis rt)"
  by (auto simp: silent_def NewTokenDenylistFromEnv_def NoopDenylist_def RedisDenylist_def rd_Deny_def rd_IsDenied_def
      rd_DenyUserBefore_def rd_IsUserRevoked_def on_world Let_def split: option.split sum.split)

lemma silentD:
  assumes "silent dl"
  shows "w_obs (snd (dl_Deny dl j t w)) = w_obs w" "w_obs (snd (dl_IsDenied dl j w)) = w_obs w"
    "w_obs (snd (dl_DenyUserBefore dl u t w)) = w_obs w" "w_obs (snd (dl_IsUserRevoked dl u t w)) = w_obs w"
  using assms by (auto simp: silent_def)

lemma book_service_obs [simp]:
  "w_obs (snd (ListBooks json s q w)) = w_obs w" "w_obs (snd (GetBook s i w)) = w_obs w"
  "w_obs (snd (svc_CreateBook s a t au w)) = w_obs w" "w_obs (snd (svc_ReplaceBook s a i t au w)) = w_obs w"
  "w_obs (snd (svc_PatchBook s a i t' au' w)) = w_obs w" "w_obs (snd (svc_DeleteBook s a i w)) = w_obs w"
proof -
  have commit: "w_obs (after_commit s et b v) = w_obs v" for et b v
    by (simp add: after_commit_def publishBookEvent_def bumpListCacheGeneration_def on_world Let_def split: option.split)
  have own: "w_obs (snd (owned s a i stmt et f w)) = w_obs w" for stmt et f
    by (simp add: owned_def commit split: prod.split sum.split)
  show "w_obs (snd (svc_CreateBook s a t au w)) = w_obs w"
    by (simp add: create_eq commit split: prod.split sum.split)
  show "w_obs (snd (svc_ReplaceBook s a i t au w)) = w_obs w" "w_obs (snd (svc_PatchBook s a i t' au' w)) = w_obs w"
    "w_obs (snd (svc_DeleteBook s a i w)) = w_obs w"
    by (simp_all add: owned_eqs own)
  show "w_obs (snd (GetBook s i w)) = w_obs w" by (simp add: GetBook_def)
  show "w_obs (snd (ListBooks json s q w)) = w_obs w"
  proof (cases "sv_redis s")
    case (Some redis)
    obtain gen w1 where g: "cacheGeneration s w = (gen, w1)" by (cases "cacheGeneration s w")
    then have "w_obs w1 = w_obs w"
      by (auto simp: cacheGeneration_def on_redis_eq split: option.splits sum.splits if_splits)
    with Some g show ?thesis
      by (auto simp: ListBooks_def Let_def on_redis_eq on_store_eq split: sum.splits option.splits)
  qed (simp add: ListBooks_def on_store_eq)
qed

lemma mint_obs [simp]: "w_obs (snd (mint lib u w)) = w_obs w"
proof (cases "EffectiveRole (u_Role u)")
  case (Inr role)
  obtain r w1 where gen: "GenerateToken lib (u_Username u) (u_ID u) role w = (r, w1)" by (cases "GenerateToken lib (u_Username u) (u_ID u) role w")
  then have "w_obs w1 = w_obs w" by (metis GenerateToken_obs snd_conv)
  with gen Inr show ?thesis by (simp add: mint_def on_rt_eq split: sum.split)
qed (simp add: mint_def)

lemma issue_obs [simp]: "w_obs (snd (issueTokenPairWithFamily lib s u fam w)) = w_obs w"
proof -
  obtain r w1 where m: "mint lib u w = (r, w1)" by (cases "mint lib u w")
  then have "w_obs w1 = w_obs w" by (metis mint_obs snd_conv)
  with m show ?thesis by (auto simp: issue_mint on_world Let_def split: sum.split option.split)
qed

lemma rotate_obs [simp]: "w_obs (snd (rotateRefresh lib s rf row now w)) = w_obs w"
proof -
  have "w_obs (snd (mint lib u v)) = w_obs v" for u v by simp
  then have minted: "mint lib u v = (r, v') \<Longrightarrow> w_obs v' = w_obs v" for u v r v' by (metis snd_conv)
  show ?thesis
    by (auto simp: rotate_mint on_world Let_def split: sum.split prod.split dest!: minted)
qed

lemma user_service_obs:
  assumes "silent (uv_denylist s)"
  shows "w_obs (snd (Login lib s n p w)) = w_obs w" "w_obs (snd (Refresh lib s t w)) = w_obs w"
    "w_obs (snd (Logout lib s u t j e w)) = w_obs w" "w_obs (snd (Register lib s n p w)) = w_obs w"
proof -
  show "w_obs (snd (Login lib s n p w)) = w_obs w"
    by (auto simp: Login_def issueTokenPair_def on_world split: sum.split)
  show "w_obs (snd (Refresh lib s t w)) = w_obs w"
    by (auto simp: Refresh_def on_world Let_def split: sum.split option.split)
  have "w_obs (snd (logoutTokens lib s rf u t now v)) = w_obs v" for rf now v
    by (auto simp: logoutTokens_def on_world silentD [OF assms] split: sum.split)
  then have "logoutTokens lib s rf u t now v = (r, v') \<Longrightarrow> w_obs v' = w_obs v" for rf now v r v'
    by (metis snd_conv)
  then show "w_obs (snd (Logout lib s u t j e w)) = w_obs w"
    by (auto simp: Logout_def on_world Let_def silentD [OF assms] split: sum.split prod.split option.split)
  show "w_obs (snd (Register lib s n p w)) = w_obs w"
    by (auto simp: Register_def on_world split: sum.split)
qed

section \<open>Handlers and middlewares leave the records alone\<close>

text \<open>What the log line and the span of a request are made of.\<close>

definition line_of ::
  "gin_ctx \<Rightarrow> (string \<times> string \<times> string \<times> string \<times> string) \<times> (string \<times> string) option \<times> string \<times> string option" where
  "line_of c = ((g_Method c, g_FullPath c, g_URLPath c, g_ClientIP c, g_UserAgent c), g_CtxSpan c,
     GetRequestID (Some c), g_Headers c RequestIDHeader)"

definition calm :: "('s, 'r, 'p) handler \<Rightarrow> bool" where
  "calm h \<longleftrightarrow> (\<forall>c w. w_obs (snd (h c w)) = w_obs w \<and> line_of (fst (h c w)) = line_of c)"

definition calming :: "('s, 'r, 'p) middleware \<Rightarrow> bool" where
  "calming m \<longleftrightarrow> (\<forall>next. calm next \<longrightarrow> calm (m next))"

lemma calmI:
  assumes "\<And>c w. w_obs (snd (h c w)) = w_obs w" and "\<And>c w. line_of (fst (h c w)) = line_of c"
  shows "calm h"
  using assms by (simp add: calm_def)

lemma calmD:
  assumes "calm h"
  shows "w_obs (snd (h c w)) = w_obs w" "line_of (fst (h c w)) = line_of c"
  using assms by (simp_all add: calm_def)

lemma calmingI: "(\<And>h. calm h \<Longrightarrow> calm (m h)) \<Longrightarrow> calming m"
  by (simp add: calming_def)

lemma chain_calm: "\<forall>m \<in> set ms. calming m \<Longrightarrow> calm h \<Longrightarrow> calm (chain ms h)"
  by (induction ms) (simp_all add: calming_def)

lemma line_of_responses [simp]:
  "line_of (httperr_Write st msg c) = line_of c" "line_of (httperr_Abort st msg c) = line_of c"
  "line_of (httpresp_OK b c) = line_of c" "line_of (httpresp_Created b c) = line_of c"
  "line_of (set_status st c) = line_of c" "line_of (AbortWithStatus st c) = line_of c"
  by (simp_all add: line_of_def GetRequestID_def go_defs)

lemma line_of_steps [simp]:
  "line_of (set_header ''X-RateLimit-Limit'' v c) = line_of c" "line_of (set_header ''X-RateLimit-Remaining'' v c) = line_of c"
  "line_of (set_header ''Retry-After'' v c) = line_of c" "line_of (set_claims claims c) = line_of c"
  "line_of (c\<lparr>g_MaxBytes := m\<rparr>) = line_of c" "line_of (c\<lparr>g_Timeout := d\<rparr>) = line_of c"
  by (simp_all add: line_of_def GetRequestID_def set_header_def RequestIDHeader_def set_claims_def set_key_def
      requestIDGinKey_def ContextUserID_def ContextRole_def ContextJTI_def ContextAccessExp_def Let_def split: option.split)

lemma parsers_line:
  "parseIDParam c = Inl c' \<Longrightarrow> line_of c' = line_of c"
  "parseBookListQuery c = Inl c' \<Longrightarrow> line_of c' = line_of c"
  by (auto simp: parseIDParam_def parseBookListQuery_def parseOffsetLimit_def parseOwnerID_def Let_def
      split: option.splits if_splits sum.splits)

text \<open>The result of a call in a handler, with the state's observability unchanged.\<close>

lemma call_obs: "w_obs (snd r) = w_obs w \<Longrightarrow> r = (x, w') \<Longrightarrow> w_obs w' = w_obs w"
  by simp

lemmas call_frames = book_service_obs [THEN call_obs] user_service_obs [THEN call_obs]

lemma book_handlers_calm:
  "calm Healthcheck" "calm (FindBooks json svc)" "calm (FindBook svc)" "calm (h_CreateBook bnd svc)"
  "calm (UpdateBook bnd svc)" "calm (API_Books.PatchBook bnd svc)" "calm (DeleteBook svc)"
proof -
  show "calm Healthcheck" by (simp add: calm_def Healthcheck_def)
  show "calm (FindBooks json svc)"
    by (auto simp: calm_def FindBooks_def split: sum.split prod.split dest: parsers_line call_frames)
  show "calm (FindBook svc)"
    by (auto simp: calm_def FindBook_def split: sum.split prod.split dest: parsers_line call_frames)
  show "calm (h_CreateBook bnd svc)"
    by (auto simp: calm_def h_CreateBook_def split: sum.split option.split prod.split dest: parsers_line call_frames)
  show "calm (UpdateBook bnd svc)"
    by (auto simp: calm_def UpdateBook_def split: sum.split option.split prod.split dest: parsers_line call_frames)
  show "calm (API_Books.PatchBook bnd svc)"
    by (auto simp: calm_def API_Books.PatchBook_def split: sum.split option.split prod.split dest: parsers_line call_frames)
  show "calm (DeleteBook svc)"
    by (auto simp: calm_def DeleteBook_def split: sum.split option.split prod.split dest: parsers_line call_frames)
qed

lemma user_handlers_calm:
  assumes "silent (uv_denylist svc)"
  shows "calm (LoginHandler bnd lib svc)" "calm (RefreshHandler bnd lib svc)" "calm (LogoutHandler bnd lib svc)"
    "calm (RegisterHandler bnd lib svc)"
proof -
  note frames = user_service_obs [OF assms, THEN call_obs]
  show "calm (LoginHandler bnd lib svc)"
    by (auto simp: calm_def LoginHandler_def split: sum.split prod.split dest: frames)
  show "calm (RefreshHandler bnd lib svc)"
    by (auto simp: calm_def RefreshHandler_def split: sum.split prod.split dest: frames)
  show "calm (LogoutHandler bnd lib svc)"
    by (auto simp: calm_def LogoutHandler_def Let_def split: sum.split prod.split dest: frames)
  show "calm (RegisterHandler bnd lib svc)"
    by (auto simp: calm_def RegisterHandler_def split: sum.split prod.split dest: frames)
qed

lemma admin_calm: "calm AdminMeHandler"
  by (simp add: calm_def AdminMeHandler_def)

lemma guards_calm:
  "calming APIKeyAuth" "silent dl \<Longrightarrow> calming (JWTAuth lib dl)" "calming (RequireRole roles)"
proof -
  show "calming APIKeyAuth" by (auto simp: calming_def calm_def APIKeyAuth_def Let_def)
  show "calming (RequireRole roles)"
    by (auto simp: calming_def calm_def RequireRole_def Let_def split: option.split)
  show "calming (JWTAuth lib dl)" if dl: "silent dl"
  proof -
    have "w_obs (snd (denylist_check dl claims w)) = w_obs w" for claims w
    proof -
      have denied: "w_obs v = w_obs w" if "dl_IsDenied dl j w = (r, v)" for j r v
        using silentD(2) [OF dl, of j w] that by simp
      have revoked: "w_obs v' = w_obs v" if "dl_IsUserRevoked dl u t v = (r, v')" for u t v r v'
        using silentD(4) [OF dl, of u t v] that by simp
      show ?thesis
        by (auto simp: denylist_check_def Let_def split: sum.split prod.split option.split if_split
            dest!: denied revoked)
    qed
    then have check: "denylist_check dl claims w = (r, w') \<Longrightarrow> w_obs w' = w_obs w" for claims w r w' by (metis snd_conv)
    show ?thesis
      by (auto simp: calming_def calm_def JWTAuth_def Let_def on_rt_eq split: sum.split prod.split option.split
          dest: check)
  qed
qed

lemma deadline_calm: "calming (RequestContextTimeout d)"
  by (rule calmingI, rule calmI) (simp_all add: RequestContextTimeout_def calmD)

lemma store_obs:
  assumes "rateLimitStoreFor cfg redis = Some store"
  shows "w_obs (snd (rl_Allow store ce k limit window w)) = w_obs w"
proof -
  have "w_obs (snd (memory_Allow ce k limit window w)) = w_obs w"
    by (simp add: memory_Allow_def on_rt_eq Let_def split: option.split prod.split)
  moreover have "w_obs (snd (redis_Allow redis ce k limit window w)) = w_obs w"
    by (simp add: redis_Allow_def on_redis_eq Let_def split: option.split sum.split)
  ultimately show ?thesis
    using assms
    by (auto simp: rateLimitStoreFor_def NewMemoryRateLimitStore_def NewRedisRateLimitStore_def split: if_splits)
qed

lemma limiter_calm: "calming (ClientRateLimiter store cfg)"
  if "\<And>s ce k limit window w. store = Some s \<Longrightarrow> w_obs (snd (rl_Allow s ce k limit window w)) = w_obs w"
proof (rule calmingI)
  fix h :: "('a, 'b, 'c) handler"
  assume h: "calm h"
  show "calm (ClientRateLimiter store cfg h)"
  proof (cases store)
    case None
    with h show ?thesis by (simp add: calm_def ClientRateLimiter_def)
  next
    case (Some s)
    show ?thesis
    proof (cases "rc_Enabled cfg")
      case True
      have "w_obs (snd (ClientRateLimiter store cfg h c w)) = w_obs w \<and>
          line_of (fst (ClientRateLimiter store cfg h c w)) = line_of c" for c w
      proof -
        let ?n = "if rc_Requests cfg \<le> 0 then DefaultRateLimitRequests else rc_Requests cfg"
        let ?d = "if rc_Window cfg \<le> 0 then DefaultRateLimitWindow else rc_Window cfg"
        obtain n d where nd: "?n = n" "?d = d" by blast
        obtain r w' where a: "rl_Allow s (g_CtxErr c) (clientRateLimitKey c) n d w = (r, w')"
          by (cases "rl_Allow s (g_CtxErr c) (clientRateLimitKey c) n d w")
        then have "w_obs w' = w_obs w" using that [OF Some] by (metis snd_conv)
        then show ?thesis
          unfolding ClientRateLimiter_def nd
          by (simp add: Some True Let_def a calmD [OF h] split: sum.split prod.split)
      qed
      then show ?thesis by (simp add: calm_def)
    next
      case False
      with h show ?thesis by (simp add: calm_def ClientRateLimiter_def Some)
    qed
  qed
qed

lemma limiter_from_env_calm: "calming (RateLimiterFromEnv redis rt)"
  unfolding RateLimiterFromEnv_def Let_def by (rule limiter_calm) (rule store_obs)

section \<open>A request is counted once\<close>

definition libs_calm :: "('r, 'p) libs \<Rightarrow> bool" where
  "libs_calm lb \<longleftrightarrow> calming (lb_Security lb) \<and> calming (lb_Xss lb) \<and> calming (lb_Cors lb)"

text \<open>What stands inside the metrics middleware, for any route of the API.\<close>

lemma users_silent: "silent (uv_denylist (router_users redis rt))"
  by (simp add: router_users_def NewUserHandler_def NewUserService_def denylist_silent)

lemma routes_calm:
  assumes "(m, p, mws, h) \<in> set (router_routes lb redis publisher rt)"
  shows "calm h \<and> (\<forall>g \<in> set mws. calming g)"
  using assms
  by (auto simp: router_routes_def api_routes_def Let_def book_handlers_calm user_handlers_calm [OF users_silent]
      admin_calm guards_calm denylist_silent)

lemma inside_calm:
  assumes "libs_calm lb" and "(m, p, mws, h) \<in> set (router_routes lb redis publisher rt)"
  shows "calm (chain (drop 5 (router_use lb mongo redis rt n) @ RequestContextTimeoutFromEnv rt # mws) h)"
  using routes_calm [OF assms(2)] assms(1)
  by (intro chain_calm) (auto simp: router_use_def libs_calm_def deadline_calm limiter_from_env_calm RequestContextTimeoutFromEnv_def)

section \<open>A request is counted, logged and traced once\<close>

text \<open>The access log: one line, the document for the queue, and perhaps a warning that it is full.\<close>

definition logged :: "bool \<Rightarrow> log_entry \<Rightarrow> observability \<Rightarrow> observability" where
  "logged mongo e ob = enqueue mongo e (log_line_out (RequestLine e) ob)"

lemma logged_frame [simp]:
  "ob_requests (logged mongo e ob) = ob_requests ob" "ob_inFlight (logged mongo e ob) = ob_inFlight ob"
  "ob_spans (logged mongo e ob) = ob_spans ob"
  by (simp_all add: logged_def log_line_out_def enqueue_def Let_def)

text \<open>What the log line says of a request and its answer.\<close>

definition describes :: "log_entry \<Rightarrow> gin_ctx \<Rightarrow> gin_ctx \<Rightarrow> bool" where
  "describes e c c' \<longleftrightarrow> le_Method e = g_Method c \<and> le_Path e = g_URLPath c \<and> le_IP e = g_ClientIP c \<and>
     le_UserAgent e = g_UserAgent c \<and> le_Status e = g_Status c' \<and> le_RequestID e \<noteq> '''' \<and>
     g_Headers c' RequestIDHeader = Some (le_RequestID e)"

text \<open>What the span says of the same.\<close>

definition spans :: "span \<Rightarrow> log_entry \<Rightarrow> gin_ctx \<Rightarrow> gin_ctx \<Rightarrow> bool" where
  "spans sp e c c' \<longleftrightarrow> sp_Name sp = g_FullPath c \<and> sp_StatusCode sp = g_Status c' \<and>
     (requestIDSpanAttrKey, le_RequestID e) \<in> set (sp_Attrs sp) \<and> (sp_Error sp = None \<longleftrightarrow> g_Status c' < 500)"

lemma logger_line:
  assumes "calm h"
  shows "\<exists>e. w_obs (snd (Logger mongo h c w)) = logged mongo e (w_obs w) \<and>
    line_of (fst (Logger mongo h c w)) = line_of c \<and> le_Method e = g_Method c \<and> le_Path e = g_URLPath c \<and>
    le_IP e = g_ClientIP c \<and> le_UserAgent e = g_UserAgent c \<and> le_RequestID e = GetRequestID (Some c) \<and>
    le_Status e = g_Status (fst (Logger mongo h c w))"
proof -
  obtain c' w' where run: "h c (snd (on_rt time_now w)) = (c', w')" by (cases "h c (snd (on_rt time_now w))")
  then have in_line: "line_of c' = line_of c" and obs: "w_obs w' = w_obs w"
    using calmD [OF assms, of c "snd (on_rt time_now w)"] by (simp_all add: on_rt_eq)
  then show ?thesis
    using run by (auto simp: Logger_def Let_def split_def on_rt_eq logged_def line_of_def)
qed

lemma traced_line:
  assumes "calm h"
  shows "\<exists>e sp. w_obs (snd (Tracing otel (Logger mongo h) c w)) =
      (logged mongo e (w_obs w))\<lparr>ob_spans := ob_spans (w_obs w) @ [sp]\<rparr> \<and>
    g_Headers (fst (Tracing otel (Logger mongo h) c w)) RequestIDHeader = g_Headers c RequestIDHeader \<and>
    g_Method (fst (Tracing otel (Logger mongo h) c w)) = g_Method c \<and>
    g_FullPath (fst (Tracing otel (Logger mongo h) c w)) = g_FullPath c \<and>
    le_Method e = g_Method c \<and> le_Path e = g_URLPath c \<and> le_IP e = g_ClientIP c \<and> le_UserAgent e = g_UserAgent c \<and>
    le_RequestID e = GetRequestID (Some c) \<and> le_Status e = g_Status (fst (Tracing otel (Logger mongo h) c w)) \<and>
    sp_Name sp = (if g_FullPath c = '''' then g_Method c @ '' unmatched'' else g_FullPath c) \<and>
    sp_Attrs sp = span_attrs c \<and> sp_StatusCode sp = le_Status e \<and> (sp_Error sp = None \<longleftrightarrow> le_Status e < 500)"
proof -
  let ?c = "c\<lparr>g_CtxSpan := otel c\<rparr>"
  obtain e where e: "w_obs (snd (Logger mongo h ?c w)) = logged mongo e (w_obs w)"
      "line_of (fst (Logger mongo h ?c w)) = line_of ?c" "le_Method e = g_Method ?c" "le_Path e = g_URLPath ?c"
      "le_IP e = g_ClientIP ?c" "le_UserAgent e = g_UserAgent ?c" "le_RequestID e = GetRequestID (Some ?c)"
      "le_Status e = g_Status (fst (Logger mongo h ?c w))"
    using logger_line [OF assms, of mongo ?c w] by blast
  have rid: "GetRequestID (Some ?c) = GetRequestID (Some c)" by (simp add: GetRequestID_def)
  show ?thesis
    using e unfolding Tracing_def Let_def split_def
    by (intro exI [of _ e]) (auto simp: rid line_of_def)
qed

text \<open>Whether the body limit refuses a request before anything is logged.\<close>

definition oversized :: "go_rt \<Rightarrow> gin_ctx \<Rightarrow> bool" where
  "oversized rt c \<longleftrightarrow> g_Method c \<in> {''POST'', ''PUT'', ''PATCH''} \<and>
     (case maxRequestBodyBytesFromEnv rt of
        Inl err \<Rightarrow> False
      | Inr n \<Rightarrow> g_ContentLength c > (if n \<le> 0 then DefaultMaxRequestBodyBytes else n))"

text \<open>The record of a request inside the metrics middleware.\<close>

definition recorded :: "bool \<Rightarrow> bool \<Rightarrow> gin_ctx \<Rightarrow> gin_ctx \<Rightarrow> observability \<Rightarrow> observability \<Rightarrow> bool" where
  "recorded mongo refused c c' ob ob' \<longleftrightarrow>
     (if refused then g_Status c' = 413 \<and> ob_spans ob' = ob_spans ob \<and> ob_log ob' = ob_log ob \<and>
        ob_ch ob' = ob_ch ob \<and> ob_dropped ob' = ob_dropped ob
      else \<exists>e sp. describes e c c' \<and> spans sp e c c' \<and> ob_spans ob' = ob_spans ob @ [sp] \<and>
        ob_log ob' = ob_log (logged mongo e ob) \<and> ob_ch ob' = ob_ch (logged mongo e ob) \<and>
        ob_dropped ob' = ob_dropped (logged mongo e ob))"

text \<open>The records a request leaves are those four fields: the rest of the state does not matter.\<close>

definition logs_of :: "observability \<Rightarrow> span list \<times> log_line list \<times> log_entry list \<times> uint" where
  "logs_of ob = (ob_spans ob, ob_log ob, ob_ch ob, ob_dropped ob)"

lemma logged_logs: "logs_of a = logs_of b \<Longrightarrow> logs_of (logged mongo e a) = logs_of (logged mongo e b)"
  by (simp add: logs_of_def logged_def log_line_out_def enqueue_def Let_def)

lemma recorded_logs:
  assumes "recorded mongo refused c c' a a'" and "logs_of a = logs_of b" and "logs_of a' = logs_of b'"
  shows "recorded mongo refused c c' b b'"
  using assms logged_logs [OF assms(2), of mongo] by (fastforce simp: recorded_def logs_of_def)

lemma metrics_logs [simp]:
  "logs_of (inc_inFlight i ob) = logs_of ob" "logs_of (inc_requests l ob) = logs_of ob" "logs_of (observe_duration k d ob) = logs_of ob"
  by (simp_all add: logs_of_def inc_inFlight_def inc_requests_def observe_duration_def)

lemma inside_recorded:
  fixes h :: "('s, 'r, 'p) handler" and w :: "('s, 'r, 'p) world" and mongo :: bool
    and otel :: "gin_ctx \<Rightarrow> (string \<times> string) option"
  assumes "calm h" and n: "maxRequestBodyBytesFromEnv rt = Inr n" and path: "g_FullPath c \<noteq> ''''"
  defines "out \<equiv> MaxRequestBody n (RequestID (Tracing otel (Logger mongo h))) c w"
  shows "recorded mongo (oversized rt c) c (fst out) (w_obs w) (w_obs (snd out)) \<and>
    ob_requests (w_obs (snd out)) = ob_requests (w_obs w) \<and> ob_inFlight (w_obs (snd out)) = ob_inFlight (w_obs w) \<and>
    g_Method (fst out) = g_Method c \<and> g_FullPath (fst out) = g_FullPath c"
proof (cases "oversized rt c")
  case True
  then have "out = (AbortWithStatus 413 c, w)"
    by (simp add: out_def MaxRequestBody_def oversized_def n Let_def)
  with True show ?thesis by (simp add: recorded_def AbortWithStatus_def)
next
  case False
  define c1 where "c1 = (if g_Method c \<in> {''POST'', ''PUT'', ''PATCH''}
    then c\<lparr>g_MaxBytes := Some (if n \<le> 0 then DefaultMaxRequestBodyBytes else n)\<rparr> else c)"
  define drawn where "drawn = (let given = TrimSpace (g_GetHeader c1 RequestIDHeader)
    in if given = '''' then on_rt newRequestID w else (given, w))"
  define rid where "rid = (if fst drawn = '''' then ''unknown'' else fst drawn)"
  define c2 where "c2 = (set_header RequestIDHeader rid (set_key requestIDGinKey (VStr rid) c1))\<lparr>g_CtxRequestID := Some rid\<rparr>"
  have out: "out = Tracing otel (Logger mongo h) c2 (snd drawn)"
    using False
    by (auto simp: out_def MaxRequestBody_def oversized_def n RequestID_def c1_def drawn_def rid_def c2_def Let_def split_def)
  have same: "g_Method c2 = g_Method c" "g_FullPath c2 = g_FullPath c" "g_URLPath c2 = g_URLPath c"
      "g_ClientIP c2 = g_ClientIP c" "g_UserAgent c2 = g_UserAgent c"
    by (simp_all add: c2_def c1_def set_header_def set_key_def)
  have rid: "GetRequestID (Some c2) = rid" "g_Headers c2 RequestIDHeader = Some rid" "rid \<noteq> ''''"
    by (simp_all add: c2_def set_header_def set_key_def GetRequestID_def rid_def)
  then have attr: "(requestIDSpanAttrKey, rid) \<in> set (span_attrs c2)" by (simp add: span_attrs_def)
  have obs: "w_obs (snd drawn) = w_obs w" by (simp add: drawn_def Let_def on_rt_eq)
  obtain e sp where line: "w_obs (snd out) = (logged mongo e (w_obs w))\<lparr>ob_spans := ob_spans (w_obs w) @ [sp]\<rparr>"
      "g_Headers (fst out) RequestIDHeader = Some rid" "g_Method (fst out) = g_Method c" "g_FullPath (fst out) = g_FullPath c"
      "le_Method e = g_Method c" "le_Path e = g_URLPath c" "le_IP e = g_ClientIP c" "le_UserAgent e = g_UserAgent c"
      "le_RequestID e = rid" "le_Status e = g_Status (fst out)" "sp_Name sp = g_FullPath c"
      "sp_Attrs sp = span_attrs c2" "sp_StatusCode sp = le_Status e" "sp_Error sp = None \<longleftrightarrow> le_Status e < 500"
    using traced_line [OF assms(1), of otel mongo c2 "snd drawn"] path
    unfolding out same rid obs by auto
  have "describes e c (fst out)" "spans sp e c (fst out)"
    using line rid(3) attr by (simp_all add: describes_def spans_def)
  with False line(1,3,4) show ?thesis by (auto simp: recorded_def)
qed

text \<open>An environment with metrics on and the limiter off, for the witness.\<close>

definition demo_counted :: go_rt where
  "demo_counted = demo_off\<lparr>rt_env := \<lambda>n. if n = ''METRICS_ENABLED'' then '''' else rt_env demo_off n\<rparr>"

lemma demo_counted_env: "rt_env demo_counted n = (if n = ''RATE_LIMIT_ENABLED'' then ''off'' else '''')"
  by (simp add: demo_counted_def demo_env)

lemma demo_counted_metrics: "ms_cfg (MetricsFromEnv demo_counted) = \<lparr>mc_Enabled = True, mc_Path = DefaultMetricsPath\<rparr>"
  by (simp add: MetricsFromEnv_def NewMetrics_def MetricsConfigFromEnv_def demo_counted_env TrimSpace_words
      DefaultMetricsPath_def del: ToLower.simps)

lemma demo_counted_limit: "maxRequestBodyBytesFromEnv demo_counted = Inr DefaultMaxRequestBodyBytes"
  by (simp add: maxRequestBodyBytesFromEnv_def demo_counted_env TrimSpace_words)

lemma demo_counted_router: "\<exists>r. NewRouter demo_libs demo_pings False redis publisher demo_counted = Inr r"
proof (rule NewRouter_ok [OF _ demo_counted_limit])
  show "lb_SetTrustedProxies demo_libs (trustedProxyList demo_counted) = None" by (simp add: demo_libs_def)
  show "distinct (router_paths demo_counted)" by (simp add: router_paths_def demo_counted_metrics DefaultMetricsPath_def)
qed

text \<open>
  C38. Every request to a route of the API is accounted for once, however it is answered, also by a
  guard, the limiter or the body limit. With metrics on, it is counted under its method, its route
  and the status of the answer, and the gauge of requests in flight is back where it was. Unless the
  body limit refused it with 413, which leaves no trace, one access-log line and one span are
  recorded, both with the status of the answer and with the identifier of its \<open>X-Request-Id\<close> header,
  and the log document is offered to the queue.
\<close>

theorem request_observed_once:
  assumes "NewRouter lb pi mongo redis publisher rt = Inr r" and "libs_calm lb"
    and "(g_Method c, p, mws, h) \<in> set (router_routes lb redis publisher rt)" and "g_FullPath c = ''/api/v1'' @ p"
  shows "let out = ServeHTTP r c w in
    recorded mongo (oversized rt c) c (fst out) (w_obs w) (w_obs (snd out)) \<and>
    ob_inFlight (w_obs (snd out)) = ob_inFlight (w_obs w) \<and>
    ob_requests (w_obs (snd out)) =
      (if mc_Enabled (ms_cfg (MetricsFromEnv rt)) \<and> \<not> shouldSkip (MetricsFromEnv rt) c
       then let label = (g_Method c, g_FullPath c, show_int (g_Status (fst out)))
            in (ob_requests (w_obs w))(label := Suc (ob_requests (w_obs w) label))
       else ob_requests (w_obs w))"
proof -
  obtain n where n: "maxRequestBodyBytesFromEnv rt = Inr n"
    and run: "ServeHTTP r c w = chain (router_use lb mongo redis rt n @ RequestContextTimeoutFromEnv rt # mws) h c w"
    using ServeHTTP_runs [OF assms(1,3,4), of w] by blast
  let ?in = "chain (drop 5 (router_use lb mongo redis rt n) @ RequestContextTimeoutFromEnv rt # mws) h"
  let ?logged = "MaxRequestBody n (RequestID (Tracing (lb_otel lb) (Logger mongo ?in)))"
  define out where "out = ServeHTTP r c w"
  have out: "out = metrics_Middleware (Some (MetricsFromEnv rt)) ?logged c w" by (simp add: out_def run router_use_def)
  note inside = inside_recorded [OF inside_calm [OF assms(2,3), of mongo n] n,
    where c = c and otel = "lb_otel lb" and mongo = mongo]
  have path: "g_FullPath c \<noteq> ''''" using assms(4) by simp
  show ?thesis
  proof (cases "mc_Enabled (ms_cfg (MetricsFromEnv rt)) \<and> \<not> shouldSkip (MetricsFromEnv rt) c")
    case False
    then have "out = ?logged c w" unfolding out by (auto simp: metrics_Middleware_def)
    with inside [OF path, of w] False show ?thesis by (auto simp: Let_def simp flip: out_def)
  next
    case True
    define w1 where "w1 = snd (on_rt time_now (on_obs (inc_inFlight 1) w))"
    obtain c2 w2 where in_run: "?logged c w1 = (c2, w2)" by (cases "?logged c w1")
    have w1: "w_obs w1 = inc_inFlight 1 (w_obs w)" by (simp add: w1_def on_rt_eq)
    let ?label = "(g_Method c, g_FullPath c, show_int (g_Status c2))"
    from inside [OF path, of w1] have rec: "recorded mongo (oversized rt c) c c2 (w_obs w1) (w_obs w2)"
      and same: "ob_requests (w_obs w2) = ob_requests (w_obs w1)" "ob_inFlight (w_obs w2) = ob_inFlight (w_obs w1)"
        "g_Method c2 = g_Method c" "g_FullPath c2 = g_FullPath c"
      unfolding in_run by simp_all
    obtain d where end_obs: "fst out = c2" "w_obs (snd out) =
        inc_inFlight (- 1) (observe_duration (g_Method c, g_FullPath c) d (inc_requests ?label (w_obs w2)))"
      using True in_run same path unfolding out w1_def
      by (auto simp: metrics_Middleware_def Let_def split_def on_rt_eq)
    have "recorded mongo (oversized rt c) c c2 (w_obs w) (w_obs (snd out))"
      by (rule recorded_logs [OF rec]) (simp_all add: w1 end_obs)
    with True end_obs(1) same show ?thesis
      by (simp add: end_obs(2) w1 inc_inFlight_def inc_requests_def observe_duration_def Let_def flip: out_def)
  qed
qed

theorem request_observed_once_witness:
  "\<exists>r e status. NewRouter demo_libs demo_pings False None None demo_counted = Inr r \<and>
     (let c = demo_request ''POST'' ''/api/v1/login'' (\<lambda>n. ''''); out = ServeHTTP r c demo_pgworld
      in describes e c (fst out) \<and> RequestLine e \<in> set (ob_log (w_obs (snd out))) \<and>
         ob_requests (w_obs (snd out)) (''POST'', ''/api/v1/login'', status) =
           Suc (ob_requests (w_obs demo_pgworld) (''POST'', ''/api/v1/login'', status)))"
proof -
  obtain r :: "(unit, unit) engine" where r: "NewRouter demo_libs demo_pings False None None demo_counted = Inr r"
    using demo_counted_router by blast
  let ?c = "demo_request ''POST'' ''/api/v1/login'' (\<lambda>n. '''')"
  have libs: "libs_calm (demo_libs :: (unit, unit) libs)"
    by (simp add: libs_calm_def demo_libs_def calming_def)
  obtain h where route: "(g_Method ?c, ''/login'', [APIKeyAuth], h)
      \<in> set (router_routes (demo_libs :: (unit, unit) libs) None None demo_counted)"
    by (simp add: router_routes_def api_routes_def demo_request_def Let_def)
  have path: "g_FullPath ?c = ''/api/v1'' @ ''/login''" by (simp add: demo_request_def)
  have small: "\<not> oversized demo_counted ?c"
    by (simp add: oversized_def demo_counted_limit demo_request_def DefaultMaxRequestBodyBytes_def)
  have on: "mc_Enabled (ms_cfg (MetricsFromEnv demo_counted))" "\<not> shouldSkip (MetricsFromEnv demo_counted) ?c"
    by (simp_all add: demo_request_def demo_counted_metrics shouldSkip_def DefaultMetricsPath_def starts_with_iff)
  have line: "RequestLine e \<in> set (ob_log (logged mongo e ob))" for e mongo ob
    by (simp add: logged_def log_line_out_def enqueue_def Let_def)
  have label: "g_Method ?c = ''POST''" "g_FullPath ?c = ''/api/v1/login''" by (simp_all add: demo_request_def)
  from request_observed_once [OF r libs route path, of demo_pgworld] small on line r show ?thesis
    unfolding label by (auto simp: Let_def recorded_def)
qed

end
