(* ===== verification/Key_Generator.thy ===== *)
theory Key_Generator
  imports Router_Laws
begin

text \<open>
  The generator of secrets (\<open>auth.GenerateRandomKey\<close>, which \<open>scripts/generate_key.go\<close> prints), and
  the middlewares that only configure a library: \<open>cors.go\<close>, \<open>security.go\<close>, \<open>xss.go\<close> of
  \<open>pkg/middleware\<close>.
\<close>

section \<open>Secrets\<close>

text \<open>\<open>base64.StdEncoding\<close>: the standard alphabet with padding.\<close>

definition b64std_digit :: "nat \<Rightarrow> char" where
  "b64std_digit n = (''ABCDEFGHIJKLMNOPQRSTUVWXYZabcdefghijklmnopqrstuvwxyz0123456789+/'') ! n"

fun b64std_encode :: "string \<Rightarrow> string" where
  "b64std_encode [] = []"
| "b64std_encode [a] =
     (let n = (of_char a :: nat) * 16 in [b64std_digit (n div 64), b64std_digit (n mod 64), CHR ''='', CHR ''=''])"
| "b64std_encode [a, b] =
     (let n = ((of_char a :: nat) * 256 + of_char b) * 4
      in [b64std_digit (n div 4096), b64std_digit (n div 64 mod 64), b64std_digit (n mod 64), CHR ''=''])"
| "b64std_encode (a # b # c # s) =
     (let n = ((of_char a :: nat) * 256 + of_char b) * 256 + of_char c
      in [b64std_digit (n div 262144), b64std_digit (n div 4096 mod 64),
          b64std_digit (n div 64 mod 64), b64std_digit (n mod 64)] @ b64std_encode s)"

lemma length_b64std_encode: "length (b64std_encode s) = 4 * ((length s + 2) div 3)"
proof (induction s rule: b64std_encode.induct)
  case (4 a b c s)
  have "(length (a # b # c # s) + 2) div 3 = Suc ((length s + 2) div 3)" by simp
  with 4 show ?case by (simp add: Let_def)
qed (simp_all add: Let_def)

text \<open>\<open>None\<close> is the panic when the random source fails.\<close>

definition GenerateRandomKey :: "go_rt \<Rightarrow> string option \<times> go_rt" where
  "GenerateRandomKey rt =
     (case rand_read 32 rt of
        (None, rt) \<Rightarrow> (None, rt)
      | (Some key, rt) \<Rightarrow> (Some (b64std_encode key), rt))"

text \<open>The script prints the key and a newline.\<close>

definition generate_key_main :: "go_rt \<Rightarrow> string option \<times> go_rt" where
  "generate_key_main rt =
     (case GenerateRandomKey rt of
        (None, rt) \<Rightarrow> (None, rt)
      | (Some key, rt) \<Rightarrow> (Some (key @ [CHR 0x0A]), rt))"

text \<open>A generated key is long enough for either secret.\<close>

lemma generated_key_accepted:
  assumes "GenerateRandomKey rt = (Some key, rt')"
  shows "SetJWTSigningKey key w = (Inr (), w\<lparr>w_jwtkey := key\<rparr>)" "SetAPISecretKey key w = (Inr (), w\<lparr>w_apikey := key\<rparr>)"
proof -
  obtain b where "fst (rand_read 32 rt) = Some b" "key = b64std_encode b"
    using assms by (auto simp: GenerateRandomKey_def split: prod.splits option.splits)
  then have "length key = 44" using rand_read_length [of 32 rt b] by (simp add: length_b64std_encode)
  then show "SetJWTSigningKey key w = (Inr (), w\<lparr>w_jwtkey := key\<rparr>)" "SetAPISecretKey key w = (Inr (), w\<lparr>w_apikey := key\<rparr>)"
    by (simp_all add: SetJWTSigningKey_def SetAPISecretKey_def MinJWTSecretKeyBytes_def MinAPISecretKeyBytes_def)
qed

section \<open>Configured libraries\<close>

text \<open>\<open>AddAllowHeaders\<close> and \<open>AddExposeHeaders\<close> append to the lists of \<open>cors.DefaultConfig\<close>.\<close>

record cors_Config =
  cc_AllowOrigins :: "string list"
  cc_AllowMethods :: "string list"
  cc_AllowHeaders :: "string list"
  cc_ExposeHeaders :: "string list"
  cc_AllowCredentials :: bool
  cc_MaxAge :: duration

definition Cors :: "cors_Config \<Rightarrow> (cors_Config \<Rightarrow> ('s, 'r, 'p) middleware) \<Rightarrow> ('s, 'r, 'p) middleware" where
  "Cors DefaultConfig New =
     (let config = DefaultConfig;
          config = config\<lparr>cc_AllowOrigins :=
            [''http://127.0.0.1'', ''http://127.0.0.1:8001'', ''http://localhost'', ''http://localhost:8001'']\<rparr>;
          config = config\<lparr>cc_AllowHeaders := cc_AllowHeaders config @ [''Authorization'', ''X-API-Key'', ''X-Request-Id'']\<rparr>;
          config = config\<lparr>cc_ExposeHeaders := cc_ExposeHeaders config @ [''X-Request-Id'']\<rparr>;
          config = config\<lparr>cc_AllowCredentials := True\<rparr>
      in New config)"

record secure_Config =
  sc_STSSeconds :: int
  sc_STSIncludeSubdomains :: bool
  sc_FrameDeny :: bool
  sc_ContentTypeNosniff :: bool
  sc_BrowserXssFilter :: bool
  sc_ContentSecurityPolicy :: string
  sc_IENoOpen :: bool
  sc_ReferrerPolicy :: string
  sc_SSLProxyHeaders :: "(string \<times> string) list"

definition Security :: "(secure_Config \<Rightarrow> ('s, 'r, 'p) middleware) \<Rightarrow> ('s, 'r, 'p) middleware" where
  "Security New = New
     \<lparr>sc_STSSeconds = 315360000, sc_STSIncludeSubdomains = True, sc_FrameDeny = True,
      sc_ContentTypeNosniff = True, sc_BrowserXssFilter = True,
      sc_ContentSecurityPolicy = ''default-src '' @ [CHR 0x27] @ ''self'' @ [CHR 0x27],
      sc_IENoOpen = True, sc_ReferrerPolicy = ''strict-origin-when-cross-origin'',
      sc_SSLProxyHeaders = [(''X-Forwarded-Proto'', ''https'')]\<rparr>"

definition Xss :: "('s, 'r, 'p) middleware \<Rightarrow> ('s, 'r, 'p) middleware" where
  "Xss RemoveXss = RemoveXss"

text \<open>
  The router over the three libraries: its condition on the middlewares is one on what the
  libraries build from these configurations.
\<close>

lemma configured_transparent:
  assumes "lb_Cors lb = Cors cors0 NewCors" "lb_Security lb = Security NewSecure" "lb_Xss lb = Xss RemoveXss"
    and "\<And>cfg. transparent (NewCors cfg)" "\<And>cfg. transparent (NewSecure cfg)" "transparent RemoveXss"
  shows "libs_transparent lb"
  using assms by (simp add: libs_transparent_def Cors_def Security_def Xss_def Let_def)

end
