(* ===== verification/Spec2Isabelle.thy ===== *)
theory Spec2Isabelle
  imports Book_Race Token_Theorems List_Theorems Refresh_Race Rate_Theorems Event_Flow
    Server_Theorems Observability_Theorems Metrics_Flow Key_Generator
begin

text \<open>
  A verification development for a Go REST API: books with owners behind an API key and JWT
  access tokens, refresh tokens with rotation and reuse detection, a list cache and a token
  denylist in Redis, PostgreSQL behind generated statements, a rate limiter, access logs to MongoDB,
  metrics and traces, domain events to Kafka, and the server command that puts them together.
  Paths are relative to \<open>src/\<close>. The model is a shallow embedding: each Go function is an Isabelle
  function of the same name, or of a name with a prefix where two packages share one.

  \<^bold>\<open>How the program is put together.\<close> \<open>cmd/server/main.go\<close> installs the two secrets, sets up tracing,
  Redis, MongoDB, the event publisher and the database, and serves the engine of
  \<open>pkg/api/router.go\<close>. A request runs through the middlewares in the order they are registered
  (metrics, body limit, request identifier, tracing, access log, security headers, CORS, rate limiter),
  through those of its route (deadline, API key, JWT, role) and into a handler of \<open>pkg/api\<close>. The
  handlers call the services of \<open>pkg/service\<close>, which call the stores of \<open>pkg/repository\<close>, the Redis
  client and the publisher. The services know their collaborators only as interfaces.

  \<^bold>\<open>The state.\<close> A \<open>world\<close> (theory World) holds the database, Redis, the event transport, the
  run-time (environment, clock, random source), the two secrets, the windows of the in-process
  limiter, the event counter and what observability records. Operations take a world and return a
  result with the next world; a result is \<open>Inl\<close> of a Go error or \<open>Inr\<close> of a value. An interface value
  is a record of operations, a nil interface is \<open>None\<close>.

  \<^bold>\<open>Theories and sources.\<close>
  \<^item> Go_Prelude, Go_Errors, Go_Strings, Go_Strconv, Go_Json: integers (\<open>uint\<close> is a 64-bit word), time, the
    run-time, tables as lists; error values with \<open>errors.Is\<close>; \<open>strings\<close>, hexadecimal, base64;
    \<open>strconv\<close> and \<open>time.ParseDuration\<close>; what \<open>encoding/json\<close> makes of strings that are not UTF-8 and of
    values decoded into an \<open>any\<close>. With laws: parsing inverts printing, encodings are injective.
  \<^item> Models, World: \<open>pkg/models\<close>, \<open>pkg/events/event.go\<close>, the interfaces of \<open>pkg/repository\<close>, \<open>pkg/cache\<close>
    and \<open>pkg/events\<close>.
  \<^item> Pg, Pg_Laws: the tables of \<open>pkg/database/schema.sql\<close>, the statements of \<open>pkg/repository/dbsqlc\<close>,
    transactions, and the invariant \<open>pg_ok\<close> every statement keeps.
  \<^item> Repo_Base, Book_List, Sql_Select, Book_Store, Token_Store: \<open>pkg/repository\<close>. The listing builds SQL
    text at run time; Sql_Select parses such text and evaluates it on the table.
  \<^item> Contracts: the persistence interfaces as locales, with the laws the services use; Book_Store and
    Token_Store interpret them on the SQL stores.
  \<^item> Auth_Tokens, Denylist, Redis_Laws, Key_Generator: \<open>pkg/auth\<close>; the denylist interface is a locale,
    interpreted on the no-op and the Redis denylist. Redis_Script parses and runs the Lua text of a script;
    Redis_Laws states what the commands do to the keys, a script by running its text.
  \<^item> Book_Service, User_Service: \<open>pkg/service\<close>. User_Service states the contract of the authentication
    service as a locale over any persistence; Auth_Frame, Auth_Wired interpret it on the program's stores;
    Refresh_Life and Refresh_Race follow refresh tokens through sequences of calls and of statements;
    Book_Cache and Cache_Theorems do so for the pages of the list cache, Book_Race for listings and mutations that
    interleave.
  \<^item> Gin, Middleware_Auth, Rate_Limit, Middleware_Misc, Observability: \<open>pkg/middleware\<close>. The limiter's
    stores share one locale, interpreted on both.
  \<^item> API_Books, API_Users, Router, Router_Laws, Router_Authority: \<open>pkg/api\<close>, with \<open>pkg/httperr\<close> and
    \<open>pkg/httpresp\<close>.
  \<^item> Cache_Client, Database, Tracing_Setup, Kafka, Consumer, Server: \<open>pkg/cache/cache.go\<close>, \<open>pkg/database\<close>,
    \<open>pkg/tracing\<close>, \<open>pkg/events/kafka\<close> with \<open>driver\<close> and \<open>noop.go\<close>, \<open>examples/kafka-consumer\<close>,
    \<open>cmd/server\<close>.
  \<^item> Delivery, Event_Flow: the composition of service, producer, broker and consumer.
  \<^item> Demo, Demo_Auth, Demo_Http: concrete inputs, and libraries that obey the named laws, for the witnesses.

  \<^bold>\<open>What is proved.\<close> The properties stand in the theories whose names end in Theorems and in
  Book_Race, Refresh_Race, Delivery, Event_Flow, Metrics_Flow and Database, each after a text that starts with its number.
  \<^item> Authority (C1, C5 to C12, C26 to C28): through the whole stack, a book changes only by a request with
    the API key and a verified token of its owner; the gates are closed to everything else, without
    effect and without data; tokens round-trip; denied ones are refused; every request keeps the
    invariant of the database; the running server demands the key of its environment.
  \<^item> Sessions (C2 to C4, C13 to C16, C29, C33): a refresh token works once; a replay revokes its family, and a
    revoked family stays dead; rotation is atomic and races have one winner; what each call does
    on every branch.
  \<^item> Books (C17 to C25): the outcome of each mutation, with nothing left of a failed one; the cache serves current
    pages until a mutation is committed while Redis refuses the increment of the generation, and among concurrent calls
    none older than the start of the listing unless a mutation is half done then;
    the SQL text means the documented query; pages are bounded, exact and fit together.
  \<^item> Limits and settings (C31, C32, C37): the limiter lets at most its limit through in a window, for
    any interleaving of clients, in Redis by what the script's text does there; every setting read from the environment is in range or an error.
  \<^item> Operation (C30, C34 to C36, C38 to C40): the events of committed mutations take effect exactly once at the
    consumer, in the form \<open>encoding/json\<close> reads them back, over a broker that repeats them;
    the retry loop of the database ends and leaks no pool; the server closes its pool; the consumer
    returns exactly when it is cancelled; every request is counted, logged and traced once; the log queue is bounded and accounts for what it drops;
    request identifiers are well-formed.

  \<^bold>\<open>Bounds and fuel.\<close> All recursion is structural, or has a termination proof (\<open>trim_left\<close>, the parsers of
  Sql_Select and Redis_Script, \<open>json_text\<close>), except for three
  definitions. A block of a script is parsed with the number of its tokens as fuel, which is enough because every
  statement takes one, and the limiter's script is shown to parse. \<open>time.ParseDuration\<close> takes the length of its text as fuel, which is enough because every segment
  consumes a character. The loop of the consumer has no bound: it is a \<open>while_option\<close>, and C36 says
  when it returns. The three attempts of \<open>NewDatabase\<close> are counted by its first argument.

  \<^bold>\<open>What stands for code outside the repository.\<close> golang-jwt, bcrypt, SHA-256, \<open>encoding/json\<close>, go-redis,
  gin's binding, kafka-go, uuid, pgxpool, the MongoDB driver and the OpenTelemetry SDK are parameters: records of
  functions, arbitrary unless a property names a law (\<open>jwt_laws\<close>, \<open>redis_laws\<close>, \<open>json_law\<close>,
  \<open>lower_law\<close>, \<open>broker_law\<close>, \<open>event_lib_law\<close>, \<open>reader_law\<close>), and each law is shown of a concrete
  instance. The laws of \<open>encoding/json\<close> say that strings come back with bytes outside UTF-8 replaced, so the
  properties of listings ask that the table holds valid UTF-8 (\<open>text_valid\<close>), as PostgreSQL ensures, and that an \<open>any\<close> comes back as a map
  with \<open>float64\<close> numbers. PostgreSQL is modelled itself, with arbitrary faults: a faulty statement is rejected without
  effect.

  \<^bold>\<open>Not modelled.\<close> \<open>docs/docs.go\<close> and \<open>pkg/models/api_json.go\<close> are text and types for the API documentation;
  the mocks and \<open>internal/pgtest\<close> are test support. Left out of modelled parts: log lines other than the access log; gin's
  recovery and its wildcard-conflict panics; the expiry of a deadline during a call; an
  acknowledgement of PostgreSQL that is lost after the effect; the rounding of stored times to the microseconds
  of \<open>TIMESTAMPTZ\<close> (they keep their nanoseconds); a Redis command that takes effect though its client gives up on it, or twice by
  a retry; the timeouts of \<open>http.Server\<close> and the
  handling of connections.
\<close>

end
